(* ===== verification/Prelude.thy ===== *)
theory Prelude
  imports Complex_Main "HOL-Library.Word" "HOL-Library.Monad_Syntax" "HOL-Library.Sublist"
begin

unbundle bit_operations_syntax

text \<open>
  Shared vocabulary of the development: machine integers of the probe's target (x86-64
  Linux, little-endian, 32-bit \<^verbatim>\<open>int\<close>, 64-bit \<^verbatim>\<open>long\<close>, signed \<^verbatim>\<open>char\<close>), byte memory
  with explicit faults, and the generic lemmas the components share.

  A C object (a capture buffer, a \<^verbatim>\<open>calloc\<close>ed hash buffer) is a list of bytes.
  Every access of the source is a call of \<open>rd8\<close>, \<open>rd_slice\<close> or \<open>wr_slice\<close>, which
  return \<open>None\<close> when the access leaves the object: that is undefined behaviour in C,
  and a theorem that a function returns \<open>Some\<close> is a proof of memory safety.
\<close>

section \<open>Machine integers\<close>

type_synonym byte = "8 word"
type_synonym u16 = "16 word"
type_synonym u32 = "32 word"
type_synonym u64 = "64 word"

named_theorems mem_simps \<open>reads and writes of byte memory that stay inside the object\<close>
named_theorems mem_safe \<open>totality of operations whose accesses stay inside their objects\<close>

text \<open>A C \<^verbatim>\<open>int\<close> (two's complement, 32 bits): arithmetic wraps.\<close>

definition wrap_int :: "int \<Rightarrow> int" where
  "wrap_int v = signed_take_bit 31 v"

lemma wrap_int_id: "- 2147483648 \<le> v \<Longrightarrow> v < 2147483648 \<Longrightarrow> wrap_int v = v"
  by (simp add: wrap_int_def signed_take_bit_int_eq_self)

lemma wrap_int_range: "- 2147483648 \<le> wrap_int v" "wrap_int v < 2147483648"
proof -
  show "- 2147483648 \<le> wrap_int v"
    using signed_take_bit_int_greater_eq_minus_exp [of 31 v] by (simp add: wrap_int_def)
  show "wrap_int v < 2147483648"
    using signed_take_bit_int_less_exp [of 31 v] by (simp add: wrap_int_def)
qed

section \<open>Byte memory\<close>

definition rd8 :: "byte list \<Rightarrow> nat \<Rightarrow> byte option" where
  "rd8 m i = (if i < length m then Some (m ! i) else None)"

text \<open>The source side of a \<^verbatim>\<open>memcpy\<close>: \<open>n\<close> bytes from offset \<open>i\<close>.\<close>

definition rd_slice :: "byte list \<Rightarrow> nat \<Rightarrow> nat \<Rightarrow> byte list option" where
  "rd_slice m i n = (if i + n \<le> length m then Some (take n (drop i m)) else None)"

text \<open>The destination side of a \<^verbatim>\<open>memcpy\<close>.\<close>

definition wr_slice :: "byte list \<Rightarrow> nat \<Rightarrow> byte list \<Rightarrow> byte list option" where
  "wr_slice m i bs =
     (if i + length bs \<le> length m then Some (take i m @ bs @ drop (i + length bs) m) else None)"

text \<open>A 16-bit and a 32-bit load as the little-endian target performs them.\<close>

definition load16 :: "byte list \<Rightarrow> nat \<Rightarrow> u16 option" where
  "load16 m i = do { a \<leftarrow> rd8 m i; b \<leftarrow> rd8 m (i + 1);
     Some (ucast a + push_bit 8 (ucast b)) }"

definition load32 :: "byte list \<Rightarrow> nat \<Rightarrow> u32 option" where
  "load32 m i = do { a \<leftarrow> rd8 m i; b \<leftarrow> rd8 m (i + 1);
     c \<leftarrow> rd8 m (i + 2); d \<leftarrow> rd8 m (i + 3);
     Some (ucast a + push_bit 8 (ucast b) + push_bit 16 (ucast c) + push_bit 24 (ucast d)) }"

text \<open>\<^verbatim>\<open>ntohs\<close> and \<^verbatim>\<open>ntohl\<close> swap the bytes on this target.\<close>

definition ntohs :: "u16 \<Rightarrow> u16" where
  "ntohs w = push_bit 8 w OR drop_bit 8 w"

definition ntohl :: "u32 \<Rightarrow> u32" where
  "ntohl w = push_bit 24 w OR (push_bit 8 w AND 0xFF0000)
     OR (drop_bit 8 w AND 0xFF00) OR drop_bit 24 w"

lemma rd8_Some [mem_simps]: "i < length m \<Longrightarrow> rd8 m i = Some (m ! i)"
  by (simp add: rd8_def)

lemma rd8_eq_Some: "rd8 m i = Some b \<longleftrightarrow> i < length m \<and> m ! i = b"
  by (auto simp: rd8_def)

lemma rd8_eq_None: "rd8 m i = None \<longleftrightarrow> length m \<le> i"
  by (auto simp: rd8_def)

lemma rd_slice_Some [mem_simps]:
  "i + n \<le> length m \<Longrightarrow> rd_slice m i n = Some (take n (drop i m))"
  by (simp add: rd_slice_def)

lemma rd_slice_eq_Some:
  "rd_slice m i n = Some bs \<longleftrightarrow> i + n \<le> length m \<and> bs = take n (drop i m)"
  by (auto simp: rd_slice_def)

lemma wr_slice_Some [mem_simps]:
  "i + length bs \<le> length m \<Longrightarrow>
     wr_slice m i bs = Some (take i m @ bs @ drop (i + length bs) m)"
  by (simp add: wr_slice_def)

lemma wr_slice_length: "wr_slice m i bs = Some m' \<Longrightarrow> length m' = length m"
  by (auto simp: wr_slice_def split: if_splits)

lemma wr_slice_take:
  "wr_slice m i bs = Some m' \<Longrightarrow> take (i + length bs) m' = take i m @ bs"
  by (auto simp: wr_slice_def split: if_splits)

lemma load16_Some [mem_simps]:
  "i + 1 < length m \<Longrightarrow> load16 m i = Some (ucast (m ! i) + push_bit 8 (ucast (m ! (i + 1))))"
  by (simp add: load16_def mem_simps)

lemma load32_Some [mem_simps]:
  "i + 3 < length m \<Longrightarrow>
     load32 m i = Some (ucast (m ! i) + push_bit 8 (ucast (m ! (i + 1)))
       + push_bit 16 (ucast (m ! (i + 2))) + push_bit 24 (ucast (m ! (i + 3))))"
  by (simp add: load32_def mem_simps)

text \<open>Reads that agree on the bytes they touch agree.\<close>

lemma rd8_cong: "length m = length m' \<Longrightarrow> m ! i = m' ! i \<Longrightarrow> rd8 m i = rd8 m' i"
  by (simp add: rd8_def)

lemma rd_slice_cong:
  assumes "length m = length m'" and "\<And>j. i \<le> j \<Longrightarrow> j < i + n \<Longrightarrow> m ! j = m' ! j"
  shows "rd_slice m i n = rd_slice m' i n"
proof (cases "i + n \<le> length m")
  case True
  have "take n (drop i m) = take n (drop i m')"
    by (rule nth_equalityI) (use assms True in auto)
  with assms(1) show ?thesis by (simp add: rd_slice_def)
qed (use assms(1) in \<open>simp add: rd_slice_def\<close>)

section \<open>Generic lemmas\<close>

lemma bind_Some_conv: "(x \<bind> f = Some y) \<longleftrightarrow> (\<exists>z. x = Some z \<and> f z = Some y)"
  by (cases x) auto

lemma bind_ex_Some:
  "\<exists>z. x = Some z \<Longrightarrow> (\<And>z. x = Some z \<Longrightarrow> \<exists>y. f z = Some y) \<Longrightarrow> \<exists>y. x \<bind> f = Some y"
  by auto

lemma take_eq_nth_eq: "take n xs = take n ys \<Longrightarrow> i < n \<Longrightarrow> xs ! i = ys ! i"
  by (metis nth_take)

lemma unat_minus_le: "b \<le> a \<Longrightarrow> unat (a - b) = unat a - unat b" for a b :: "'a::len word"
  by (rule unat_sub)

section \<open>Word arithmetic\<close>

lemma xor_cancel: "(x XOR y) XOR y = (x :: 'a::len word)"
  by (simp add: xor.assoc)

lemma xor_0_iff: "x XOR y = 0 \<longleftrightarrow> x = (y :: 'a::len word)"
  by (metis xor_cancel xor_self_eq xor.left_neutral)

lemma xorshift_inj:
  fixes x y :: "'a::len word"
  assumes n: "0 < n" and eq: "x XOR drop_bit n (x AND m) = y XOR drop_bit n (y AND m)"
  shows "x = y"
proof -
  define d where "d = x XOR y"
  have "d = drop_bit n (d AND m)"
  proof (rule bit_word_eqI)
    fix i assume i: "i < LENGTH('a)"
    have "bit (x XOR drop_bit n (x AND m)) i = bit (y XOR drop_bit n (y AND m)) i"
      using eq by simp
    then show "bit d i = bit (drop_bit n (d AND m)) i"
      by (auto simp: d_def bit_simps)
  qed
  then have "unat d = unat (d AND m) div 2 ^ n"
    by (metis unat_drop_bit_eq drop_bit_eq_div)
  also have "\<dots> \<le> unat d div 2 ^ n"
    by (rule div_le_mono) (simp add: word_and_le2 word_le_nat_alt[symmetric])
  finally have le: "unat d \<le> unat d div 2 ^ n" .
  have "(1::nat) < 2 ^ n" using n by (rule one_less_power [rotated]) simp
  with le have "unat d = 0"
    by (metis div_less_dividend linorder_not_le not_gr_zero)
  then have "d = 0" by (simp add: unat_eq_zero)
  then show ?thesis by (simp add: d_def xor_0_iff)
qed

lemma odd_mult_inj:
  fixes x y :: u32
  assumes "x * k = y * k" and "k * c = 1" shows "x = y"
proof -
  have "x * (k * c) = y * (k * c)" using assms(1) by (simp add: mult.assoc[symmetric])
  then show ?thesis by (simp add: assms(2))
qed

lemma push_bit_mult: "push_bit n x = x * 2 ^ n" for x :: "'a::len word"
  by (simp add: push_bit_eq_mult)

lemma add_push_inj: 
  fixes x y :: u32
  assumes "x + push_bit n x = y + push_bit n y" and "(1 + 2 ^ n) * c = (1 :: u32)"
  shows "x = y"
  by (rule odd_mult_inj [OF _ assms(2)]) (use assms(1) in \<open>simp add: push_bit_mult distrib_left\<close>)

lemma add_not_push_inj: 
  fixes x y :: u32
  assumes "x + NOT (push_bit n x) = y + NOT (push_bit n y)" and "(1 - 2 ^ n) * c = (1 :: u32)"
  shows "x = y"
  by (rule odd_mult_inj [OF _ assms(2)]) (use assms(1) in \<open>simp add: push_bit_mult not_eq_complement right_diff_distrib\<close>)
lemma xorshift_inj': "x XOR drop_bit n x = y XOR drop_bit n y \<Longrightarrow> 0 < n \<Longrightarrow> x = y" for x y :: "'a::len word"
  using xorshift_inj[of n x "-1" y] by simp

lemma unat_byte: "unat (a::byte) < 256"
  using unsigned_less [of a, where ?'a = nat] by simp

lemma unat_ucast_byte: "unat (ucast (a::byte) :: u32) = unat a"
  using unat_byte [of a] by (simp add: unsigned_ucast_eq take_bit_nat_eq_self)

lemma unat_ucast_u16: "unat (ucast (a :: u16) :: u32) = unat a"
  using unsigned_less [of a, where ?'a = nat] by (simp add: unsigned_ucast_eq take_bit_nat_eq_self)

lemma ucast_byte_inj: "(ucast v :: u32) = ucast w \<Longrightarrow> v = w" for v w :: byte
  by (metis unat_ucast_byte unsigned_word_eqI)

definition le_word :: "byte list \<Rightarrow> u32" where
  "le_word xs = word_of_nat (horner_sum unat 256 xs)"

lemma le_word4: "ucast a + push_bit 8 (ucast b) + push_bit 16 (ucast c) + push_bit 24 (ucast d) = le_word [a,b,c,d]"
proof -
  have "ucast x = (word_of_nat (unat x) :: u32)" for x :: byte
    by (simp add: unat_ucast_byte)
  then show ?thesis
    by (simp add: le_word_def push_bit_eq_mult algebra_simps)
qed

lemma horner_bound: "horner_sum unat 256 (xs :: byte list) < 256 ^ length xs"
proof (induction xs)
  case (Cons a xs)
  then show ?case using unat_byte [of a] by simp
qed simp

lemma horner_inj: "length xs = length ys \<Longrightarrow> horner_sum unat 256 xs = horner_sum unat 256 (ys :: byte list) \<Longrightarrow> xs = ys"
proof (induction xs ys rule: list_induct2)
  case (Cons a xs b ys)
  have "unat a = horner_sum unat 256 (a # xs) mod 256" "unat b = horner_sum unat 256 (b # ys) mod 256"
    "horner_sum unat 256 xs = horner_sum unat 256 (a # xs) div 256"
    "horner_sum unat 256 ys = horner_sum unat 256 (b # ys) div 256"
    using unat_byte [of a] unat_byte [of b] by simp_all
  with Cons show ?case by (metis unsigned_word_eqI)
qed simp

lemma le_word_inj:
  assumes "length xs = length ys" "length xs \<le> 4" "le_word xs = le_word ys" shows "xs = ys"
proof (rule horner_inj [OF assms(1)])
  have "horner_sum unat 256 zs < 2 ^ 32" if "length zs \<le> 4" for zs :: "byte list"
    by (rule less_le_trans [OF horner_bound]) (use power_increasing [OF that, of "256::nat"] in simp)
  with assms show "horner_sum unat 256 xs = horner_sum unat 256 ys"
    by (simp add: le_word_def word_of_nat_eq_iff take_bit_nat_eq_self)
qed

text \<open>Concrete mixing steps are injective: the dest rules that undo a hash's last step.\<close>

lemma unmix_steps:
  fixes x y :: u32
  shows "x + push_bit 3 x = y + push_bit 3 y \<Longrightarrow> x = y"
    and "x + push_bit 10 x = y + push_bit 10 y \<Longrightarrow> x = y"
    and "x + push_bit 15 x = y + push_bit 15 y \<Longrightarrow> x = y"
    and "x + NOT (push_bit 11 x) = y + NOT (push_bit 11 y) \<Longrightarrow> x = y"
    and "x + NOT (push_bit 15 x) = y + NOT (push_bit 15 y) \<Longrightarrow> x = y"
    and "x XOR drop_bit 6 x = y XOR drop_bit 6 y \<Longrightarrow> x = y"
    and "x XOR drop_bit 11 x = y XOR drop_bit 11 y \<Longrightarrow> x = y"
    and "x XOR drop_bit 6 (x AND m) = y XOR drop_bit 6 (y AND m) \<Longrightarrow> x = y"
    and "x XOR drop_bit 10 (x AND m) = y XOR drop_bit 10 (y AND m) \<Longrightarrow> x = y"
    and "x XOR drop_bit 16 (x AND m) = y XOR drop_bit 16 (y AND m) \<Longrightarrow> x = y"
  by (erule add_push_inj [where c = 954437177], simp)
     (erule add_push_inj [where c = 3222273025], simp,
      erule add_push_inj [where c = 1073709057], simp,
      erule add_not_push_inj [where c = 4196353], simp,
      erule add_not_push_inj [where c = 1073774593], simp,
      (erule xorshift_inj' xorshift_inj [rotated], simp)+)

end
