(* ===== verification/C_Strings.thy ===== *)
theory C_Strings
  imports Prelude
begin

text \<open>
  What the probe uses of the C library's strings (C locale, signed \<^verbatim>\<open>char\<close>), and the string
  helpers of \<^verbatim>\<open>src/helper.c\<close>. A C string is the list of its characters before the
  terminating NUL.
\<close>

section \<open>Character classes\<close>

definition c_isspace :: "char \<Rightarrow> bool" where
  "c_isspace c \<longleftrightarrow> of_char c = (32 :: nat) \<or> 9 \<le> (of_char c :: nat) \<and> (of_char c :: nat) \<le> 13"

definition c_isdigit :: "char \<Rightarrow> bool" where
  "c_isdigit c \<longleftrightarrow> 48 \<le> (of_char c :: nat) \<and> (of_char c :: nat) \<le> 57"

definition c_iscntrl :: "char \<Rightarrow> bool" where
  "c_iscntrl c \<longleftrightarrow> (of_char c :: nat) < 32 \<or> of_char c = (127 :: nat)"

definition c_tolower :: "char \<Rightarrow> char" where
  "c_tolower c = (if 65 \<le> (of_char c :: nat) \<and> (of_char c :: nat) \<le> 90
                  then char_of (of_char c + 32 :: nat) else c)"

definition digit_val :: "char \<Rightarrow> nat" where
  "digit_val c = of_char c - 48"

section \<open>Numbers\<close>

text \<open>The digits of a number, most significant first, as \<^verbatim>\<open>%d\<close> prints it.\<close>

fun dec_string :: "nat \<Rightarrow> string" where
  "dec_string n = (if n < 10 then [char_of (48 + n)]
                   else dec_string (n div 10) @ [char_of (48 + n mod 10)])"

declare dec_string.simps [simp del]

text \<open>\<^verbatim>\<open>%d\<close> of an \<^verbatim>\<open>int\<close>.\<close>

definition int_string :: "int \<Rightarrow> string" where
  "int_string i = (if i < 0 then CHR ''-'' # dec_string (nat (- i)) else dec_string (nat i))"

definition dec_value :: "string \<Rightarrow> nat" where
  "dec_value ds = foldl (\<lambda>v d. 10 * v + digit_val d) 0 ds"

text \<open>\<^verbatim>\<open>strtol(s, NULL, 10)\<close> saturates at the limits of \<^verbatim>\<open>long\<close>.\<close>

definition clamp_long :: "int \<Rightarrow> int" where
  "clamp_long v = (if v < - (2 ^ 63) then - (2 ^ 63) else if 2 ^ 63 - 1 < v then 2 ^ 63 - 1 else v)"

definition strtol10 :: "string \<Rightarrow> int" where
  "strtol10 s = (case dropWhile c_isspace s of
       [] \<Rightarrow> 0
     | c # cs \<Rightarrow>
         if c = CHR ''-'' then clamp_long (- int (dec_value (takeWhile c_isdigit cs)))
         else if c = CHR ''+'' then clamp_long (int (dec_value (takeWhile c_isdigit cs)))
         else clamp_long (int (dec_value (takeWhile c_isdigit (c # cs)))))"

definition atoi :: "string \<Rightarrow> int" where
  "atoi s = wrap_int (strtol10 s)"

section \<open>Searching and comparing\<close>

definition strcspn :: "string \<Rightarrow> string \<Rightarrow> nat" where
  "strcspn s reject = length (takeWhile (\<lambda>c. c \<notin> set reject) s)"

text \<open>Equality tests written \<^verbatim>\<open>strcasecmp(a, b) == 0\<close> and \<^verbatim>\<open>strncasecmp(a, b, n) == 0\<close>.\<close>

definition strcase_eq :: "string \<Rightarrow> string \<Rightarrow> bool" where
  "strcase_eq a b \<longleftrightarrow> map c_tolower a = map c_tolower b"

definition strncase_eq :: "string \<Rightarrow> string \<Rightarrow> nat \<Rightarrow> bool" where
  "strncase_eq a b n \<longleftrightarrow> map c_tolower (take n a) = map c_tolower (take n b)"

definition strn_eq :: "string \<Rightarrow> string \<Rightarrow> nat \<Rightarrow> bool" where
  "strn_eq a b n \<longleftrightarrow> take n a = take n b"

section \<open>Trimming (\<^verbatim>\<open>helper.c\<close>)\<close>

fun l_trim :: "string \<Rightarrow> string" where
  "l_trim [] = []"
| "l_trim (c # s) = (if c_isspace c then l_trim s else c # s)"

text \<open>\<open>pos\<close> is the offset of the pointer that walks from the end; it stops before offset 0.\<close>

fun r_trim_loop :: "string \<Rightarrow> nat \<Rightarrow> string" where
  "r_trim_loop s 0 = s"
| "r_trim_loop s (Suc pos) =
     (if c_isspace (s ! Suc pos) then r_trim_loop (take (Suc pos) s) pos else s)"

definition r_trim :: "string \<Rightarrow> string" where
  "r_trim s = r_trim_loop s (length s - 1)"

section \<open>Dotted addresses (\<^verbatim>\<open>helper.c\<close>)\<close>

text \<open>Byte \<open>i\<close> of the object representation of a 32-bit value.\<close>

definition byte_of :: "u32 \<Rightarrow> nat \<Rightarrow> byte" where
  "byte_of w i = ucast (drop_bit (8 * i) w)"

definition dotted :: "u32 \<Rightarrow> string" where
  "dotted w = dec_string (unat (byte_of w 0)) @ ''.'' @ dec_string (unat (byte_of w 1)) @ ''.''
     @ dec_string (unat (byte_of w 2)) @ ''.'' @ dec_string (unat (byte_of w 3))"

definition ntoa :: "u32 \<Rightarrow> string" where
  "ntoa ipaddr = dotted ipaddr"

definition htoa :: "u32 \<Rightarrow> string" where
  "htoa ipaddr = dotted (ntohl ipaddr)"

section \<open>Lemmas\<close>

lemma l_trim_dropWhile: "l_trim s = dropWhile c_isspace s"
  by (induction s) auto

text \<open>The right trim keeps the first character whatever it is.\<close>

definition rstrip :: "string \<Rightarrow> string" where
  "rstrip s = rev (dropWhile c_isspace (rev s))"

lemma r_trim_loop_ref:
  "pos < length s \<Longrightarrow> length s = Suc pos \<Longrightarrow> r_trim_loop s pos = hd s # rstrip (tl s)"
proof (induction s pos rule: r_trim_loop.induct)
  case (1 s)
  then show ?case by (cases s) (auto simp: rstrip_def)
next
  case (2 s pos)
  obtain a t c where s: "s = a # t @ [c]"
    using "2.prems" by (cases s; cases "tl s" rule: rev_cases) auto
  then have "length t = pos" using "2.prems" by simp
  with 2 s show ?case by (auto simp: rstrip_def nth_append)
qed

lemma r_trim_ref: "r_trim s = (case s of [] \<Rightarrow> [] | c # cs \<Rightarrow> c # rstrip cs)"
  using r_trim_loop_ref [of "length s - 1" s] by (cases s) (auto simp: r_trim_def)

lemma digit_char:
  assumes "d < 10"
  shows "c_isdigit (char_of (48 + d))" "digit_val (char_of (48 + d)) = d"
  using assms by (simp_all add: c_isdigit_def digit_val_def)

lemma dec_string_digits: "c \<in> set (dec_string n) \<Longrightarrow> c_isdigit c"
  by (induction n rule: dec_string.induct) (subst (asm) (2) dec_string.simps, auto simp: digit_char split: if_splits)

lemma dec_string_not_Nil [simp]: "dec_string n \<noteq> []"
  by (subst dec_string.simps) auto

lemma dec_value_snoc: "dec_value (ds @ [d]) = 10 * dec_value ds + digit_val d"
  by (simp add: dec_value_def)

lemma dec_value_string [simp]: "dec_value (dec_string n) = n"
proof (induction n rule: dec_string.induct)
  case (1 n)
  show ?case
  proof (cases "n < 10")
    case True
    then show ?thesis by (subst dec_string.simps) (simp add: dec_value_def digit_char)
  next
    case False
    then have "dec_string n = dec_string (n div 10) @ [char_of (48 + n mod 10)]"
      by (subst dec_string.simps) simp
    with False 1 show ?thesis by (simp add: dec_value_snoc digit_char)
  qed
qed

lemma digit_not_special:
  "c_isdigit c \<Longrightarrow> \<not> c_isspace c \<and> c \<noteq> CHR ''-'' \<and> c \<noteq> CHR ''+''"
  by (auto simp: c_isdigit_def c_isspace_def)

lemma dec_string_Cons: "\<exists>c cs. dec_string n = c # cs \<and> c_isdigit c"
  using dec_string_digits [of _ n] by (cases "dec_string n") auto

text \<open>\<^verbatim>\<open>atoi\<close> reads back a printed number up to the first character that is no digit.\<close>

lemma atoi_dec_string:
  assumes n: "int n < 2147483648" and rest: "rest = [] \<or> \<not> c_isdigit (hd rest)"
  shows "atoi (dec_string n @ rest) = int n"
proof -
  obtain c cs where c: "dec_string n = c # cs" "c_isdigit c" using dec_string_Cons by blast
  have "takeWhile c_isdigit (dec_string n @ rest) = dec_string n @ takeWhile c_isdigit rest"
    using dec_string_digits by (simp add: takeWhile_append2)
  also have "takeWhile c_isdigit rest = []" using rest by (cases rest) auto
  finally have tw: "takeWhile c_isdigit (c # cs @ rest) = dec_string n" using c by simp
  have "strtol10 (dec_string n @ rest) = clamp_long (int (dec_value (takeWhile c_isdigit (c # cs @ rest))))"
    using c digit_not_special [of c] by (simp add: strtol10_def)
  also have "\<dots> = int n" using n by (simp only: tw dec_value_string) (simp add: clamp_long_def)
  finally show ?thesis using n by (simp add: atoi_def wrap_int_id)
qed

lemma atoi_range: "- 2147483648 \<le> atoi s" "atoi s < 2147483648"
  by (simp_all add: atoi_def wrap_int_range)

lemma strcspn_append:
  assumes "\<And>c. c \<in> set s \<Longrightarrow> c \<notin> set rej" and "rest = [] \<or> hd rest \<in> set rej"
  shows "strcspn (s @ rest) rej = length s"
proof -
  have "takeWhile (\<lambda>c. c \<notin> set rej) (s @ rest) = s @ takeWhile (\<lambda>c. c \<notin> set rej) rest"
    using assms(1) by (intro takeWhile_append2) auto
  also have "takeWhile (\<lambda>c. c \<notin> set rej) rest = []" using assms(2) by (cases rest) auto
  finally show ?thesis by (simp add: strcspn_def)
qed

lemma strcspn_le: "strcspn s rej \<le> length s"
  by (simp add: strcspn_def length_takeWhile_le)

end
