(* ===== verification/Netcon.thy ===== *)
theory Netcon
  imports C_Strings
begin

text \<open>
  The network console (\<^verbatim>\<open>src/netcon.c\<close>): the registry of commands, the connections over which
  the collector sends commands, and their synchronisation with the descriptor of the exporter.
  A registered command is a value of an arbitrary type, and what calling it does to the rest of
  the program is an argument. \<^verbatim>\<open>netcon_init\<close> returns before it opens a listening socket, so
  \<^verbatim>\<open>accept_cb\<close> and \<^verbatim>\<open>write_cb\<close> are never registered; they are in theory \<open>Netcon_Server\<close>.
\<close>

section \<open>State\<close>

abbreviation (input) BUFFER_SIZE :: nat where "BUFFER_SIZE \<equiv> 1024"
abbreviation (input) NETCON_CMD_MATCHED :: int where "NETCON_CMD_MATCHED \<equiv> 1"
abbreviation (input) NETCON_CMD_UNKNOWN :: int where "NETCON_CMD_UNKNOWN \<equiv> 0"
abbreviation (input) NUL :: char where "NUL \<equiv> CHR 0x00"

text \<open>\<open>c_reading\<close>: the read watcher of the connection is active.\<close>

record connection =
  c_sync :: bool
  c_fd :: int
  c_reading :: bool
  c_rd :: nat
  c_wr :: nat
  c_in :: string

record 'c netcon =
  reg :: "'c list"
  conn :: "connection list"

definition calloc_connection :: connection where
  "calloc_connection = \<lparr>c_sync = False, c_fd = 0, c_reading = False, c_rd = 0, c_wr = 0, c_in = replicate BUFFER_SIZE NUL\<rparr>"

section \<open>Commands\<close>

text \<open>The new entry goes to the end of the list; \<^verbatim>\<open>NULL\<close> is ignored, as is a failed allocation.\<close>

definition netcon_register :: "bool \<Rightarrow> 'c option \<Rightarrow> 'c netcon \<Rightarrow> 'c netcon" where
  "netcon_register alloc cmd nc = (case cmd of
       None \<Rightarrow> nc
     | Some c \<Rightarrow> if alloc then nc\<lparr>reg := reg nc @ [c]\<rparr> else nc)"

definition netcon_init :: "'c netcon \<Rightarrow> 'c netcon \<times> int" where
  "netcon_init nc = (nc\<lparr>reg := [], conn := []\<rparr>, 0)"

text \<open>\<^verbatim>\<open>strncpy\<close> copies up to the first NUL and pads.\<close>

definition strncpy_array :: "string \<Rightarrow> nat \<Rightarrow> string" where
  "strncpy_array src n = (let s = takeWhile (\<lambda>c. c \<noteq> NUL) (take n src) in s @ replicate (n - length s) NUL)"

text \<open>The loop that replaces trailing control characters; it does not stop at index 0.\<close>

fun strip_control :: "string \<Rightarrow> nat \<Rightarrow> string option" where
  "strip_control msg 0 = None"
| "strip_control msg (Suc len) =
     (let msg = msg[Suc len := NUL] in if c_iscntrl (msg ! len) then strip_control msg len else Some msg)"

fun run_registry :: "('c \<Rightarrow> string \<Rightarrow> 's \<Rightarrow> (int \<times> 's) option) \<Rightarrow> 'c list \<Rightarrow> string \<Rightarrow> int \<Rightarrow> 's \<Rightarrow> (int \<times> 's) option" where
  "run_registry call [] msg res s = Some (res, s)"
| "run_registry call (c # cs) msg res s =
     (if res \<noteq> NETCON_CMD_MATCHED then do { (res, s) \<leftarrow> call c msg s; run_registry call cs msg res s }
      else Some (res, s))"

text \<open>The message is the whole array, so that a command may read behind its first NUL.\<close>

definition connection_read :: "('c \<Rightarrow> string \<Rightarrow> 's \<Rightarrow> (int \<times> 's) option) \<Rightarrow> 'c list \<Rightarrow> connection \<Rightarrow> 's \<Rightarrow>
    (connection \<times> 's) option" where
  "connection_read call rs c s = (let len = c_wr c - c_rd c in do {
     msg \<leftarrow> strip_control (strncpy_array (c_in c) len @ [NUL]) len;
     (_, s) \<leftarrow> run_registry call rs msg NETCON_CMD_UNKNOWN s;
     Some (c\<lparr>c_rd := 0, c_wr := 0\<rparr>, s) })"

section \<open>Connections\<close>

text \<open>A connection that is not synchronised is freed.\<close>

definition connection_close :: "connection \<Rightarrow> connection option" where
  "connection_close c = (if c_sync c then Some (c\<lparr>c_reading := False, c_fd := - 1\<rparr>) else None)"

text \<open>
  \<open>error\<close> and \<open>readable\<close> are the event bits; \<open>received\<close> is what \<^verbatim>\<open>read\<close> stores, \<open>[]\<close> when it
  returns 0 or an error.
\<close>

definition read_cb :: "('c \<Rightarrow> string \<Rightarrow> 's \<Rightarrow> (int \<times> 's) option) \<Rightarrow> 'c list \<Rightarrow> bool \<Rightarrow> bool \<Rightarrow> string \<Rightarrow>
    connection \<Rightarrow> 's \<Rightarrow> (connection option \<times> 's) option" where
  "read_cb call rs error readable received c s =
     (let maxlen = BUFFER_SIZE - c_wr c in
      if error then Some (Some c, s)
      else if maxlen = 0 then map_option (\<lambda>(c, s). (Some c, s)) (connection_read call rs c s)
      else if readable then
        (let bs = take maxlen received in
         if bs = [] then Some (connection_close c, s)
         else map_option (\<lambda>(c, s). (Some c, s)) (connection_read call rs
           (c\<lparr>c_in := take (c_wr c) (c_in c) @ bs @ drop (c_wr c + length bs) (c_in c), c_wr := c_wr c + length bs\<rparr>) s))
      else Some (Some c, s))"

section \<open>Synchronisation with the exporter\<close>

definition drop_connection :: "connection \<Rightarrow> connection" where
  "drop_connection c = (if 0 < c_fd c then c\<lparr>c_fd := - 1\<rparr> else c)"

text \<open>libev does not allow the initialisation of an active watcher: the model faults there.\<close>

definition start_sync :: "int \<Rightarrow> connection \<Rightarrow> connection option" where
  "start_sync fd c = (if c_reading c then None else Some (c\<lparr>c_fd := fd, c_sync := True, c_reading := True\<rparr>))"

definition free_slot :: "connection list \<Rightarrow> nat" where
  "free_slot cs = length (takeWhile (\<lambda>c. c_fd c \<noteq> - 1) cs)"

definition netcon_resync :: "bool \<Rightarrow> int \<Rightarrow> connection list \<Rightarrow> (int \<times> connection list) option" where
  "netcon_resync alloc fd cs =
     (if fd < 0 then Some (0, map drop_connection cs)
      else if \<exists>c \<in> set cs. c_fd c = fd then Some (0, cs)
      else if free_slot cs = length cs then
        (if alloc then map_option (\<lambda>c. (0, cs @ [c])) (start_sync fd calloc_connection) else Some (- 1, cs))
      else map_option (\<lambda>c. (0, cs[free_slot cs := c])) (start_sync fd (cs ! free_slot cs)))"

text \<open>
  The timer passes the descriptor of the first collector of the exporter; without a collector
  the list head is \<^verbatim>\<open>NULL\<close>.
\<close>

definition resync_timer_cb :: "bool \<Rightarrow> int list \<Rightarrow> 'c netcon \<Rightarrow> 'c netcon option" where
  "resync_timer_cb alloc collectors nc = (case collectors of
       [] \<Rightarrow> None
     | fd # _ \<Rightarrow> map_option (\<lambda>(_, cs). nc\<lparr>conn := cs\<rparr>) (netcon_resync alloc fd (conn nc)))"

section \<open>Messages\<close>

definition cstr :: "string \<Rightarrow> string" where
  "cstr msg = takeWhile (\<lambda>c. c \<noteq> NUL) msg"

lemma takeWhile_NUL:
  "NUL \<notin> set s \<Longrightarrow> takeWhile (\<lambda>c. c \<noteq> NUL) s = s"
  "NUL \<notin> set s \<Longrightarrow> takeWhile (\<lambda>c. c \<noteq> NUL) (s @ NUL # r) = s"
  by (induction s) auto

lemma NUL_cntrl: "c_iscntrl NUL"
  by (simp add: c_iscntrl_def)

lemma strip_control_blank: "(\<And>c. c \<in> set (take n msg) \<Longrightarrow> c_iscntrl c) \<Longrightarrow> n < length msg \<Longrightarrow> strip_control msg n = None"
proof (induction msg n rule: strip_control.induct)
  case (2 msg len)
  have "c_iscntrl (msg ! len)" using 2(2,3) by (simp add: take_Suc_conv_app_nth)
  moreover have "strip_control (msg[Suc len := NUL]) len = None"
    using 2 \<open>c_iscntrl (msg ! len)\<close> by (auto simp: take_Suc_conv_app_nth Let_def)
  ultimately show ?case by (simp add: Let_def)
qed simp

lemma strip_control_update: "strip_control (msg[n := NUL]) n = strip_control msg n"
  by (cases n) simp_all

lemma strip_control_line:
  assumes "body \<noteq> []" "\<not> c_iscntrl (last body)" and "\<And>c. c \<in> set eol \<Longrightarrow> c_iscntrl c"
  shows "strip_control (body @ eol @ NUL # pad) (length body + length eol) = Some (body @ replicate (Suc (length eol)) NUL @ pad)"
  using assms(3)
proof (induction eol arbitrary: pad rule: rev_induct)
  case Nil
  obtain b x where b: "body = b @ [x]" using assms(1) by (cases body rule: rev_cases) auto
  with assms(2) show ?case by (simp add: Let_def nth_append list_update_append)
next
  case (snoc e eol)
  then have "strip_control (body @ eol @ NUL # NUL # pad) (length body + length eol)
      = Some (body @ replicate (Suc (length eol)) NUL @ NUL # pad)"
    by simp
  then have "strip_control (body @ eol @ e # NUL # pad) (length body + length eol)
      = Some (body @ replicate (Suc (length eol)) NUL @ NUL # pad)"
    using strip_control_update [of "body @ eol @ e # NUL # pad" "length body + length eol"]
    by (simp add: list_update_append)
  moreover have "replicate n NUL @ NUL # pad = NUL # replicate n NUL @ pad" for n
    by (induction n) auto
  ultimately show ?case using snoc.prems by (simp add: Let_def nth_append list_update_append)
qed

lemma strncpy_no_NUL: "n \<le> length src \<Longrightarrow> NUL \<notin> set (take n src) \<Longrightarrow> strncpy_array src n = take n src"
  by (simp add: strncpy_array_def takeWhile_NUL)



text \<open>A line arrives at the commands without its trailing control characters.\<close>

definition console_line :: "string \<Rightarrow> string \<Rightarrow> bool" where
  "console_line body eol \<longleftrightarrow> body \<noteq> [] \<and> \<not> c_iscntrl (last body) \<and> (\<forall>c \<in> set eol. c_iscntrl c)
     \<and> NUL \<notin> set (body @ eol) \<and> length (body @ eol) \<le> BUFFER_SIZE"

definition line_array :: "string \<Rightarrow> string \<Rightarrow> string" where
  "line_array body eol = body @ replicate (Suc (length eol)) NUL"

lemma cstr_line_array: "NUL \<notin> set body \<Longrightarrow> cstr (line_array body eol) = body"
  by (simp add: cstr_def line_array_def takeWhile_NUL)

lemma connection_read_line:
  assumes "console_line body eol" and "c_rd c = 0" "c_wr c = length (body @ eol)"
    and "take (c_wr c) (c_in c) = body @ eol" "length (c_in c) = BUFFER_SIZE"
  shows "connection_read call rs c s =
    map_option (\<lambda>(_, s). (c\<lparr>c_rd := 0, c_wr := 0\<rparr>, s)) (run_registry call rs (line_array body eol) NETCON_CMD_UNKNOWN s)"
proof -
  have "strncpy_array (c_in c) (c_wr c) = body @ eol"
    using assms strncpy_no_NUL [of "c_wr c" "c_in c"] by (simp add: console_line_def)
  moreover have "strip_control (body @ eol @ [NUL]) (length body + length eol) = Some (line_array body eol)"
    using strip_control_line [of body eol "[]"] assms(1) by (simp add: console_line_def line_array_def)
  ultimately show ?thesis
    using assms(2,3) by (cases "run_registry call rs (line_array body eol) NETCON_CMD_UNKNOWN s")
      (auto simp: connection_read_def Let_def)
qed

section \<open>Connections and their invariant\<close>

text \<open>
  The descriptors in use, those whose watchers are active, and what holds of the slots between two
  callbacks.
\<close>

definition fds :: "connection list \<Rightarrow> int list" where
  "fds cs = filter (\<lambda>fd. fd \<noteq> - 1) (map c_fd cs)"

definition watched :: "connection list \<Rightarrow> int list" where
  "watched cs = fds (filter c_reading cs)"

definition slot_ok :: "connection \<Rightarrow> bool" where
  "slot_ok c \<longleftrightarrow> c_sync c \<and> c_rd c = 0 \<and> c_wr c = 0 \<and> length (c_in c) = BUFFER_SIZE \<and> (c_fd c \<noteq> - 1 \<longrightarrow> 0 \<le> c_fd c)"

definition slots_ok :: "connection list \<Rightarrow> bool" where
  "slots_ok cs \<longleftrightarrow> distinct (fds cs) \<and> (\<forall>c \<in> set cs. slot_ok c)"

lemma fds_append: "fds (xs @ ys) = fds xs @ fds ys"
  by (simp add: fds_def)

lemma fds_Cons: "fds (c # cs) = (if c_fd c = - 1 then fds cs else c_fd c # fds cs)"
  by (simp add: fds_def)

lemma fds_Nil [simp]: "fds [] = []"
  by (simp add: fds_def)

lemma watched_append: "watched (xs @ ys) = watched xs @ watched ys"
  by (simp add: watched_def fds_append)

lemma watched_Cons: "watched (c # cs) = (if c_fd c = - 1 \<or> \<not> c_reading c then watched cs else c_fd c # watched cs)"
  by (simp add: watched_def fds_Cons)

lemma watched_Nil [simp]: "watched [] = []"
  by (simp add: watched_def)

lemma watched_fds: "set (watched cs) \<subseteq> set (fds cs)"
  by (auto simp: watched_def fds_def)

lemmas slot_lists = fds_append fds_Cons watched_append watched_Cons

lemma free_slot_split:
  assumes "free_slot cs < length cs"
  obtains xs c ys where "cs = xs @ c # ys" "free_slot cs = length xs" "c_fd c = - 1"
proof -
  let ?n = "free_slot cs"
  have "c_fd (cs ! ?n) = - 1"
    using assms nth_length_takeWhile [of "\<lambda>c. c_fd c \<noteq> - 1" cs] by (simp add: free_slot_def)
  with id_take_nth_drop [OF assms] assms that [of "take ?n cs" "cs ! ?n" "drop (Suc ?n) cs"] show ?thesis by simp
qed

text \<open>What a successful call does: the descriptor is added, or a negative one drops all.\<close>

lemma resync_adds:
  assumes "netcon_resync alloc fd cs = Some (r, cs')" and "0 \<le> fd" and "slots_ok cs"
  shows "slots_ok cs' \<and> set (fds cs') = (if r = 0 then insert fd (set (fds cs)) else set (fds cs))
    \<and> set (watched cs') = (if r = 0 \<and> fd \<notin> set (fds cs) then insert fd (set (watched cs)) else set (watched cs))"
proof (cases "\<exists>c \<in> set cs. c_fd c = fd")
  case True
  with assms have "r = 0 \<and> cs' = cs" by (auto simp: netcon_resync_def)
  moreover from True assms(2) have "fd \<in> set (fds cs)" by (auto simp: fds_def)
  ultimately show ?thesis using assms(3) by auto
next
  case new: False
  then have fd: "fd \<notin> set (fds cs)" by (auto simp: fds_def)
  show ?thesis
  proof (cases "free_slot cs = length cs")
    case True
    with new assms fd show ?thesis
      by (auto simp: netcon_resync_def start_sync_def calloc_connection_def slots_ok_def slot_ok_def slot_lists split: if_splits)
  next
    case False
    then have "free_slot cs < length cs" using length_takeWhile_le [of _ cs] by (simp add: free_slot_def le_neq_implies_less)
    then obtain xs c ys where "cs = xs @ c # ys" "free_slot cs = length xs" "c_fd c = - 1" by (rule free_slot_split)
    with new False assms fd show ?thesis
      by (auto simp: netcon_resync_def start_sync_def slots_ok_def slot_ok_def slot_lists split: if_splits)
  qed
qed

lemma resync_drops:
  assumes "fd < 0" and "slots_ok cs" and "0 \<notin> set (fds cs)"
  shows "netcon_resync alloc fd cs = Some (0, map drop_connection cs)" "fds (map drop_connection cs) = []"
    "watched (map drop_connection cs) = []" "slots_ok (map drop_connection cs)"
proof -
  show "netcon_resync alloc fd cs = Some (0, map drop_connection cs)" using assms by (simp add: netcon_resync_def)
  have "c_fd c = - 1 \<or> 0 < c_fd c" if "c \<in> set cs" for c
    using that assms(2,3) by (auto simp: slots_ok_def slot_ok_def fds_def)
  then show no: "fds (map drop_connection cs) = []"
    by (auto simp: fds_def filter_empty_conv drop_connection_def)
  show "watched (map drop_connection cs) = []" using watched_fds [of "map drop_connection cs"] no by simp
  from no show "slots_ok (map drop_connection cs)"
    using assms(2) by (auto simp: slots_ok_def slot_ok_def drop_connection_def)
qed

section \<open>Events of the console\<close>

text \<open>
  The resynchronisation timer with the collector's descriptor, and the read watchers. \<open>Readable fd\<close> is an
  event of the active watcher of the connection with that descriptor. \<open>Stale j\<close> is an event of the
  watcher in slot \<open>j\<close> that is still active after its connection was dropped: it waits on a descriptor
  that is closed, or that the system has given away again, and the callback reads from the
  descriptor -1, which fails. libev stops a watcher before it delivers an error.
\<close>

datatype net_event = Resync bool int | Readable int bool bool string | Stale nat bool

definition slot_of :: "int \<Rightarrow> connection list \<Rightarrow> nat" where
  "slot_of fd cs = length (takeWhile (\<lambda>c. c_fd c \<noteq> fd) cs)"

definition fire :: "('c \<Rightarrow> string \<Rightarrow> 's \<Rightarrow> (int \<times> 's) option) \<Rightarrow> nat \<Rightarrow> bool \<Rightarrow> bool \<Rightarrow> string \<Rightarrow> 'c netcon \<Rightarrow> 's \<Rightarrow>
    ('c netcon \<times> 's) option" where
  "fire call j error readable received nc s =
     (let c = conn nc ! j; c = (if error then c\<lparr>c_reading := False\<rparr> else c) in do {
        (c, s) \<leftarrow> read_cb call (reg nc) error readable received c s;
        Some (case c of Some c \<Rightarrow> nc\<lparr>conn := (conn nc)[j := c]\<rparr> | None \<Rightarrow> nc, s) })"

fun net_step :: "('c \<Rightarrow> string \<Rightarrow> 's \<Rightarrow> (int \<times> 's) option) \<Rightarrow> net_event \<Rightarrow> 'c netcon \<Rightarrow> 's \<Rightarrow> ('c netcon \<times> 's) option" where
  "net_step call (Resync alloc fd) nc s = map_option (\<lambda>nc. (nc, s)) (resync_timer_cb alloc [fd] nc)"
| "net_step call (Readable fd error readable received) nc s =
     (let j = slot_of fd (conn nc) in
      if j < length (conn nc) \<and> c_reading (conn nc ! j) then fire call j error readable received nc s else Some (nc, s))"
| "net_step call (Stale j error) nc s =
     (if j < length (conn nc) \<and> c_reading (conn nc ! j) \<and> c_fd (conn nc ! j) = - 1
      then fire call j error True [] nc s else Some (nc, s))"

fun net_run :: "('c \<Rightarrow> string \<Rightarrow> 's \<Rightarrow> (int \<times> 's) option) \<Rightarrow> net_event list \<Rightarrow> 'c netcon \<Rightarrow> 's \<Rightarrow> ('c netcon \<times> 's) option" where
  "net_run call [] nc s = Some (nc, s)"
| "net_run call (e # es) nc s = do { (nc, s) \<leftarrow> net_step call e nc s; net_run call es nc s }"

text \<open>
  The abstract machine: the set of descriptors that are registered, and those of them that are
  watched. An error ends the watching, but not the registration.
\<close>

fun abs_step :: "net_event \<Rightarrow> int set \<times> int set \<Rightarrow> int set \<times> int set" where
  "abs_step (Resync alloc fd) (S, W) =
     (if fd < 0 then ({}, {}) else if fd \<in> S then (S, W) else (insert fd S, insert fd W))"
| "abs_step (Readable fd error readable received) (S, W) =
     (if fd \<notin> W then (S, W)
      else if error then (S, W - {fd})
      else if readable \<and> received = [] then (S - {fd}, W - {fd})
      else (S, W))"
| "abs_step (Stale j error) (S, W) = (S, W)"

definition registered :: "'c netcon \<Rightarrow> int set \<times> int set" where
  "registered nc = (set (fds (conn nc)), set (watched (conn nc)))"

text \<open>Descriptors of the events: positive, or negative for a lost collector; memory suffices.\<close>

fun sane_event :: "net_event \<Rightarrow> bool" where
  "sane_event (Resync alloc fd) \<longleftrightarrow> alloc \<and> fd \<noteq> 0"
| "sane_event (Readable fd error readable received) \<longleftrightarrow> 0 < fd"
| "sane_event (Stale j error) \<longleftrightarrow> True"

text \<open>The slot that a new descriptor would get has a watcher that was never stopped.\<close>

definition blocked :: "connection list \<Rightarrow> bool" where
  "blocked cs \<longleftrightarrow> free_slot cs < length cs \<and> c_reading (cs ! free_slot cs)"

lemma slot_of_split:
  assumes "slot_of fd cs < length cs"
  obtains xs c ys where "cs = xs @ c # ys" "slot_of fd cs = length xs" "c_fd c = fd" "fd \<notin> set (map c_fd xs)"
proof -
  let ?n = "slot_of fd cs"
  have "c_fd (cs ! ?n) = fd"
    using assms nth_length_takeWhile [of "\<lambda>c. c_fd c \<noteq> fd" cs] by (simp add: slot_of_def)
  moreover have "take ?n cs = takeWhile (\<lambda>c. c_fd c \<noteq> fd) cs"
    by (simp add: slot_of_def takeWhile_eq_take [symmetric])
  then have "fd \<notin> set (map c_fd (take ?n cs))" by (auto dest: set_takeWhileD)
  ultimately show ?thesis
    using id_take_nth_drop [OF assms] assms that [of "take ?n cs" "cs ! ?n" "drop (Suc ?n) cs"] by simp
qed

lemma slot_of_absent: "\<not> slot_of fd cs < length cs \<Longrightarrow> fd \<notin> set (map c_fd cs)"
  by (induction cs) (auto simp: slot_of_def split: if_splits)

lemma connection_read_frame:
  "connection_read call rs c s = Some (c', s') \<Longrightarrow> c' = c\<lparr>c_rd := 0, c_wr := 0\<rparr>"
  by (auto simp: connection_read_def Let_def bind_Some_conv)

lemma read_cb_slot:
  assumes "read_cb call rs error readable received c s = Some (r, s')" and "slot_ok c"
  shows "\<exists>c'. r = Some c' \<and> slot_ok c'
    \<and> c_fd c' = (if \<not> error \<and> readable \<and> received = [] then - 1 else c_fd c)
    \<and> c_reading c' = (c_reading c \<and> \<not> (\<not> error \<and> readable \<and> received = []))"
  using assms by (auto simp: read_cb_def slot_ok_def connection_close_def Let_def dest!: connection_read_frame split: if_splits)

lemma fire_slot:
  assumes "fire call j error readable received nc s = Some (nc', s')" and "slots_ok (conn nc)"
    and cs: "conn nc = xs @ c # ys" "j = length xs" and "c_reading c"
  shows "\<exists>c'. conn nc' = xs @ c' # ys \<and> slot_ok c' \<and> c_fd c' = (if \<not> error \<and> readable \<and> received = [] then - 1 else c_fd c)
    \<and> (c_reading c' \<longleftrightarrow> \<not> error \<and> \<not> (readable \<and> received = []))"
proof -
  have c: "slot_ok (if error then c\<lparr>c_reading := False\<rparr> else c)" using assms(2) cs(1) by (simp add: slots_ok_def slot_ok_def)
  have nth: "conn nc ! j = c" by (simp add: cs)
  from assms(1) obtain r where r: "read_cb call (reg nc) error readable received (if error then c\<lparr>c_reading := False\<rparr> else c) s = Some (r, s')"
    and nc': "nc' = (case r of Some c \<Rightarrow> nc\<lparr>conn := (conn nc)[j := c]\<rparr> | None \<Rightarrow> nc)"
    by (auto simp: fire_def nth Let_def bind_Some_conv)
  from read_cb_slot [OF r c] assms(5) nc' cs show ?thesis by (auto split: if_splits)
qed

lemma net_step_refines:
  assumes "net_step call e nc s = Some (nc', s')" and "slots_ok (conn nc)" "0 \<notin> set (fds (conn nc))" and "sane_event e"
  shows "slots_ok (conn nc') \<and> 0 \<notin> set (fds (conn nc')) \<and> registered nc' = abs_step e (registered nc)"
proof (cases e)
  case (Resync alloc fd)
  with assms(1) obtain r cs where r: "netcon_resync alloc fd (conn nc) = Some (r, cs)" "conn nc' = cs"
    by (auto simp: resync_timer_cb_def)
  show ?thesis
  proof (cases "fd < 0")
    case True
    with resync_drops [OF True assms(2,3)] r Resync show ?thesis by (simp add: registered_def)
  next
    case False
    then have "r = 0" using r(1) Resync assms(4) by (auto simp: netcon_resync_def split: if_splits)
    with resync_adds [OF r(1)] False assms Resync r(2) show ?thesis by (auto simp: registered_def)
  qed
next
  case (Readable fd error readable received)
  show ?thesis
  proof (cases "slot_of fd (conn nc) < length (conn nc)")
    case False
    then have "fd \<notin> set (map c_fd (conn nc))" by (rule slot_of_absent)
    then have "fd \<notin> set (fds (conn nc))" by (simp add: fds_def)
    then have "fd \<notin> set (watched (conn nc))" using watched_fds by blast
    with False Readable assms show ?thesis by (auto simp: registered_def)
  next
    case True
    then obtain xs c ys where cs: "conn nc = xs @ c # ys" "slot_of fd (conn nc) = length xs" "c_fd c = fd"
      by (rule slot_of_split)
    have nth: "conn nc ! slot_of fd (conn nc) = c" by (simp add: cs(2)) (simp add: cs(1))
    have d: "fd \<notin> set (fds xs)" "fd \<notin> set (fds ys)" "0 < fd"
      using assms(2,4) cs(1,3) Readable by (auto simp: slots_ok_def fds_append fds_Cons)
    then have w: "fd \<notin> set (watched xs)" "fd \<notin> set (watched ys)" using watched_fds by blast+
    show ?thesis
    proof (cases "c_reading c")
      case False
      with w Readable assms True nth cs d show ?thesis by (auto simp: registered_def slot_lists)
    next
      case reading: True
      then have f: "fire call (length xs) error readable received nc s = Some (nc', s')"
        using assms(1) True nth Readable cs(2) by simp
      obtain c' where c': "conn nc' = xs @ c' # ys" "slot_ok c'" "c_fd c' = (if \<not> error \<and> readable \<and> received = [] then - 1 else fd)"
          "c_reading c' \<longleftrightarrow> \<not> error \<and> \<not> (readable \<and> received = [])"
        using fire_slot [OF f assms(2) cs(1) refl reading] cs(3) by auto
      with assms(2,3) cs(1,3) d w reading Readable show ?thesis
        by (auto simp: registered_def slots_ok_def slot_lists)
    qed
  qed
next
  case (Stale j error)
  show ?thesis
  proof (cases "j < length (conn nc) \<and> c_reading (conn nc ! j) \<and> c_fd (conn nc ! j) = - 1")
    case False
    with assms Stale show ?thesis by (auto simp: registered_def)
  next
    case True
    then have cs: "conn nc = take j (conn nc) @ conn nc ! j # drop (Suc j) (conn nc)" "j = length (take j (conn nc))"
      by (simp_all add: id_take_nth_drop)
    have f: "fire call j error True [] nc s = Some (nc', s')" using assms(1) Stale True by simp
    obtain c' where c': "conn nc' = take j (conn nc) @ c' # drop (Suc j) (conn nc)" "slot_ok c'" "c_fd c' = - 1" "\<not> c_reading c'"
      using fire_slot [OF f assms(2) cs] True by auto
    have "fds (conn nc') = fds (conn nc)" "watched (conn nc') = watched (conn nc)"
      using True by (simp_all add: c' slot_lists) (subst (3) cs(1), simp add: slot_lists)+
    moreover have "\<forall>c \<in> set (conn nc'). slot_ok c"
      using assms(2) c'(1,2) by (auto simp: slots_ok_def dest: in_set_takeD in_set_dropD)
    ultimately show ?thesis using assms(2,3) Stale by (simp add: slots_ok_def registered_def)
  qed
qed

text \<open>When a step cannot go on: a resync only at a watcher that was never stopped, a hang-up, an error
  and a stale watcher never.\<close>

lemma resync_fails:
  assumes "slots_ok (conn nc)"
  shows "net_step call (Resync True fd) nc s = None \<longleftrightarrow> 0 \<le> fd \<and> fd \<notin> set (fds (conn nc)) \<and> blocked (conn nc)"
proof -
  have "free_slot (conn nc) \<le> length (conn nc)" using length_takeWhile_le by (simp add: free_slot_def)
  moreover have "0 \<le> fd \<Longrightarrow> (\<exists>c \<in> set (conn nc). c_fd c = fd) \<longleftrightarrow> fd \<in> set (fds (conn nc))" by (auto simp: fds_def)
  ultimately show ?thesis
    by (auto simp: resync_timer_cb_def netcon_resync_def start_sync_def calloc_connection_def blocked_def)
qed

lemma fire_defined:
  assumes "slots_ok (conn nc)" "j < length (conn nc)"
  shows "fire call j error readable [] nc s \<noteq> None"
proof -
  have "c_wr (conn nc ! j) = 0" using assms by (simp add: slots_ok_def slot_ok_def)
  then show ?thesis by (simp add: fire_def read_cb_def Let_def)
qed

lemma closing_defined:
  assumes "slots_ok (conn nc)"
  shows "net_step call (Stale j error) nc s \<noteq> None" "net_step call (Readable fd error readable []) nc s \<noteq> None"
  using fire_defined [OF assms, of _ call] by (simp_all add: Let_def)

section \<open>Commands keep what they must\<close>

text \<open>
  What the console asks of the commands it calls: an invariant of the rest of the program. The
  console then keeps it, whatever arrives.
\<close>

locale command_callbacks =
  fixes call :: "'c \<Rightarrow> string \<Rightarrow> 's \<Rightarrow> (int \<times> 's) option" and inv :: "'s \<Rightarrow> bool"
  assumes call_inv: "call c msg s = Some (r, s') \<Longrightarrow> inv s \<Longrightarrow> inv s'"
begin

lemma run_registry_inv: "run_registry call rs msg res s = Some (r, s') \<Longrightarrow> inv s \<Longrightarrow> inv s'"
  by (induction rs arbitrary: res s) (auto simp: bind_Some_conv split: if_splits dest: call_inv)

lemma connection_read_inv: "connection_read call rs c s = Some (c', s') \<Longrightarrow> inv s \<Longrightarrow> inv s'"
  by (auto simp: connection_read_def Let_def bind_Some_conv dest: run_registry_inv)

lemma net_step_inv: "net_step call e nc s = Some (nc', s') \<Longrightarrow> inv s \<Longrightarrow> inv s'"
  by (cases e) (auto simp: Let_def bind_Some_conv fire_def read_cb_def split: if_splits dest: connection_read_inv)

lemma net_run_inv: "net_run call es nc s = Some (nc', s') \<Longrightarrow> inv s \<Longrightarrow> inv s'"
  by (induction es arbitrary: nc s) (auto simp: bind_Some_conv dest: net_step_inv)

end

section \<open>Properties\<close>

lemma net_run_refines:
  "net_run call es nc s = Some (nc', s') \<Longrightarrow> slots_ok (conn nc) \<Longrightarrow> 0 \<notin> set (fds (conn nc)) \<Longrightarrow> \<forall>e \<in> set es. sane_event e \<Longrightarrow>
     slots_ok (conn nc') \<and> registered nc' = fold abs_step es (registered nc)"
proof (induction es arbitrary: nc s)
  case (Cons e es)
  then obtain nc1 s1 where one: "net_step call e nc s = Some (nc1, s1)" and rest: "net_run call es nc1 s1 = Some (nc', s')"
    by (auto simp: bind_Some_conv)
  have step: "slots_ok (conn nc1) \<and> 0 \<notin> set (fds (conn nc1)) \<and> registered nc1 = abs_step e (registered nc)"
    by (rule net_step_refines [OF one Cons.prems(2,3)]) (use Cons.prems(4) in simp)
  then have inv: "slots_ok (conn nc1)" "0 \<notin> set (fds (conn nc1))" by blast+
  have "\<forall>e \<in> set es. sane_event e" using Cons.prems(4) by simp
  from Cons.IH [OF rest inv this] step show ?case by simp
qed simp

lemma calloc_simps:
  "c_reading calloc_connection = False" "c_fd calloc_connection = 0" "c_sync calloc_connection = False" "c_wr calloc_connection = 0"
  by (simp_all add: calloc_connection_def)

text \<open>Without registered commands, nothing that arrives has an effect.\<close>

lemma connection_read_idle: "connection_read call [] c s = Some (c', s') \<Longrightarrow> s' = s"
  by (auto simp: connection_read_def Let_def bind_Some_conv)

lemma net_step_idle: "net_step call e nc s = Some (nc', s') \<Longrightarrow> reg nc = [] \<Longrightarrow> reg nc' = [] \<and> s' = s"
  by (cases e) (auto simp: Let_def bind_Some_conv fire_def read_cb_def resync_timer_cb_def split: if_splits option.splits
      dest: connection_read_idle)

lemma net_run_idle: "net_run call es nc s = Some (nc', s') \<Longrightarrow> reg nc = [] \<Longrightarrow> s' = s"
  by (induction es arbitrary: nc s) (auto simp: bind_Some_conv dest!: net_step_idle)

text \<open>C12: The connection slots implement a set of descriptors with a subset that is watched: after every
  run of resynchronisations, reads, errors and stale watchers from the initial state, the slots
  hold what the abstract machine holds (a resync adds its descriptor, a lost collector empties the
  set, a hang-up removes one descriptor, an error ends the watching of one), and no descriptor has two
  slots. In every state so reached a resync goes on unless its descriptor is new and the first free
  slot still has the active watcher of a lost connection, which is exactly when libev's contract
  would be broken; hang-ups, errors and the events of such watchers, which free their slots,
  always go on. Only messages may fail otherwise (an empty line, or a command). Memory suffices and
  0 is no descriptor of a connection.\<close>

theorem netcon_refines_set:
  assumes "net_run call es (fst (netcon_init nc0)) s = Some (nc, s')" and "\<forall>e \<in> set es. sane_event e"
  shows "registered nc = fold abs_step es ({}, {}) \<and> distinct (fds (conn nc))
    \<and> (\<forall>fd. net_step call (Resync True fd) nc s' = None \<longleftrightarrow> 0 \<le> fd \<and> fd \<notin> fst (registered nc) \<and> blocked (conn nc))
    \<and> (\<forall>j error. net_step call (Stale j error) nc s' \<noteq> None)
    \<and> (\<forall>fd error readable. net_step call (Readable fd error readable []) nc s' \<noteq> None)"
proof -
  have ok: "slots_ok (conn nc)" "registered nc = fold abs_step es ({}, {})"
    using net_run_refines [OF assms(1) _ _ assms(2)] by (simp_all add: netcon_init_def slots_ok_def registered_def)
  moreover have "set (fds (conn nc)) = fst (registered nc)" "distinct (fds (conn nc))"
    using ok(1) by (simp_all add: registered_def slots_ok_def)
  ultimately show ?thesis
    using resync_fails [OF ok(1), where call = call and s = s'] closing_defined [OF ok(1), where call = call and s = s']
    by (simp del: net_step.simps not_None_eq)
qed

text \<open>A collector is lost and comes back: the watcher of the lost connection fires in between.\<close>

theorem netcon_refines_set_witness:
  "\<exists>nc. net_run (\<lambda>(c :: nat) msg n. Some (1, n)) [Resync True 5, Resync True (- 1), Stale 0 False, Resync True 9]
      (fst (netcon_init \<lparr>reg = [], conn = []\<rparr>)) (0 :: nat) = Some (nc, 0) \<and> registered nc = ({9}, {9})"
proof -
  let ?c = "\<lambda>(c :: nat) msg n. Some (1, n)" and ?es = "[Resync True 5, Resync True (- 1), Stale 0 False, Resync True 9]"
  let ?on = "\<lambda>fd. calloc_connection\<lparr>c_fd := fd, c_sync := True, c_reading := True\<rparr>"
  let ?off = "calloc_connection\<lparr>c_fd := - 1, c_sync := True, c_reading := False\<rparr>"
  have one: "netcon_resync True 5 [] = Some (0, [?on 5])" and two: "netcon_resync True (- 1) [?on 5] = Some (0, [?on (- 1)])"
    and four: "netcon_resync True 9 [?off] = Some (0, [?on 9])"
    by (simp_all add: netcon_resync_def free_slot_def start_sync_def drop_connection_def calloc_simps)
  have three: "read_cb ?c [] False True [] (?on (- 1)) 0 = Some (Some ?off, 0)"
    by (simp add: read_cb_def connection_close_def calloc_simps)
  have "net_run ?c ?es (fst (netcon_init \<lparr>reg = [], conn = []\<rparr>)) 0 = Some (\<lparr>reg = [], conn = [?on 9]\<rparr>, 0)"
    by (simp add: netcon_init_def resync_timer_cb_def fire_def one two three four)
  from this netcon_refines_set [OF this] show ?thesis by auto
qed

text \<open>When the collector was lost and its descriptor dropped, the next descriptor reuses a slot whose
  read watcher was never stopped, unless that watcher has fired in between: the console
  initialises an active watcher.\<close>

theorem lost_collector_watcher:
  assumes "0 < fd" "lost < 0" "0 \<le> fd'"
  shows "net_run call [Resync True fd, Resync True lost, Resync True fd'] (fst (netcon_init nc0)) s = None"
  using assms by (simp add: netcon_init_def resync_timer_cb_def netcon_resync_def free_slot_def start_sync_def
      drop_connection_def calloc_connection_def)

theorem lost_collector_watcher_witness:
  "net_run (\<lambda>(c :: nat) msg s. Some (1, s)) [Resync True 5, Resync True (- 1), Resync True 5]
     (fst (netcon_init \<lparr>reg = [0], conn = []\<rparr>)) () = None"
  by (rule lost_collector_watcher) simp_all

text \<open>After an error on the descriptor of the collector its connection is never read again: libev has
  stopped the watcher, the callback returns, and every resynchronisation finds the descriptor
  registered.\<close>

theorem error_ends_reading:
  assumes "net_run call ([Resync True fd, Readable fd True readable received] @ replicate n (Resync True fd)) (fst (netcon_init nc0)) s
      = Some (nc, s')" "0 < fd"
  shows "registered nc = ({fd}, {})"
proof -
  have "fold abs_step (replicate n (Resync True fd)) ({fd}, {}) = ({fd}, {})"
    using assms(2) by (induction n) simp_all
  with net_run_refines [OF assms(1)] assms(2) show ?thesis by (simp add: netcon_init_def slots_ok_def registered_def)
qed

lemma run_registry_matched: "run_registry call rs msg NETCON_CMD_MATCHED s = Some (NETCON_CMD_MATCHED, s)"
  by (cases rs) simp_all

text \<open>A line that arrives on a connection is handed to the registered commands without its
  line end, and the commands behind the one that takes it are not called.\<close>

theorem console_line_delivered:
  assumes "console_line body eol" and "slot_ok c" and "call cmd (line_array body eol) s = Some (NETCON_CMD_MATCHED, s')"
  shows "cstr (line_array body eol) = body
    \<and> (\<exists>c'. read_cb call (cmd # cmds) False True (body @ eol) c s = Some (Some c', s') \<and> slot_ok c' \<and> c_fd c' = c_fd c)"
proof -
  let ?c = "c\<lparr>c_in := body @ eol @ drop (length (body @ eol)) (c_in c), c_wr := length (body @ eol)\<rparr>"
  have "connection_read call (cmd # cmds) ?c s = Some (?c\<lparr>c_rd := 0, c_wr := 0\<rparr>, s')"
    by (subst connection_read_line [where body = body and eol = eol])
      (use assms in \<open>simp_all add: slot_ok_def console_line_def run_registry_matched\<close>)
  moreover have "body \<noteq> []" "length (body @ eol) \<le> BUFFER_SIZE" "NUL \<notin> set body"
    using assms(1) by (auto simp: console_line_def)
  ultimately show ?thesis using assms(2) by (simp add: read_cb_def slot_ok_def cstr_line_array)
qed

theorem console_line_delivered_witness:
  "\<exists>c'. read_cb (\<lambda>(c :: nat) msg s. Some (1, s @ [cstr msg])) [0] False True [CHR ''-'', CHR ''h'', CHR 0x0D, CHR 0x0A]
     (calloc_connection\<lparr>c_sync := True\<rparr>) [] = Some (Some c', [''-h''])"
proof -
  have line: "console_line ''-h'' [CHR 0x0D, CHR 0x0A]" by (simp add: console_line_def c_iscntrl_def)
  have slot: "slot_ok (calloc_connection\<lparr>c_sync := True\<rparr>)" by (simp add: slot_ok_def calloc_connection_def)
  have call: "(\<lambda>(c :: nat) msg s. Some (1, s @ [cstr msg])) 0 (line_array ''-h'' [CHR 0x0D, CHR 0x0A]) [] = Some (1, [''-h''])"
    by (simp add: cstr_line_array)
  from console_line_delivered [where cmds = "[]" and call = "\<lambda>(c :: nat) msg s. Some (1, s @ [cstr msg])", OF line slot call]
  show ?thesis by auto
qed

text \<open>A line of control characters only, such as an empty line, makes the console read in
  front of its message array.\<close>

theorem console_blank_line:
  assumes "slot_ok c" and "received \<noteq> []" "length received \<le> BUFFER_SIZE" "\<And>x. x \<in> set received \<Longrightarrow> c_iscntrl x"
  shows "read_cb call rs False True received c s = None"
proof -
  let ?c = "c\<lparr>c_in := received @ drop (length received) (c_in c), c_wr := length received\<rparr>"
  have "strip_control (strncpy_array (c_in ?c) (length received) @ [NUL]) (length received) = None"
    by (rule strip_control_blank)
      (use assms(4) in \<open>auto simp: strncpy_array_def Let_def NUL_cntrl dest!: set_takeWhileD in_set_takeD\<close>)
  then show ?thesis using assms by (simp add: read_cb_def connection_read_def slot_ok_def)
qed

theorem console_blank_line_witness:
  "read_cb (\<lambda>(c :: nat) msg s. Some (1, s)) [0] False True [CHR 0x0A] (calloc_connection\<lparr>c_sync := True\<rparr>) () = None"
  by (rule console_blank_line) (simp_all add: slot_ok_def calloc_connection_def c_iscntrl_def)

end
