(* ===== verification/Data_Model.thy ===== *)
theory Data_Model
  imports Prelude
begin

text \<open>
  The data types of \<^verbatim>\<open>include/constants.h\<close> and \<^verbatim>\<open>include/settings.h\<close>: buffers and
  packets over byte memory, protocol layers, devices and the option table. Function
  pointers (\<^verbatim>\<open>hashFunction\<close>, \<^verbatim>\<open>selectionFunction\<close>) are the tags of the functions the code
  assigns to them.
\<close>

section \<open>Buffers and packets\<close>

text \<open>
  \<^verbatim>\<open>buffer_t\<close>: \<open>b_mem\<close> is the object \<^verbatim>\<open>ptr\<close> points to, \<open>b_len\<close> the bytes used,
  \<open>b_size\<close> the size the code believes it has.
\<close>

record buffer =
  b_mem :: "byte list"
  b_len :: u32
  b_size :: u32

definition buffer_ok :: "buffer \<Rightarrow> bool" where
  "buffer_ok b \<longleftrightarrow> length (b_mem b) = unat (b_size b) \<and> unat (b_len b) \<le> unat (b_size b)"

definition content :: "buffer \<Rightarrow> byte list" where
  "content b = take (unat (b_len b)) (b_mem b)"

text \<open>
  \<^verbatim>\<open>packet_t\<close>: the pointer is an object (\<open>p_mem\<close>, the capture buffer) and an offset into
  it, because \<^verbatim>\<open>apply_offset\<close> and the decoders advance it. \<open>pview\<close> is the memory from the
  pointer on.
\<close>

record packet =
  p_mem :: "byte list"
  p_ptr :: nat
  p_len :: u32

definition pview :: "packet \<Rightarrow> byte list" where
  "pview p = drop (p_ptr p) (p_mem p)"

section \<open>Protocol layers\<close>

text \<open>The arrays \<^verbatim>\<open>headerOffset[4]\<close> and \<^verbatim>\<open>layers[4]\<close>, indexed by \<^verbatim>\<open>OSIlayer_t\<close>.\<close>

record offsets =
  L_LINK :: u32
  L_NET :: u32
  L_TRANS :: u32
  L_PAYLOAD :: u32

record layers =
  lay_link :: byte
  lay_net :: byte
  lay_trans :: byte
  lay_payload :: byte

definition no_offsets :: offsets where
  "no_offsets = \<lparr>L_LINK = 0, L_NET = 0, L_TRANS = 0, L_PAYLOAD = 0\<rparr>"

definition no_layers :: layers where
  "no_layers = \<lparr>lay_link = 0, lay_net = 0, lay_trans = 0, lay_payload = 0\<rparr>"

abbreviation (input) N_UNKNOWN :: byte where "N_UNKNOWN \<equiv> 0"
abbreviation (input) N_IP :: byte where "N_IP \<equiv> 4"
abbreviation (input) N_IP6 :: byte where "N_IP6 \<equiv> 6"

abbreviation (input) T_UNKNOWN :: byte where "T_UNKNOWN \<equiv> 0"
abbreviation (input) T_ICMP :: byte where "T_ICMP \<equiv> 1"
abbreviation (input) T_TCP :: byte where "T_TCP \<equiv> 6"
abbreviation (input) T_UDP :: byte where "T_UDP \<equiv> 17"
abbreviation (input) T_ICMP6 :: byte where "T_ICMP6 \<equiv> 58"
abbreviation (input) T_SCTP :: byte where "T_SCTP \<equiv> 132"

section \<open>Selection ranges, hash and selection functions\<close>

record range_select =
  rs_offset :: int
  rs_length :: int

datatype hash_fn = BOB | TWMX | HSIEH | OAAT

datatype sel_fn =
    Sel_Rec | Sel_Only_Net | Sel_U_TCP_and_Net | Sel_Packet
  | Sel_Raw | Sel_Last | Sel_Link | Sel_Net | Sel_Trans | Sel_Payload

section \<open>Devices\<close>

datatype device_type =
    TYPE_UNKNOWN | TYPE_PCAP | TYPE_PCAP_FILE | TYPE_SOCKET_UNIX | TYPE_SOCKET_INET
  | TYPE_FILE | TYPE_testtype

text \<open>The link types of libpcap that the source names (\<^verbatim>\<open>DLT_EN10MB\<close> and so on).\<close>

datatype dlt = DLT_EN10MB | DLT_ATM_RFC1483 | DLT_LINUX_SLL | DLT_RAW | DLT_other int

record device =
  device_type :: device_type
  device_name :: string
  IPv4address :: u32
  link_type :: dlt
  template_id :: u32
  pkt_offset :: u32
  hash_buffer :: buffer
  dev_export_packet_count :: u32
  totalpacketcount :: u64
  packets_dropped :: u32
  sampling_size :: u32
  sampling_delta_count :: u64

text \<open>\<^verbatim>\<open>device_dev_t if_devices[MAX_INTERFACES]\<close> is static storage, hence all zero.\<close>

definition zero_device :: device where
  "zero_device = \<lparr>device_type = TYPE_UNKNOWN, device_name = '''', IPv4address = 0, link_type = DLT_other 0,
     template_id = 0, pkt_offset = 0, hash_buffer = \<lparr>b_mem = [], b_len = 0, b_size = 0\<rparr>,
     dev_export_packet_count = 0, totalpacketcount = 0, packets_dropped = 0,
     sampling_size = 0, sampling_delta_count = 0\<rparr>"

abbreviation (input) MAX_INTERFACES :: nat where "MAX_INTERFACES \<equiv> 10"

section \<open>Options\<close>

text \<open>
  \<^verbatim>\<open>options_t\<close>. A \<^verbatim>\<open>double\<close> of the table is a rational number (every finite double is one).
\<close>

record options =
  number_interfaces :: byte
  templateID :: u32
  opt_offset :: u32
  collectorIP :: string
  collectorPort :: int
  bpf :: "string option"
  ai_family :: int
  observationDomainID :: u32
  ipAddress :: u32
  hash_function :: hash_fn
  pktid_function :: "hash_fn option"
  selection_function :: sel_fn
  sel_range_min :: u32
  sel_range_max :: u32
  snapLength :: u16
  verbosity :: byte
  verbosity_filter_string :: string
  export_packet_count :: u32
  s_latitude :: string
  s_longitude :: string
  s_probe_name :: "string option"
  s_location_name :: string
  export_pktid_interval :: rat
  export_sampling_interval :: rat
  export_stats_interval :: rat
  export_location_interval :: rat
  hashAsPacketID :: int
  use_oid_first_interface :: int

end
