(* ===== verification/Selection.thy ===== *)
theory Selection
  imports Data_Model C_Strings
begin

text \<open>
  Selecting the hash input (\<^verbatim>\<open>src/hash.c\<close>, lines 58 to 470): the functions that copy
  header fields or configured ranges of a packet into the hash buffer, and the parser of the
  range list. The current list (\<^verbatim>\<open>rSel\<close>) is an argument; it is never empty.
\<close>

section \<open>Fixed fields\<close>

text \<open>\<open>hash_min\<close> compares after C's usual conversions; here both operands are unsigned.\<close>

definition hash_min_u :: "u32 \<Rightarrow> u32 \<Rightarrow> u32" where
  "hash_min_u x y = (if x < y then x else y)"

text \<open>\<^verbatim>\<open>-1\<close> marks a layer that was not found.\<close>

abbreviation (input) no_offset :: u32 where "no_offset \<equiv> - 1"

definition append_packet :: "buffer \<Rightarrow> byte list \<Rightarrow> nat \<Rightarrow> u32 \<Rightarrow> buffer option" where
  "append_packet b p off count = do {
     bs \<leftarrow> rd_slice p off (unat count);
     m \<leftarrow> wr_slice (b_mem b) (unat (b_len b)) bs;
     Some (b\<lparr>b_mem := m, b_len := b_len b + count\<rparr>) }"

definition copy_NetFields :: "packet \<Rightarrow> buffer \<Rightarrow> offsets \<Rightarrow> layers \<Rightarrow> buffer option" where
  "copy_NetFields packet b headerOffset layers = (let p = pview packet; net = unat (L_NET headerOffset) in do {
     b \<leftarrow> (if lay_net layers = N_IP then do {
             b \<leftarrow> append_packet b p net 8;
             b \<leftarrow> append_packet b p (net + 9) 1;
             append_packet b p (net + 12) 8 }
           else Some b);
     if lay_net layers = N_IP6 then do {
       b \<leftarrow> append_packet b p net 7;
       append_packet b p (net + 8) 32 }
     else Some b })"

definition copyFields_Rec :: "packet \<Rightarrow> buffer \<Rightarrow> offsets \<Rightarrow> layers \<Rightarrow> buffer option" where
  "copyFields_Rec packet b headerOffset layers =
     (let p = pview packet; net = unat (L_NET headerOffset); tr = unat (L_TRANS headerOffset) in
      if L_TRANS headerOffset \<noteq> no_offset \<and> lay_trans layers \<noteq> T_UNKNOWN then
        if lay_net layers = N_IP then do {
          b \<leftarrow> append_packet b p (net + 4) 2;
          b \<leftarrow> (if lay_trans layers = T_TCP then do {
                  b \<leftarrow> append_packet b p (tr + 6) 2;
                  b \<leftarrow> append_packet b p (tr + 10) 2;
                  append_packet b p (tr + 16) 2 }
                else Some b);
          b \<leftarrow> (if lay_trans layers = T_UDP then do {
                  b \<leftarrow> append_packet b p tr 2;
                  b \<leftarrow> append_packet b p (tr + 3) 1;
                  append_packet b p (tr + 5) 3 }
                else Some b);
          if lay_trans layers = T_ICMP \<or> lay_trans layers = T_ICMP6 then do {
            b \<leftarrow> append_packet b p (tr + 2) 2;
            append_packet b p (tr + 12) 4 }
          else Some b }
        else Some b
      else Some b)"

definition copyFields_Only_Net :: "packet \<Rightarrow> buffer \<Rightarrow> offsets \<Rightarrow> layers \<Rightarrow> buffer option" where
  "copyFields_Only_Net packet b headerOffset layers = copy_NetFields packet b headerOffset layers"

definition copyFields_U_TCP_and_Net :: "packet \<Rightarrow> buffer \<Rightarrow> offsets \<Rightarrow> layers \<Rightarrow> buffer option" where
  "copyFields_U_TCP_and_Net packet b headerOffset layers =
     (let p = pview packet; tr = L_TRANS headerOffset in do {
       b \<leftarrow> copy_NetFields packet b headerOffset layers;
       if tr \<noteq> no_offset \<and> lay_trans layers \<noteq> T_UNKNOWN then do {
         b \<leftarrow> (if lay_trans layers = T_TCP \<or> lay_trans layers = T_ICMP \<or> lay_trans layers = T_ICMP6
               then append_packet b p (unat tr) (hash_min_u 20 (p_len packet - tr))
               else Some b);
         if lay_trans layers = T_UDP
         then append_packet b p (unat tr) (hash_min_u 8 (p_len packet - tr))
         else Some b }
       else Some (b\<lparr>b_len := 0\<rparr>) })"

definition copyFields_Packet :: "packet \<Rightarrow> buffer \<Rightarrow> offsets \<Rightarrow> layers \<Rightarrow> buffer option" where
  "copyFields_Packet packet b headerOffset layers = do {
     b \<leftarrow> copy_NetFields packet b headerOffset layers;
     append_packet b (pview packet) (unat (L_NET headerOffset) + 20)
       (hash_min_u (p_len packet - 20) 50) }"

section \<open>Configured ranges\<close>

text \<open>
  The state of the copy loops: the output object, the bytes written and the room left. A
  negative length would become a huge \<^verbatim>\<open>size_t\<close>, a negative offset points before the
  packet: both fault.
\<close>

type_synonym copy_state = "byte list \<times> u32 \<times> u16"

definition copy_out :: "byte list \<Rightarrow> int \<Rightarrow> int \<Rightarrow> copy_state \<Rightarrow> copy_state option" where
  "copy_out p off n st = (case st of (b, written, bLen) \<Rightarrow>
     if n < 0 \<or> off < 0 then None
     else do {
       bs \<leftarrow> rd_slice p (nat off) (nat n);
       b \<leftarrow> wr_slice b (unat written) bs;
       Some (b, written + word_of_int n, bLen - word_of_int n) })"

text \<open>How many bytes of a range are copied when \<open>avail\<close> of the packet are at its offset.\<close>

definition clip_write :: "range_select \<Rightarrow> int \<Rightarrow> u16 \<Rightarrow> int" where
  "clip_write r avail bLen =
     (let write = (if rs_length r = 0 then avail else min avail (rs_length r))
      in min write (uint bLen))"

fun select_loop :: "range_select list \<Rightarrow> byte list \<Rightarrow> u16 \<Rightarrow> copy_state \<Rightarrow> (byte list \<times> u32) option" where
  "select_loop [] p pl (b, written, bLen) = Some (b, written)"
| "select_loop (r # rs) p pl (b, written, bLen) =
     (let write = wrap_int (uint pl - rs_offset r) in do {
       (b, written, bLen) \<leftarrow>
         (if 0 < write
          then copy_out p (rs_offset r) (clip_write r write bLen) (b, written, bLen)
          else Some (b, written, bLen));
       if 0 < bLen then select_loop rs p pl (b, written, bLen) else Some (b, written) })"

definition copyFields_Select :: "range_select list \<Rightarrow> byte list \<Rightarrow> u16 \<Rightarrow> byte list \<Rightarrow> u16 \<Rightarrow>
    (byte list \<times> u32) option" where
  "copyFields_Select rSel p packetLength b bLen = select_loop rSel p packetLength (b, 0, bLen)"

fun select_reverse_loop :: "range_select list \<Rightarrow> byte list \<Rightarrow> u16 \<Rightarrow> copy_state \<Rightarrow> (byte list \<times> u32) option" where
  "select_reverse_loop [] p pl (b, written, bLen) = Some (b, written)"
| "select_reverse_loop (r # rs) p pl (b, written, bLen) =
     (let write = rs_offset r in do {
       (b, written, bLen) \<leftarrow>
         (if \<not> uint pl < write
          then copy_out p (uint pl - rs_offset r) (clip_write r write bLen) (b, written, bLen)
          else Some (b, written, bLen));
       if 0 < bLen then select_reverse_loop rs p pl (b, written, bLen) else Some (b, written) })"

definition copyFields_Select_reverse :: "range_select list \<Rightarrow> byte list \<Rightarrow> u16 \<Rightarrow> byte list \<Rightarrow> u16 \<Rightarrow>
    (byte list \<times> u32) option" where
  "copyFields_Select_reverse rSel p packetLength b bLen =
     select_reverse_loop rSel p packetLength (b, 0, bLen)"

text \<open>The wrappers pass 32-bit lengths as \<^verbatim>\<open>uint16_t\<close> and store the number of bytes written.\<close>

definition select_from :: "range_select list \<Rightarrow> byte list \<Rightarrow> u32 \<Rightarrow> buffer \<Rightarrow> buffer option" where
  "select_from rSel p len b = do {
     (m, written) \<leftarrow> copyFields_Select rSel p (ucast len) (b_mem b) (ucast (b_size b));
     Some (b\<lparr>b_mem := m, b_len := written\<rparr>) }"

definition copyFields_Last :: "range_select list \<Rightarrow> packet \<Rightarrow> buffer \<Rightarrow> offsets \<Rightarrow> layers \<Rightarrow> buffer option" where
  "copyFields_Last rSel packet b headerOffset layers = do {
     (m, written) \<leftarrow> copyFields_Select_reverse rSel (pview packet) (ucast (p_len packet))
                       (b_mem b) (ucast (b_size b));
     Some (b\<lparr>b_mem := m, b_len := written\<rparr>) }"

definition copyFields_Raw :: "range_select list \<Rightarrow> packet \<Rightarrow> buffer \<Rightarrow> offsets \<Rightarrow> layers \<Rightarrow> buffer option" where
  "copyFields_Raw rSel packet b headerOffset layers =
     select_from rSel (pview packet) (p_len packet) b"

text \<open>The four layer functions differ in the offset they use.\<close>

definition select_layer :: "range_select list \<Rightarrow> packet \<Rightarrow> buffer \<Rightarrow> u32 \<Rightarrow> buffer option" where
  "select_layer rSel packet b off =
     (if off = no_offset then Some b
      else select_from rSel (drop (unat off) (pview packet)) (p_len packet - off) b)"

definition copyFields_Link :: "range_select list \<Rightarrow> packet \<Rightarrow> buffer \<Rightarrow> offsets \<Rightarrow> layers \<Rightarrow> buffer option" where
  "copyFields_Link rSel packet b headerOffset layers = select_layer rSel packet b (L_LINK headerOffset)"

definition copyFields_Net :: "range_select list \<Rightarrow> packet \<Rightarrow> buffer \<Rightarrow> offsets \<Rightarrow> layers \<Rightarrow> buffer option" where
  "copyFields_Net rSel packet b headerOffset layers = select_layer rSel packet b (L_NET headerOffset)"

definition copyFields_Trans :: "range_select list \<Rightarrow> packet \<Rightarrow> buffer \<Rightarrow> offsets \<Rightarrow> layers \<Rightarrow> buffer option" where
  "copyFields_Trans rSel packet b headerOffset layers = select_layer rSel packet b (L_TRANS headerOffset)"

definition copyFields_Payload :: "range_select list \<Rightarrow> packet \<Rightarrow> buffer \<Rightarrow> offsets \<Rightarrow> layers \<Rightarrow> buffer option" where
  "copyFields_Payload rSel packet b headerOffset layers = select_layer rSel packet b (L_PAYLOAD headerOffset)"

text \<open>A call through a \<^verbatim>\<open>selectionFunction\<close> pointer.\<close>

fun call_selection :: "sel_fn \<Rightarrow> range_select list \<Rightarrow> packet \<Rightarrow> buffer \<Rightarrow> offsets \<Rightarrow> layers \<Rightarrow> buffer option" where
  "call_selection Sel_Rec rs p b h l = copyFields_Rec p b h l"
| "call_selection Sel_Only_Net rs p b h l = copyFields_Only_Net p b h l"
| "call_selection Sel_U_TCP_and_Net rs p b h l = copyFields_U_TCP_and_Net p b h l"
| "call_selection Sel_Packet rs p b h l = copyFields_Packet p b h l"
| "call_selection Sel_Raw rs p b h l = copyFields_Raw rs p b h l"
| "call_selection Sel_Last rs p b h l = copyFields_Last rs p b h l"
| "call_selection Sel_Link rs p b h l = copyFields_Link rs p b h l"
| "call_selection Sel_Net rs p b h l = copyFields_Net rs p b h l"
| "call_selection Sel_Trans rs p b h l = copyFields_Trans rs p b h l"
| "call_selection Sel_Payload rs p b h l = copyFields_Payload rs p b h l"

section \<open>The range parser\<close>

definition range_seps :: string where "range_seps = '',-+<>:^''"

text \<open>
  One pass of the \<^verbatim>\<open>switch\<close> on the last separator (\<open>None\<close> before the first one), on the
  list element \<^verbatim>\<open>*p\<close> (\<open>None\<close> before its \<^verbatim>\<open>malloc\<close>). The cases \<open>'['\<close> and \<open>']'\<close> are in
  the source, although \<^verbatim>\<open>strcspn\<close> never stops at them.
\<close>

definition new_range :: "int \<Rightarrow> nat \<Rightarrow> range_select" where
  "new_range value len = \<lparr>rs_offset = value, rs_length = (if len = 0 then 0 else 1)\<rparr>"

fun range_step :: "char option \<Rightarrow> int \<Rightarrow> nat \<Rightarrow> range_select option \<Rightarrow> range_select" where
  "range_step None value len cur = new_range value len"
| "range_step (Some c) value len None = new_range value len"
| "range_step (Some c) value len (Some r) =
     (if c = CHR ''-'' then r\<lparr>rs_length := wrap_int (wrap_int (value - rs_offset r) + 1)\<rparr>
      else if c = CHR '':'' \<or> c = CHR ''+'' then r\<lparr>rs_length := value\<rparr>
      else if c = CHR ''['' \<or> c = CHR ''<'' then r\<lparr>rs_length := wrap_int (value - rs_offset r)\<rparr>
      else if c = CHR '']'' \<or> c = CHR ''>'' then
        r\<lparr>rs_length := wrap_int (value - rs_offset r), rs_offset := wrap_int (rs_offset r + 1)\<rparr>
      else if c = CHR ''^'' then
        (let r = r\<lparr>rs_offset := wrap_int (rs_offset r + 1)\<rparr>
         in r\<lparr>rs_length := wrap_int (value - rs_offset r)\<rparr>)
      else new_range value len)"

definition fix_length :: "range_select \<Rightarrow> range_select" where
  "fix_length r = (if rs_length r < 0 then r\<lparr>rs_length := 0\<rparr> else r)"

text \<open>\<open>fin\<close> are the finished list elements, \<open>cur\<close> is \<^verbatim>\<open>*p\<close>.\<close>

function parseRange_loop :: "range_select list \<Rightarrow> range_select option \<Rightarrow> char option \<Rightarrow> string \<Rightarrow> range_select list" where
  "parseRange_loop fin cur separator arg =
     (let len = strcspn arg range_seps;
          value = atoi arg;
          value = (if 0 > value then 0 else value);
          r = fix_length (range_step separator value len cur)
      in case drop len arg of
           [] \<Rightarrow> fin @ [r]
         | c # arg' \<Rightarrow>
             if c = CHR '','' then parseRange_loop (fin @ [r]) None (Some c) arg'
             else parseRange_loop fin (Some r) (Some c) arg')"
  by pat_completeness auto
termination
proof (relation "measure (\<lambda>(fin, cur, separator, arg). length arg)", goal_cases)
  case (2 fin cur separator arg len v v' r c arg')
  then have "length (drop (strcspn arg range_seps) arg) = Suc (length arg')" by simp
  then show ?case by simp
next
  case (3 fin cur separator arg len v v' r c arg')
  then have "length (drop (strcspn arg range_seps) arg) = Suc (length arg')" by simp
  then show ?case by simp
qed simp

declare parseRange_loop.simps [simp del]

definition parseRange :: "string \<Rightarrow> range_select list" where
  "parseRange arg = parseRange_loop [] None None arg"

text \<open>Before any \<^verbatim>\<open>-r\<close>, \<^verbatim>\<open>rSel\<close> is the static \<^verbatim>\<open>baseSelection\<close>.\<close>

definition baseSelection :: "range_select list" where
  "baseSelection = [\<lparr>rs_offset = 0, rs_length = 0\<rparr>]"

end
