(* ===== verification/Hash_Functions.thy ===== *)
theory Hash_Functions
  imports Data_Model
begin

unbundle bit_operations_syntax

text \<open>
  The hash functions of the probe: \<^verbatim>\<open>src/bobhash.c\<close>, \<^verbatim>\<open>src/hsieh.c\<close>,
  \<^verbatim>\<open>src/twmx.c\<close> and the one-at-a-time and S-box hashes of \<^verbatim>\<open>src/hash.c\<close>. Each takes the
  memory behind its data pointer and the number of bytes to hash, and returns
  \<open>None\<close> when it would read outside that memory.
\<close>

section \<open>Bob Jenkins' hash (\<^verbatim>\<open>bobhash.c\<close>)\<close>

text \<open>
  The macro \<^verbatim>\<open>mix\<close> is three groups of three lines that differ only in their shift
  widths; \<open>bob_mix_round\<close> is one group.
\<close>

definition bob_mix_round :: "nat \<Rightarrow> nat \<Rightarrow> nat \<Rightarrow> u32 \<times> u32 \<times> u32 \<Rightarrow> u32 \<times> u32 \<times> u32" where
  "bob_mix_round r1 l r2 s = (case s of (a, b, c) \<Rightarrow>
     let a = a - b; a = a - c; a = a XOR drop_bit r1 c;
         b = b - c; b = b - a; b = b XOR push_bit l a;
         c = c - a; c = c - b; c = c XOR drop_bit r2 b
     in (a, b, c))"

definition bob_mix :: "u32 \<times> u32 \<times> u32 \<Rightarrow> u32 \<times> u32 \<times> u32" where
  "bob_mix s = bob_mix_round 3 10 15 (bob_mix_round 12 16 5 (bob_mix_round 13 8 13 s))"

text \<open>
  \<open>k[i] +((ub4)k[i+1]<<8) +((ub4)k[i+2]<<16) +((ub4)k[i+3]<<24)\<close>
\<close>

definition bytes4 :: "byte list \<Rightarrow> nat \<Rightarrow> u32 option" where
  "bytes4 k i = do { a \<leftarrow> rd8 k i; b \<leftarrow> rd8 k (i + 1); c \<leftarrow> rd8 k (i + 2); d \<leftarrow> rd8 k (i + 3);
     Some (ucast a + push_bit 8 (ucast b) + push_bit 16 (ucast c) + push_bit 24 (ucast d)) }"

text \<open>One case of a \<^verbatim>\<open>switch\<close> whose cases fall through: \<^verbatim>\<open>case n: x += k[i] << sh;\<close>\<close>

definition fall_add :: "nat \<Rightarrow> nat \<Rightarrow> byte list \<Rightarrow> nat \<Rightarrow> nat \<Rightarrow> u32 \<Rightarrow> u32 option" where
  "fall_add len n k i sh x =
     (if n \<le> len then do { v \<leftarrow> rd8 k i; Some (x + push_bit sh (ucast v)) } else Some x)"

fun bob_loop :: "byte list \<Rightarrow> nat \<Rightarrow> u32 \<times> u32 \<times> u32 \<Rightarrow>
    (byte list \<times> nat \<times> u32 \<times> u32 \<times> u32) option" where
  "bob_loop k len (a, b, c) =
     (if 12 \<le> len then do {
        x \<leftarrow> bytes4 k 0; y \<leftarrow> bytes4 k 4; z \<leftarrow> bytes4 k 8;
        bob_loop (drop 12 k) (len - 12) (bob_mix (a + x, b + y, c + z)) }
      else Some (k, len, a, b, c))"

declare bob_loop.simps [simp del]

definition bob_tail :: "byte list \<Rightarrow> nat \<Rightarrow> u32 \<times> u32 \<times> u32 \<Rightarrow> (u32 \<times> u32 \<times> u32) option" where
  "bob_tail k len s = (case s of (a, b, c) \<Rightarrow> do {
     c \<leftarrow> fall_add len 11 k 10 24 c;
     c \<leftarrow> fall_add len 10 k 9 16 c;
     c \<leftarrow> fall_add len 9 k 8 8 c;
     b \<leftarrow> fall_add len 8 k 7 24 b;
     b \<leftarrow> fall_add len 7 k 6 16 b;
     b \<leftarrow> fall_add len 6 k 5 8 b;
     b \<leftarrow> fall_add len 5 k 4 0 b;
     a \<leftarrow> fall_add len 4 k 3 24 a;
     a \<leftarrow> fall_add len 3 k 2 16 a;
     a \<leftarrow> fall_add len 2 k 1 8 a;
     a \<leftarrow> fall_add len 1 k 0 0 a;
     Some (a, b, c) })"

definition bobhash :: "byte list \<Rightarrow> u32 \<Rightarrow> u32 \<Rightarrow> u32 option" where
  "bobhash k len0 initval = do {
     (k, len, a, b, c) \<leftarrow> bob_loop k (unat len0) (0x9e3779b9, 0x9e3779b9, initval);
     (a, b, c) \<leftarrow> bob_tail k len (a, b, c + len0);
     let (a, b, c) = bob_mix (a, b, c);
     Some c }"

text \<open>The wrapper takes a 16-bit length.\<close>

definition BOB_Hash :: "byte list \<Rightarrow> u16 \<Rightarrow> u32 \<Rightarrow> u32 option" where
  "BOB_Hash databuffer databufferlength tinitval =
     bobhash databuffer (ucast databufferlength) tinitval"

section \<open>Paul Hsieh's hash (\<^verbatim>\<open>hsieh.c\<close>)\<close>

definition get16bits :: "byte list \<Rightarrow> nat \<Rightarrow> u32 option" where
  "get16bits d i = do { lo \<leftarrow> rd8 d i; hi \<leftarrow> rd8 d (i + 1);
     Some (push_bit 8 (ucast hi) + ucast lo) }"

fun hsieh_loop :: "byte list \<Rightarrow> nat \<Rightarrow> u32 \<Rightarrow> (byte list \<times> u32) option" where
  "hsieh_loop d 0 hash = Some (d, hash)"
| "hsieh_loop d (Suc len) hash = do {
     x \<leftarrow> get16bits d 0;
     let hash = hash + x;
     y \<leftarrow> get16bits d 2;
     let tmp = push_bit 11 y XOR hash;
     let hash = push_bit 16 hash XOR tmp;
     hsieh_loop (drop 4 d) len (hash + drop_bit 11 hash) }"

text \<open>\<^verbatim>\<open>data\<close> is a pointer to (signed) \<^verbatim>\<open>char\<close>: single bytes are sign-extended.\<close>

definition hsieh_tail :: "byte list \<Rightarrow> nat \<Rightarrow> u32 \<Rightarrow> u32 option" where
  "hsieh_tail d rem hash =
     (if rem = 3 then do {
        x \<leftarrow> get16bits d 0;
        let hash = hash + x;
        let hash = hash XOR push_bit 16 hash;
        z \<leftarrow> rd8 d 2;
        let hash = hash XOR push_bit 18 (scast z);
        Some (hash + drop_bit 11 hash) }
      else if rem = 2 then do {
        x \<leftarrow> get16bits d 0;
        let hash = hash + x;
        let hash = hash XOR push_bit 11 hash;
        Some (hash + drop_bit 17 hash) }
      else if rem = 1 then do {
        z \<leftarrow> rd8 d 0;
        let hash = hash + scast z;
        let hash = hash XOR push_bit 10 hash;
        Some (hash + drop_bit 1 hash) }
      else Some hash)"

definition hsieh_final :: "u32 \<Rightarrow> u32" where
  "hsieh_final hash =
     (let hash = hash XOR push_bit 3 hash; hash = hash + drop_bit 5 hash;
          hash = hash XOR push_bit 4 hash; hash = hash + drop_bit 17 hash;
          hash = hash XOR push_bit 25 hash; hash = hash + drop_bit 6 hash
      in hash)"

definition Hsieh_Hash :: "byte list \<Rightarrow> u16 \<Rightarrow> u32 option" where
  "Hsieh_Hash data len =
     (if len = 0 then Some 0
      else do {
        let rem = unat (len AND 3);
        (d, hash) \<leftarrow> hsieh_loop data (unat (drop_bit 2 len)) (ucast len);
        hash \<leftarrow> hsieh_tail d rem hash;
        Some (hsieh_final hash) })"

section \<open>Thomas Wang's 32-bit mix (\<^verbatim>\<open>twmx.c\<close>)\<close>

definition twmx_mix :: "u32 \<Rightarrow> u32" where
  "twmx_mix key =
     (let key = key + NOT (push_bit 15 key);
          key = key XOR drop_bit 10 (key AND 0x7FFFFFFF);
          key = key + push_bit 3 key;
          key = key XOR drop_bit 6 (key AND 0x7FFFFFFF);
          key = key + NOT (push_bit 11 key);
          key = key XOR drop_bit 16 (key AND 0x7FFFFFFF)
      in key)"

text \<open>
  Two loops, one that assembles each word from its bytes (unaligned data) and one that
  loads it (aligned data).
\<close>

fun twmx_loop_unaligned :: "byte list \<Rightarrow> nat \<Rightarrow> u32 \<Rightarrow> (byte list \<times> nat \<times> u32) option" where
  "twmx_loop_unaligned k len key =
     (if 4 \<le> len then do {
        x \<leftarrow> bytes4 k 0;
        twmx_loop_unaligned (drop 4 k) (len - 4) (twmx_mix (key + x)) }
      else Some (k, len, key))"

fun twmx_loop_aligned :: "byte list \<Rightarrow> nat \<Rightarrow> u32 \<Rightarrow> (byte list \<times> nat \<times> u32) option" where
  "twmx_loop_aligned k len key =
     (if 4 \<le> len then do {
        x \<leftarrow> load32 k 0;
        twmx_loop_aligned (drop 4 k) (len - 4) (twmx_mix (key + x)) }
      else Some (k, len, key))"

declare twmx_loop_unaligned.simps [simp del] twmx_loop_aligned.simps [simp del]

definition twmx_tail :: "byte list \<Rightarrow> nat \<Rightarrow> u32 \<Rightarrow> u32 option" where
  "twmx_tail k len key = do {
     key \<leftarrow> fall_add len 3 k 2 16 key;
     key \<leftarrow> fall_add len 2 k 1 8 key;
     fall_add len 1 k 0 0 key }"

definition TWMXHash :: "nat \<Rightarrow> byte list \<Rightarrow> u32 \<Rightarrow> u32 \<Rightarrow> u32 option" where
  "TWMXHash addr data len0 initval = do {
     (k, len, key) \<leftarrow> (if addr mod 4 \<noteq> 0 then twmx_loop_unaligned data (unat len0) initval
                       else twmx_loop_aligned data (unat len0) initval);
     key \<leftarrow> twmx_tail k len key;
     Some (twmx_mix key) }"

section \<open>One-at-a-time and S-box hashes (\<^verbatim>\<open>hash.c\<close>)\<close>

definition oaat_step :: "u32 \<Rightarrow> byte \<Rightarrow> u32" where
  "oaat_step hash v =
     (let hash = hash + ucast v;
          hash = hash + push_bit 10 hash;
          hash = hash XOR drop_bit 6 hash
      in hash)"

definition oaat_final :: "u32 \<Rightarrow> u32" where
  "oaat_final hash =
     (let hash = hash + push_bit 3 hash;
          hash = hash XOR drop_bit 11 hash;
          hash = hash + push_bit 15 hash
      in hash)"

function oaat_loop :: "byte list \<Rightarrow> nat \<Rightarrow> nat \<Rightarrow> u32 \<Rightarrow> u32 option" where
  "oaat_loop p len i hash =
     (if i < len then do { v \<leftarrow> rd8 p i; oaat_loop p len (Suc i) (oaat_step hash v) }
      else Some hash)"
  by pat_completeness auto
termination
  by (relation "measure (\<lambda>(p, len, i, hash). len - i)") auto

declare oaat_loop.simps [simp del]

definition calcHashValue_OAAT :: "buffer \<Rightarrow> u32 option" where
  "calcHashValue_OAAT b = do {
     hash \<leftarrow> oaat_loop (b_mem b) (unat (b_len b)) 0 0;
     Some (oaat_final hash) }"

definition sbox :: "u32 list" where
  "sbox = [
     0xF53E1837, 0x5F14C86B, 0x9EE3964C, 0xFA796D53, 0x32223FC3, 0x4D82BC98,
     0xA0C7FA62, 0x63E2C982, 0x24994A5B, 0x1ECE7BEE, 0x292B38EF, 0xD5CD4E56,
     0x514F4303, 0x7BE12B83, 0x7192F195, 0x82DC7300, 0x084380B4, 0x480B55D3,
     0x5F430471, 0x13F75991, 0x3F9CF22C, 0x2FE0907A, 0xFD8E1E69, 0x7B1D5DE8,
     0xD575A85C, 0xAD01C50A, 0x7EE00737, 0x3CE981E8, 0x0E447EFA, 0x23089DD6,
     0xB59F149F, 0x13600EC7, 0xE802C8E6, 0x670921E4, 0x7207EFF0, 0xE74761B0,
     0x69035234, 0xBFA40F19, 0xF63651A0, 0x29E64C26, 0x1F98CCA7, 0xD957007E,
     0xE71DDC75, 0x3E729595, 0x7580B7CC, 0xD7FAF60B, 0x92484323, 0xA44113EB,
     0xE4CBDE08, 0x346827C9, 0x3CF32AFA, 0x0B29BCF1, 0x6E29F7DF, 0xB01E71CB,
     0x3BFBC0D1, 0x62EDC5B8, 0xB7DE789A, 0xA4748EC9, 0xE17A4C4F, 0x67E5BD03,
     0xF3B33D1A, 0x97D8D3E9, 0x09121BC0, 0x347B2D2C, 0x79A1913C, 0x504172DE,
     0x7F1F8483, 0x13AC3CF6, 0x7A2094DB, 0xC778FA12, 0xADF7469F, 0x21786B7B,
     0x71A445D0, 0xA8896C1B, 0x656F62FB, 0x83A059B3, 0x972DFE6E, 0x4122000C,
     0x97D9DA19, 0x17D5947B, 0xB1AFFD0C, 0x6EF83B97, 0xAF7F780B, 0x4613138A,
     0x7C3E73A6, 0xCF15E03D, 0x41576322, 0x672DF292, 0xB658588D, 0x33EBEFA9,
     0x938CBF06, 0x06B67381, 0x07F192C6, 0x2BDA5855, 0x348EE0E8, 0x19DBB6E3,
     0x3222184B, 0xB69D5DBA, 0x7E760B88, 0xAF4D8154, 0x007A51AD, 0x35112500,
     0xC9CD2D7D, 0x4F4FB761, 0x694772E3, 0x694C8351, 0x4A7E3AF5, 0x67D65CE1,
     0x9287DE92, 0x2518DB3C, 0x8CB4EC06, 0xD154D38F, 0xE19A26BB, 0x295EE439,
     0xC50A1104, 0x2153C6A7, 0x82366656, 0x0713BC2F, 0x6462215A, 0x21D9BFCE,
     0xBA8EACE6, 0xAE2DF4C1, 0x2A8D5E80, 0x3F7E52D1, 0x29359399, 0xFEA1D19C,
     0x18879313, 0x455AFA81, 0xFADFE838, 0x62609838, 0xD1028839, 0x0736E92F,
     0x3BCA22A3, 0x1485B08A, 0x2DA7900B, 0x852C156D, 0xE8F24803, 0x00078472,
     0x13F0D332, 0x2ACFD0CF, 0x5F747F5C, 0x87BB1E2F, 0xA7EFCB63, 0x23F432F0,
     0xE6CE7C5C, 0x1F954EF6, 0xB609C91B, 0x3B4571BF, 0xEED17DC0, 0xE556CDA0,
     0xA7846A8D, 0xFF105F94, 0x52B7CCDE, 0x0E33E801, 0x664455EA, 0xF2C70414,
     0x73E7B486, 0x8F830661, 0x8B59E826, 0xBB8AEDCA, 0xF3D70AB9, 0xD739F2B9,
     0x4A04C34A, 0x88D0F089, 0xE02191A2, 0xD89D9C78, 0x192C2749, 0xFC43A78F,
     0x0AAC88CB, 0x9438D42D, 0x9E280F7A, 0x36063802, 0x38E8D018, 0x1C42A9CB,
     0x92AAFF6C, 0xA24820C5, 0x007F077F, 0xCE5BC543, 0x69668D58, 0x10D6FF74,
     0xBE00F621, 0x21300BBE, 0x2E9E8F46, 0x5ACEA629, 0xFA1F86C7, 0x52F206B8,
     0x3EDF1A75, 0x6DA8D843, 0xCF719928, 0x73E3891F, 0xB4B95DD6, 0xB2A42D27,
     0xEDA20BBF, 0x1A58DBDF, 0xA449AD03, 0x6DDEF22B, 0x900531E6, 0x3D3BFF35,
     0x5B24ABA2, 0x472B3E4C, 0x387F2D75, 0x4D8DBA36, 0x71CB5641, 0xE3473F3F,
     0xF6CD4B7F, 0xBF7D1428, 0x344B64D0, 0xC5CDFCB6, 0xFE2E0182, 0x2C37A673,
     0xDE4EB7A3, 0x63FDC933, 0x01DC4063, 0x611F3571, 0xD167BFAF, 0x4496596F,
     0x3DEE0689, 0xD8704910, 0x7052A114, 0x068C9EC5, 0x75D0E766, 0x4D54CC20,
     0xB44ECDE2, 0x4ABC653E, 0x2C550A21, 0x1A52C0DB, 0xCFED03D0, 0x119BAFE2,
     0x876A6133, 0xBC232088, 0x435BA1B2, 0xAE99BBFA, 0xBB4F08E4, 0xA62B5F49,
     0x1DA4B695, 0x336B84DE, 0xDC813D31, 0x00C134FB, 0x397A98E6, 0x151F0E64,
     0xD9EB3E69, 0xD3C7DF60, 0xD2F2C336, 0x2DDD067B, 0xBD122835, 0xB0B3BD3A,
     0xB0D54E46, 0x8641F1E4, 0xA0B38F96, 0x51D39199, 0x37A6AD75, 0xDF84EE41,
     0x3C034CBA, 0xACDA62FC, 0x11923B8B, 0x45EF170A]"

definition sbox_step :: "u32 \<Rightarrow> byte \<Rightarrow> u32" where
  "sbox_step hash v = (hash XOR sbox ! unat v) * 3"

text \<open>
  The loop counter is a \<^verbatim>\<open>uint16_t\<close> compared with the 32-bit length, so the loop may not end:
  the outer option is \<open>None\<close> then, the inner one is the memory fault.
\<close>

partial_function (option) sbox_loop ::
    "byte list \<Rightarrow> u32 \<Rightarrow> u16 \<Rightarrow> u32 \<Rightarrow> u32 option option" where
  "sbox_loop p len i hash =
     (if ucast i < len
      then (case rd8 p (unat i) of
              None \<Rightarrow> Some None
            | Some v \<Rightarrow> sbox_loop p len (i + 1) (sbox_step hash v))
      else Some (Some hash))"

definition calcHashValue_SBOX :: "buffer \<Rightarrow> u32 option option" where
  "calcHashValue_SBOX b = sbox_loop (b_mem b) (b_len b) 0 0"

section \<open>Hashing a buffer\<close>

abbreviation (input) initval :: u32 where "initval \<equiv> 0x32545"

definition calcHashValue_BOB :: "buffer \<Rightarrow> u32 option" where
  "calcHashValue_BOB b = BOB_Hash (b_mem b) (ucast (b_len b)) initval"

definition calcHashValue_Hsieh :: "buffer \<Rightarrow> u32 option" where
  "calcHashValue_Hsieh b = Hsieh_Hash (b_mem b) (ucast (b_len b))"

text \<open>The buffer comes from \<^verbatim>\<open>calloc\<close>, whose result is aligned.\<close>

definition calcHashValue_TWMXRSHash :: "buffer \<Rightarrow> u32 option" where
  "calcHashValue_TWMXRSHash b = TWMXHash 0 (b_mem b) (b_len b) initval"

text \<open>A call through a \<^verbatim>\<open>hashFunction\<close> pointer.\<close>

fun call_hash :: "hash_fn \<Rightarrow> buffer \<Rightarrow> u32 option" where
  "call_hash BOB b = calcHashValue_BOB b"
| "call_hash TWMX b = calcHashValue_TWMXRSHash b"
| "call_hash HSIEH b = calcHashValue_Hsieh b"
| "call_hash OAAT b = calcHashValue_OAAT b"

end
