(* ===== verification/Hash_Digests.thy ===== *)
theory Hash_Digests
  imports Hash_Functions
begin

unbundle bit_operations_syntax

text \<open>
  What the hash functions compute. Each one is shown to equal a digest: a function of the
  hashed bytes alone, written as a recursion over the byte list. The contract every
  \<^verbatim>\<open>hashFunction\<close> offers its callers is the locale \<open>buffer_hash\<close>; the functions whose
  rounds lose no information satisfy \<open>byte_sensitive_hash\<close> as well, whose client lemma
  is that no two inputs that differ in one byte collide.
\<close>

section \<open>The contracts\<close>

locale buffer_hash =
  fixes calc :: "buffer \<Rightarrow> u32 option"
    and digest :: "byte list \<Rightarrow> u32"
  assumes calc_digest: "buffer_ok b \<Longrightarrow> calc b = Some (digest (content b))"
begin

lemma calc_total: "buffer_ok b \<Longrightarrow> \<exists>h. calc b = Some h"
  by (simp add: calc_digest)

lemma calc_content:
  "buffer_ok b \<Longrightarrow> buffer_ok b' \<Longrightarrow> content b = content b' \<Longrightarrow> calc b = calc b'"
  by (simp add: calc_digest)

end

text \<open>A round function that is injective in the running state and in the input it absorbs.\<close>

locale absorbing =
  fixes step :: "'s \<Rightarrow> 'b \<Rightarrow> 's"
  assumes step_state: "step s b = step t b \<Longrightarrow> s = t"
    and step_input: "step s b = step s c \<Longrightarrow> b = c"
begin

lemma foldl_state_inj: "foldl step s bs = foldl step t bs \<Longrightarrow> s = t"
  by (induction bs arbitrary: s t) (auto dest: step_state)

lemma one_change: "b \<noteq> c \<Longrightarrow> foldl step s (xs @ b # ys) \<noteq> foldl step s (xs @ c # ys)"
  by (auto dest: foldl_state_inj step_input)

lemma one_update:
  assumes "i < length bs" and "b \<noteq> bs ! i"
  shows "foldl step s (bs[i := b]) \<noteq> foldl step s bs"
proof -
  have "bs[i := b] = take i bs @ b # drop (Suc i) bs" "bs = take i bs @ bs ! i # drop (Suc i) bs"
    using assms(1) by (simp_all add: upd_conv_take_nth_drop id_take_nth_drop [symmetric])
  then show ?thesis using one_change [OF assms(2), of s "take i bs" "drop (Suc i) bs"] by metis
qed

end

locale byte_sensitive_hash = buffer_hash +
  assumes digest_change: "i < length xs \<Longrightarrow> v \<noteq> xs ! i \<Longrightarrow> digest (xs[i := v]) \<noteq> digest xs"
begin

lemma calc_change:
  assumes "buffer_ok b" and "i < unat (b_len b)" and "v \<noteq> b_mem b ! i"
  shows "calc (b\<lparr>b_mem := (b_mem b)[i := v]\<rparr>) \<noteq> calc b"
proof -
  let ?b = "b\<lparr>b_mem := (b_mem b)[i := v]\<rparr>"
  have ok: "buffer_ok ?b" using assms(1) by (simp add: buffer_ok_def)
  have "content ?b = (content b)[i := v]" by (simp add: content_def take_update_swap)
  moreover have "i < length (content b)" "content b ! i = b_mem b ! i"
    using assms(1,2) by (simp_all add: content_def buffer_ok_def)
  ultimately show ?thesis
    using digest_change assms by (simp add: calc_digest ok)
qed

end

section \<open>Bob's mix is reversible\<close>

text \<open>The inverse of a group of lines, last assignment first.\<close>

definition bob_unmix_round :: "nat \<Rightarrow> nat \<Rightarrow> nat \<Rightarrow> u32 \<times> u32 \<times> u32 \<Rightarrow> u32 \<times> u32 \<times> u32" where
  "bob_unmix_round r1 l r2 s = (case s of (a, b, c) \<Rightarrow>
     let c = c XOR drop_bit r2 b; c = c + b; c = c + a;
         b = b XOR push_bit l a; b = b + a; b = b + c;
         a = a XOR drop_bit r1 c; a = a + c; a = a + b
     in (a, b, c))"

lemma bob_unmix_round_mix: "bob_unmix_round r1 l r2 (bob_mix_round r1 l r2 s) = s"
  by (cases s) (simp add: bob_mix_round_def bob_unmix_round_def Let_def xor_cancel)

lemma bob_mix_round_unmix: "bob_mix_round r1 l r2 (bob_unmix_round r1 l r2 s) = s"
  by (cases s) (simp add: bob_mix_round_def bob_unmix_round_def Let_def xor_cancel)

lemma bob_mix_round_bij: "bij (bob_mix_round r1 l r2)"
  by (rule o_bij [where g = "bob_unmix_round r1 l r2"])
    (simp_all add: fun_eq_iff bob_unmix_round_mix bob_mix_round_unmix)

lemma bob_mix_comp: "bob_mix = bob_mix_round 3 10 15 \<circ> bob_mix_round 12 16 5 \<circ> bob_mix_round 13 8 13"
  by (simp add: fun_eq_iff bob_mix_def)

section \<open>Words of a byte string\<close>

text \<open>
  \<open>words_of\<close> cuts a byte string into little-endian words; the last one is padded with
  zero bytes and always present.
\<close>

fun words_of :: "byte list \<Rightarrow> u32 list" where
  "words_of (a # b # c # d # xs) = le_word [a, b, c, d] # words_of xs"
| "words_of xs = [le_word xs]"

lemma bytes4_le_word: "3 < length k \<Longrightarrow> bytes4 k 0 = Some (le_word (take 4 k))"
  by (cases k rule: words_of.cases) (simp_all add: bytes4_def rd8_def le_word4 [symmetric])

lemma le_word_short:
  "le_word [] = 0" "le_word [a] = ucast a" "le_word [a, b] = ucast a + push_bit 8 (ucast b)"
  "le_word [a, b, c] = ucast a + push_bit 8 (ucast b) + push_bit 16 (ucast c)"
proof -
  have "ucast x = (word_of_nat (unat x) :: u32)" for x :: byte
    by (simp add: unat_ucast_byte)
  then show "le_word [] = 0" "le_word [a] = ucast a" "le_word [a, b] = ucast a + push_bit 8 (ucast b)"
  "le_word [a, b, c] = ucast a + push_bit 8 (ucast b) + push_bit 16 (ucast c)"
    by (simp_all add: le_word_def push_bit_eq_mult algebra_simps)
qed

lemma length_lt4: "len < 4 \<Longrightarrow> len = 0 \<or> len = 1 \<or> len = 2 \<or> len = (3::nat)" by arith

lemma take_nths:
  fixes k :: "byte list"
  shows "0 < length k \<Longrightarrow> take (Suc 0) k = [k ! 0]"
  and "1 < length k \<Longrightarrow> take 2 k = [k ! 0, k ! 1]"
  and "2 < length k \<Longrightarrow> take 3 k = [k ! 0, k ! 1, k ! 2]"
  and "3 < length k \<Longrightarrow> take 4 k = [k ! 0, k ! 1, k ! 2, k ! 3]"
  by (cases k rule: words_of.cases; simp)+

lemma twmx_tail_ref:
  "len < 4 \<Longrightarrow> len \<le> length k \<Longrightarrow> twmx_tail k len key = Some (key + le_word (take len k))"
  by (auto simp: twmx_tail_def fall_add_def rd8_def le_word_short take_nths algebra_simps
      dest!: length_lt4)

section \<open>Bob's hash\<close>

fun bob_blocks :: "u32 \<Rightarrow> byte list \<Rightarrow> u32 \<times> u32 \<times> u32 \<Rightarrow> u32 \<times> u32 \<times> u32" where
  "bob_blocks n xs (a, b, c) =
     (let a' = a + le_word (take 4 xs); b' = b + le_word (take 4 (drop 4 xs)) in
      if 12 \<le> length xs
      then bob_blocks n (drop 12 xs) (bob_mix (a', b', c + le_word (take 4 (drop 8 xs))))
      else bob_mix (a', b', c + n + push_bit 8 (le_word (drop 8 xs))))"

declare bob_blocks.simps [simp del]

lemma bytes4_le_word_at: "i + 3 < length k \<Longrightarrow> bytes4 k i = Some (le_word (take 4 (drop i k)))"
proof -
  assume i: "i + 3 < length k"
  then have "bytes4 k i = bytes4 (drop i k) 0" by (simp add: bytes4_def rd8_def)
  also have "\<dots> = Some (le_word (take 4 (drop i k)))"
    by (rule bytes4_le_word) (use i in simp)
  finally show ?thesis .
qed

lemma take_nths_at:
  fixes k :: "byte list"
  shows "i < length k \<Longrightarrow> take (Suc 0) (drop i k) = [k ! i]"
  and "i + 1 < length k \<Longrightarrow> take 2 (drop i k) = [k ! i, k ! (i + 1)]"
  and "i + 2 < length k \<Longrightarrow> take 3 (drop i k) = [k ! i, k ! (i + 1), k ! (i + 2)]"
  and "i + 3 < length k \<Longrightarrow> take 4 (drop i k) = [k ! i, k ! (i + 1), k ! (i + 2), k ! (i + 3)]"
  using take_nths [of "drop i k"] by (simp_all add: less_diff_conv add.commute)

lemma fall4_ref:
  assumes "len \<le> length k"
  shows "fall_add len (i + 4) k (i + 3) 24 x \<bind> (\<lambda>x. fall_add len (i + 3) k (i + 2) 16 x \<bind>
     (\<lambda>x. fall_add len (i + 2) k (i + 1) 8 x \<bind> (\<lambda>x. fall_add len (i + 1) k i 0 x \<bind> f)))
     = f (x + le_word (take 4 (drop i (take len k))))"
proof -
  consider "len \<le> i" | "len = i + 1" | "len = i + 2" | "len = i + 3" | "i + 4 \<le> len" by linarith
  then show ?thesis
    using assms by cases (simp_all add: fall_add_def rd8_def le_word_short le_word4[symmetric] take_nths_at drop_take algebra_simps)
qed

lemma fall3_ref:
  assumes "len \<le> length k" "len < i + 4"
  shows "fall_add len (i + 3) k (i + 2) 24 x \<bind> (\<lambda>x. fall_add len (i + 2) k (i + 1) 16 x \<bind>
     (\<lambda>x. fall_add len (i + 1) k i 8 x \<bind> f))
     = f (x + push_bit 8 (le_word (drop i (take len k))))"
proof -
  consider "len \<le> i" | "len = i + 1" | "len = i + 2" | "len = i + 3"  using assms(2) by linarith
  then show ?thesis
    using assms by cases (simp_all add: fall_add_def rd8_def le_word_short take_nths_at drop_take
      push_bit_add algebra_simps)
qed

lemma bob_tail_ref:
  assumes "len \<le> length k" "len < 12"
  shows "bob_tail k len (a, b, c) = Some
    (a + le_word (take 4 (take len k)), b + le_word (take 4 (drop 4 (take len k))),
     c + push_bit 8 (le_word (drop 8 (take len k))))"
  using assms(2)
  by (simp add: bob_tail_def numeral_2_eq_2 fall4_ref [OF assms(1), of 0, simplified]
      fall4_ref [OF assms(1), of 4, simplified] fall3_ref [OF assms(1), of 8, simplified])

lemma bob_loop_ref:
  "len \<le> length k \<Longrightarrow>
    (case bob_loop k len s of None \<Rightarrow> None
     | Some (k', len', a, b, c) \<Rightarrow> map_option bob_mix (bob_tail k' len' (a, b, c + n)))
    = Some (bob_blocks n (take len k) s)"
proof (induction k len s rule: bob_loop.induct)
  case (1 k len a b c)
  show ?case
  proof (cases "12 \<le> len")
    case True
    have t: "take 4 (drop i (take len k)) = take 4 (drop i k)" if "i \<le> 8" for i
      using that True by (simp add: drop_take)
    from True "1.prems" "1.IH" t [of 0] t [of 4] t [of 8] show ?thesis
      by (simp add: bob_loop.simps [of k] bob_blocks.simps [of n "take len k"] bytes4_le_word_at
         drop_take Let_def del: take_take)
  next
    case False
    with "1.prems" show ?thesis
      by (simp add: bob_loop.simps [of k] bob_blocks.simps [of n "take len k"] bob_tail_ref Let_def)
  qed
qed

definition bob_digest :: "u32 \<Rightarrow> byte list \<Rightarrow> u32" where
  "bob_digest iv xs = snd (snd (bob_blocks (of_nat (length xs)) xs (0x9e3779b9, 0x9e3779b9, iv)))"

lemma bobhash_digest:
  assumes "unat len0 \<le> length k"
  shows "bobhash k len0 iv = Some (bob_digest iv (take (unat len0) k))"
proof -
  let ?s = "(0x9e3779b9, 0x9e3779b9, iv) :: u32 \<times> u32 \<times> u32"
  have "bobhash k len0 iv = map_option (\<lambda>s. snd (snd s))
    (case bob_loop k (unat len0) ?s of None \<Rightarrow> None
     | Some (k', len', a, b, c) \<Rightarrow> map_option bob_mix (bob_tail k' len' (a, b, c + len0)))"
    by (auto simp: bobhash_def split: option.split bind_splits prod.split)
  with bob_loop_ref [OF assms] assms show ?thesis by (simp add: bob_digest_def min_absorb2)
qed

section \<open>Hsieh's hash\<close>

fun hsieh_body :: "byte list \<Rightarrow> u32 \<Rightarrow> u32" where
  "hsieh_body (a # b # c # d # xs) hash =
     (let hash = hash + le_word [a, b];
          tmp = push_bit 11 (le_word [c, d]) XOR hash;
          hash = push_bit 16 hash XOR tmp
      in hsieh_body xs (hash + drop_bit 11 hash))"
| "hsieh_body [a, b, c] hash =
     (let hash = hash + le_word [a, b];
          hash = hash XOR push_bit 16 hash;
          hash = hash XOR push_bit 18 (scast c)
      in hash + drop_bit 11 hash)"
| "hsieh_body [a, b] hash =
     (let hash = hash + le_word [a, b];
          hash = hash XOR push_bit 11 hash
      in hash + drop_bit 17 hash)"
| "hsieh_body [a] hash =
     (let hash = hash + scast a;
          hash = hash XOR push_bit 10 hash
      in hash + drop_bit 1 hash)"
| "hsieh_body [] hash = hash"

lemma get16_le: "i + 1 < length d \<Longrightarrow> get16bits d i = Some (le_word [d ! i, d ! (i + 1)])"
  by (simp add: get16bits_def rd8_def le_word_short add.commute)

lemma hsieh_tail_cases:
  "hsieh_tail d 0 h = Some h"
  "hsieh_tail d (Suc 0) h = do { z \<leftarrow> rd8 d 0; Some (hsieh_body [z] h) }"
  "hsieh_tail d 2 h = do { x \<leftarrow> get16bits d 0;
     let hash = h + x; hash = hash XOR push_bit 11 hash in Some (hash + drop_bit 17 hash) }"
  "hsieh_tail d 3 h = do { x \<leftarrow> get16bits d 0; z \<leftarrow> rd8 d 2;
     let hash = h + x; hash = hash XOR push_bit 16 hash; hash = hash XOR push_bit 18 (scast z)
     in Some (hash + drop_bit 11 hash) }"
  by (simp_all only: hsieh_tail_def Let_def hsieh_body.simps if_True if_False
      zero_neq_numeral n_not_Suc_n numeral_eq_one_iff)
    simp_all

lemma hsieh_tail_ref:
  "rem < 4 \<Longrightarrow> rem \<le> length d \<Longrightarrow> hsieh_tail d rem h = Some (hsieh_body (take rem d) h)"
  by (drule length_lt4, elim disjE)
    (simp_all only: hsieh_tail_cases get16_le rd8_Some take_nths Let_def bind.bind_lunit take_0 One_nat_def add_0
      hsieh_body.simps)

lemma hsieh_loop_ref:
  "4 * n + rem \<le> length d \<Longrightarrow> rem < 4 \<Longrightarrow>
    (case hsieh_loop d n h of None \<Rightarrow> None | Some (d', h') \<Rightarrow> hsieh_tail d' rem h')
     = Some (hsieh_body (take (4 * n + rem) d) h)"
proof (induction n arbitrary: d h)
  case 0
  then show ?case by (simp add: hsieh_tail_ref)
next
  case (Suc n)
  then obtain a b c e xs where d: "d = a # b # c # e # xs"
    by (cases d rule: words_of.cases) auto
  with Suc.prems have "4 * n + rem \<le> length xs" by simp
  moreover have "take (4 * Suc n + rem) d = a # b # c # e # take (4 * n + rem) xs"
    by (simp add: d take_Cons')
  ultimately show ?case
    using Suc.IH [of xs] Suc.prems(2)
    by (simp add: d get16_le Let_def del: take_Suc_Cons)
qed

definition hsieh_digest :: "byte list \<Rightarrow> u32" where
  "hsieh_digest xs = (if xs = [] then 0 else hsieh_final (hsieh_body xs (of_nat (length xs))))"

lemma and_3_mod: "unat (w AND 3) = unat w mod 4" for w :: u16
proof -
  have "w AND 3 = take_bit 2 w" by (simp add: take_bit_eq_mask mask_eq_exp_minus_1)
  then show ?thesis by (simp add: take_bit_eq_mod unat_mod)
qed

lemma Hsieh_Hash_digest:
  assumes "unat len \<le> length data"
  shows "Hsieh_Hash data len = Some (hsieh_digest (take (unat len) data))"
proof (cases "len = 0")
  case True
  then show ?thesis by (simp add: Hsieh_Hash_def hsieh_digest_def)
next
  case False
  define n where "n = unat (drop_bit 2 len)"
  define rem where "rem = unat (len AND 3)"
  have rem: "rem = unat len mod 4" by (simp add: rem_def and_3_mod)
  have n: "n = unat len div 4" by (simp add: n_def drop_bit_eq_div unat_div)
  have nr: "4 * n + rem = unat len" by (simp add: n rem)
  have w: "(of_nat (unat len) :: u32) = ucast len" by simp
  have "Hsieh_Hash data len = map_option hsieh_final
     (case hsieh_loop data n (ucast len) of None \<Rightarrow> None | Some (d', h') \<Rightarrow> hsieh_tail d' rem h')"
    using False by (auto simp: Hsieh_Hash_def n_def rem_def split: option.split bind_splits)
  also have "\<dots> = Some (hsieh_final (hsieh_body (take (unat len) data) (ucast len)))"
    using hsieh_loop_ref [of n rem data "ucast len"] assms nr by (simp add: rem)
  finally show ?thesis using False assms
    by (auto simp: hsieh_digest_def min_absorb2 w unat_eq_zero)
qed

section \<open>Wang's hash\<close>

lemma twmx_mix_inj: "twmx_mix x = twmx_mix y \<Longrightarrow> x = y"
  unfolding twmx_mix_def Let_def by ((drule unmix_steps)+, assumption)

definition twmx_step :: "u32 \<Rightarrow> u32 \<Rightarrow> u32" where
  "twmx_step key w = twmx_mix (key + w)"

lemma words_of_long: "3 < length k \<Longrightarrow> words_of k = le_word (take 4 k) # words_of (drop 4 k)"
  by (cases k rule: words_of.cases) simp_all

lemma words_of_short: "length k < 4 \<Longrightarrow> words_of k = [le_word k]"
  by (cases k rule: words_of.cases) simp_all

lemma twmx_loop_same: "twmx_loop_aligned k len key = twmx_loop_unaligned k len key"
proof (induction k len key rule: twmx_loop_unaligned.induct)
  case (1 k len key)
  show ?case
    by (simp add: twmx_loop_aligned.simps [of k] twmx_loop_unaligned.simps [of k]
        load32_def bytes4_def 1 cong: Option.bind_cong)
qed

lemma twmx_loop_ref:
  "len \<le> length k \<Longrightarrow>
    (case twmx_loop_unaligned k len key of None \<Rightarrow> None
     | Some (k', len', key') \<Rightarrow> map_option twmx_mix (twmx_tail k' len' key'))
    = Some (foldl twmx_step key (words_of (take len k)))"
proof (induction k len key rule: twmx_loop_unaligned.induct)
  case (1 k len key)
  show ?case
  proof (cases "4 \<le> len")
    case True
    then have "min 4 len = 4" "take 4 (take len k) = take 4 k" by simp_all
    with True "1.prems" "1.IH" show ?thesis
      by (simp add: twmx_loop_unaligned.simps [of k] bytes4_le_word words_of_long drop_take twmx_step_def
         del: take_take)
  next
    case False
    with "1.prems" show ?thesis
      by (simp add: twmx_loop_unaligned.simps [of k] twmx_tail_ref words_of_short twmx_step_def)
  qed
qed

definition twmx_digest :: "u32 \<Rightarrow> byte list \<Rightarrow> u32" where
  "twmx_digest iv xs = foldl twmx_step iv (words_of xs)"

lemma TWMXHash_digest:
  assumes "unat len0 \<le> length data"
  shows "TWMXHash addr data len0 iv = Some (twmx_digest iv (take (unat len0) data))"
proof -
  have "TWMXHash addr data len0 iv =
    (case twmx_loop_unaligned data (unat len0) iv of None \<Rightarrow> None
     | Some (k', len', key') \<Rightarrow> map_option twmx_mix (twmx_tail k' len' key'))"
    by (auto simp: TWMXHash_def twmx_loop_same split: option.split bind_splits)
  with twmx_loop_ref [OF assms] show ?thesis by (simp add: twmx_digest_def)
qed

section \<open>One-at-a-time and S-box\<close>

lemma oaat_final_inj: "oaat_final x = oaat_final y \<Longrightarrow> x = y"
  unfolding oaat_final_def Let_def by ((drule unmix_steps)+, assumption)
lemma oaat_mix_inj: "oaat_step x v = oaat_step y w \<Longrightarrow> x + ucast v = y + ucast w"
  unfolding oaat_step_def Let_def by ((drule unmix_steps)+, assumption)

lemma oaat_step_inj_state: "oaat_step x v = oaat_step y v \<Longrightarrow> x = y"
  by (drule oaat_mix_inj) simp

lemma oaat_step_inj_byte: "oaat_step x v = oaat_step x w \<Longrightarrow> v = w"
  by (drule oaat_mix_inj) (auto dest: ucast_byte_inj)

lemma oaat_loop_foldl:
  "len \<le> length p \<Longrightarrow> i \<le> len \<Longrightarrow>
     oaat_loop p len i h = Some (foldl oaat_step h (drop i (take len p)))"
proof (induction p len i h rule: oaat_loop.induct)
  case (1 p len i h)
  show ?case
  proof (cases "i < len")
    case True
    with "1.prems" have "i < length (take len p)" by simp
    then have hd: "drop i (take len p) = p ! i # drop (Suc i) (take len p)"
      using Cons_nth_drop_Suc [of i "take len p"] True by simp
    from True "1" show ?thesis
      by (simp add: oaat_loop.simps [of p len i h] rd8_def hd)
  next
    case False
    with "1.prems" show ?thesis by (simp add: oaat_loop.simps)
  qed
qed

lemma sbox_loop_diverges:
  assumes "65536 \<le> unat len" and inside: "65536 \<le> length p"
  shows "sbox_loop p len i h = None"
proof (rule ccontr)
  assume "sbox_loop p len i h \<noteq> None"
  then obtain r where ret: "sbox_loop p len i h = Some r" by auto
  have "False"
  proof (rule sbox_loop.raw_induct [where P = "\<lambda>p' len' i h r. p' = p \<longrightarrow> len' = len \<longrightarrow> False",
        OF _ ret, simplified])
    fix f :: "byte list \<Rightarrow> u32 \<Rightarrow> u16 \<Rightarrow> u32 \<Rightarrow> u32 option option" and p' len' i h r
    assume IH: "\<And>p' len' i h y. f p' len' i h = Some y \<Longrightarrow> p' = p \<longrightarrow> len' \<noteq> len"
      and eq: "(if ucast i < len' then case rd8 p' (unat i) of None \<Rightarrow> Some None
         | Some v \<Rightarrow> f p' len' (i + 1) (sbox_step h v) else Some (Some h)) = Some r"
    show "p' = p \<longrightarrow> len' \<noteq> len"
    proof (intro impI notI)
      assume eqs: "p' = p" "len' = len"
      have i: "unat i < 65536" using unsigned_less [of i, where ?'a = nat] by simp
      have "unat (ucast i :: u32) = unat i"
        using i by (simp add: unsigned_ucast_eq take_bit_nat_eq_self)
      then have "ucast i < len" using i assms(1) by (simp add: word_less_nat_alt)
      moreover have "rd8 p (unat i) = Some (p ! unat i)" using i inside by (simp add: rd8_def)
      ultimately have "f p len (i + 1) (sbox_step h (p ! unat i)) = Some r" using eq eqs by simp
      from IH [OF this] show False by simp
    qed
  qed
  then show False .
qed

lemma sbox_loop_foldl:
  assumes len: "unat len < 65536" "unat len \<le> length p"
  shows "unat i \<le> unat len \<Longrightarrow>
    sbox_loop p len i h = Some (Some (foldl sbox_step h (drop (unat i) (take (unat len) p))))"
proof (induction "unat len - unat i" arbitrary: i h)
  case 0
  then have "\<not> ucast i < len" using len
    by (simp add: word_less_nat_alt unsigned_ucast_eq take_bit_nat_eq_self)
  with 0 show ?case by (simp add: sbox_loop.simps [of p len i])
next
  case (Suc n)
  let ?xs = "take (unat len) p"
  have lt: "unat i < unat len" using Suc by simp
  then have small: "unat i + 1 < 65536" using len(1) by linarith
  have "unat (i + 1) = (unat i + 1) mod 65536" using unat_word_ariths(1) [of i 1] by simp
  with small have up: "unat (i + 1) = Suc (unat i)" by (simp only: mod_less Suc_eq_plus1)
  have g: "ucast i < len" using lt len
    by (simp add: word_less_nat_alt unsigned_ucast_eq take_bit_nat_eq_self)
  have hd: "drop (unat i) ?xs = p ! unat i # drop (Suc (unat i)) ?xs"
    using lt len Cons_nth_drop_Suc [of "unat i" ?xs] by simp
  have "sbox_loop p len i h = sbox_loop p len (i + 1) (sbox_step h (p ! unat i))"
    using g lt len by (simp add: sbox_loop.simps [of p len i] rd8_def)
  also have "\<dots> = Some (Some (foldl sbox_step (sbox_step h (p ! unat i)) (drop (unat (i + 1)) ?xs)))"
    by (rule Suc.hyps(1)) (use Suc.hyps(2) up lt in simp_all)
  finally show ?case by (simp add: hd up)
qed

lemma sbox_distinct: "distinct sbox"
proof (rule distinct_map [THEN iffD1, THEN conjunct1])
  show "distinct (map unat sbox)" by (simp add: sbox_def)
qed

lemma length_sbox: "length sbox = 256"
  by (simp add: sbox_def)

section \<open>The functions meet the contracts\<close>

lemma le_word_eq_iff:
  "le_word [a] = le_word [a'] \<longleftrightarrow> a = a'"
  "le_word [a, b] = le_word [a', b'] \<longleftrightarrow> a = a' \<and> b = b'"
  "le_word [a, b, c] = le_word [a', b', c'] \<longleftrightarrow> a = a' \<and> b = b' \<and> c = c'"
  by (auto dest: le_word_inj [rotated 2])

lemma words_of_update:
  "i < length xs \<Longrightarrow> v \<noteq> xs ! i \<Longrightarrow>
    \<exists>us u u' ws. u \<noteq> u' \<and> words_of xs = us @ u # ws \<and> words_of (xs[i := v]) = us @ u' # ws"
proof (induction xs arbitrary: i rule: words_of.induct)
  case (1 a b c d xs)
  show ?case
  proof (cases "i < 4")
    case True
    have upd: "(a # b # c # d # xs)[i := v] = [a, b, c, d][i := v] @ xs"
      using True list_update_append1 [of i "[a, b, c, d]" xs v] by simp
    have "[a, b, c, d][i := v] \<noteq> [a, b, c, d]"
    proof
      assume "[a, b, c, d][i := v] = [a, b, c, d]"
      then have "[a, b, c, d] ! i = v" using True nth_list_update_eq [of i "[a, b, c, d]" v] by simp
      moreover have "(a # b # c # d # xs) ! i = [a, b, c, d] ! i"
        using True nth_append [of "[a, b, c, d]" xs i] by simp
      ultimately show False using "1.prems" by simp
    qed
    moreover obtain a' b' c' d' where n: "[a, b, c, d][i := v] = [a', b', c', d']"
      using length_list_update [of "[a, b, c, d]" i v]
      by (auto simp: length_Suc_conv simp del: length_list_update)
    ultimately have "le_word [a', b', c', d'] \<noteq> le_word [a, b, c, d]"
      using le_word_inj [of "[a', b', c', d']" "[a, b, c, d]"] by auto
    then show ?thesis
      by (intro exI [of _ "[]"] exI [of _ "le_word [a, b, c, d]"] exI [of _ "le_word [a', b', c', d']"]
          exI [of _ "words_of xs"]) (simp only: upd n, simp)
  next
    case False
    then have "i = Suc (Suc (Suc (Suc (i - 4))))" by simp
    then obtain j where j: "i = Suc (Suc (Suc (Suc j)))" by blast
    with "1.prems" "1.IH" [of j] obtain us u u' ws where
      "u \<noteq> u'" "words_of xs = us @ u # ws" "words_of (xs[j := v]) = us @ u' # ws" by auto
    then show ?thesis
      by (intro exI [of _ "le_word [a, b, c, d] # us"] exI [of _ u] exI [of _ u'] exI [of _ ws])
        (simp add: j)
  qed
qed (auto intro!: exI [of _ "[]"] simp: less_Suc_eq le_word_eq_iff)

lemma twmx_absorb: "absorbing twmx_step"
  by unfold_locales (auto simp: twmx_step_def dest: twmx_mix_inj)

definition bob_calc_digest :: "byte list \<Rightarrow> u32" where
  "bob_calc_digest xs = bob_digest initval (take (length xs mod 65536) xs)"

definition hsieh_calc_digest :: "byte list \<Rightarrow> u32" where
  "hsieh_calc_digest xs = hsieh_digest (take (length xs mod 65536) xs)"

definition oaat_digest :: "byte list \<Rightarrow> u32" where
  "oaat_digest xs = oaat_final (foldl oaat_step 0 xs)"

lemma content_length: "buffer_ok b \<Longrightarrow> length (content b) = unat (b_len b)"
  by (simp add: buffer_ok_def content_def)

lemma content_trunc:
  "buffer_ok b \<Longrightarrow> take (unat (ucast (b_len b) :: u16)) (b_mem b)
     = take (length (content b) mod 65536) (content b)"
  by (simp only: content_length) (simp add: content_def buffer_ok_def unsigned_ucast_eq take_bit_eq_mod)

lemma trunc_le: "buffer_ok b \<Longrightarrow> unat (ucast (b_len b) :: u16) \<le> length (b_mem b)"
  by (simp add: buffer_ok_def unsigned_ucast_eq take_bit_eq_mod)
   (metis le_trans mod_less_eq_dividend)

interpretation bob: buffer_hash calcHashValue_BOB bob_calc_digest
proof
  fix b :: buffer
  assume ok: "buffer_ok b"
  have "unat (ucast (ucast (b_len b) :: u16) :: u32) = unat (ucast (b_len b) :: u16)"
    by (rule unat_ucast_u16)
  with trunc_le [OF ok] show "calcHashValue_BOB b = Some (bob_calc_digest (content b))"
    by (simp add: calcHashValue_BOB_def BOB_Hash_def bobhash_digest bob_calc_digest_def
        content_trunc [OF ok])
qed

interpretation hsieh: buffer_hash calcHashValue_Hsieh hsieh_calc_digest
  by unfold_locales
    (simp add: calcHashValue_Hsieh_def Hsieh_Hash_digest trunc_le content_trunc hsieh_calc_digest_def)

interpretation twmx: byte_sensitive_hash calcHashValue_TWMXRSHash "twmx_digest initval"
proof
  show "buffer_ok b \<Longrightarrow> calcHashValue_TWMXRSHash b = Some (twmx_digest initval (content b))" for b
    by (simp add: calcHashValue_TWMXRSHash_def TWMXHash_digest content_def buffer_ok_def)
next
  fix i :: nat and xs :: "byte list" and v
  assume "i < length xs" "v \<noteq> xs ! i"
  from words_of_update [OF this] obtain us u u' ws where
    "u \<noteq> u'" "words_of xs = us @ u # ws" "words_of (xs[i := v]) = us @ u' # ws" by blast
  then show "twmx_digest initval (xs[i := v]) \<noteq> twmx_digest initval xs"
    using absorbing.one_change [OF twmx_absorb, of u u' initval us ws]
    by (simp add: twmx_digest_def del: foldl_append)
qed

interpretation oaat_absorb: absorbing oaat_step
  by unfold_locales (auto dest: oaat_step_inj_state oaat_step_inj_byte)

interpretation oaat: byte_sensitive_hash calcHashValue_OAAT oaat_digest
proof
  show "buffer_ok b \<Longrightarrow> calcHashValue_OAAT b = Some (oaat_digest (content b))" for b
    by (simp add: calcHashValue_OAAT_def oaat_loop_foldl buffer_ok_def oaat_digest_def content_def)
next
  show "i < length xs \<Longrightarrow> v \<noteq> xs ! i \<Longrightarrow> oaat_digest (xs[i := v]) \<noteq> oaat_digest xs" for i xs v
    using oaat_absorb.one_update by (auto simp: oaat_digest_def dest: oaat_final_inj)
qed

lemma sbox_step_inj: "sbox_step s b = sbox_step t b \<Longrightarrow> s = t"
  unfolding sbox_step_def by (drule odd_mult_inj [where c = 2863311531]) (simp, metis xor_cancel)

interpretation sbox_absorb: absorbing sbox_step
proof
  show "sbox_step s b = sbox_step t b \<Longrightarrow> s = t" for s t b by (rule sbox_step_inj)
next
  fix s b c
  assume "sbox_step s b = sbox_step s c"
  then have "s XOR sbox ! unat b = s XOR sbox ! unat c"
    unfolding sbox_step_def by (rule odd_mult_inj [where c = 2863311531]) simp
  then have "sbox ! unat b = sbox ! unat c" by (metis xor.commute xor_cancel)
  then show "b = c"
    using unat_byte [of b] unat_byte [of c]
    by (simp add: nth_eq_iff_index_eq sbox_distinct length_sbox unsigned_word_eqI)
qed

definition call_digest :: "hash_fn \<Rightarrow> byte list \<Rightarrow> u32" where
  "call_digest f = (case f of BOB \<Rightarrow> bob_calc_digest | TWMX \<Rightarrow> twmx_digest initval
     | HSIEH \<Rightarrow> hsieh_calc_digest | OAAT \<Rightarrow> oaat_digest)"

interpretation called: buffer_hash "call_hash f" "call_digest f" for f
  by unfold_locales
    (cases f; simp add: call_digest_def bob.calc_digest twmx.calc_digest hsieh.calc_digest
        oaat.calc_digest)

section \<open>Properties\<close>

text \<open>The mixing macro of Bob's hash loses no information: it is a bijection of the three
  words of state, as its comment claims ("mix 3 32-bit values reversibly").\<close>

theorem bob_mix_reversible: "bij bob_mix"
  unfolding bob_mix_comp by (intro bij_comp bob_mix_round_bij)

text \<open>C32: Bob's hash, with its unrolled loop and its fall-through switch, computes the block
  recursion \<open>bob_digest\<close> over zero-padded little-endian words and never reads outside the key.\<close>

theorem bobhash_is_bob_digest:
  assumes "unat len0 \<le> length k"
  shows "bobhash k len0 iv = Some (bob_digest iv (take (unat len0) k))"
  using assms by (rule bobhash_digest)

theorem bobhash_is_bob_digest_witness:
  "bobhash [1, 2, 3, 4, 5] 5 0 = Some (bob_digest 0 [1, 2, 3, 4, 5])"
  using bobhash_is_bob_digest [of 5 "[1, 2, 3, 4, 5]" 0] by simp

text \<open>C40: Every hash function that an option can select returns a value on every well-formed
  buffer, without a memory fault, and the value depends on the used bytes alone.\<close>

theorem call_hash_content:
  assumes "buffer_ok b" and "buffer_ok b'" and "content b = content b'"
  shows "\<exists>h. call_hash f b = Some h \<and> call_hash f b' = Some h"
  using called.calc_total [OF assms(1)] called.calc_content [OF assms] by metis

theorem call_hash_content_witness:
  "\<exists>h. call_hash OAAT \<lparr>b_mem = [7, 8], b_len = 1, b_size = 2\<rparr> = Some h
     \<and> call_hash OAAT \<lparr>b_mem = [7], b_len = 1, b_size = 1\<rparr> = Some h"
  by (rule call_hash_content) (simp_all add: buffer_ok_def content_def)

text \<open>The aligned and the unaligned loop of Wang's hash agree on every input, faults
  included, so the hash does not depend on where the buffer lies.\<close>

theorem TWMXHash_alignment: "TWMXHash addr data len iv = TWMXHash addr' data len iv"
  by (simp add: TWMXHash_def twmx_loop_same)

text \<open>Under the one-at-a-time hash no two buffers that differ in exactly one used byte
  collide.\<close>

theorem OAAT_one_byte:
  assumes "buffer_ok b" and "i < unat (b_len b)" and "v \<noteq> b_mem b ! i"
  shows "calcHashValue_OAAT (b\<lparr>b_mem := (b_mem b)[i := v]\<rparr>) \<noteq> calcHashValue_OAAT b"
  using assms by (rule oaat.calc_change)

theorem OAAT_one_byte_witness:
  "calcHashValue_OAAT \<lparr>b_mem = [7, 9], b_len = 2, b_size = 2\<rparr>
     \<noteq> calcHashValue_OAAT \<lparr>b_mem = [7, 8], b_len = 2, b_size = 2\<rparr>"
  using OAAT_one_byte [of "\<lparr>b_mem = [7, 8], b_len = 2, b_size = 2\<rparr>" 1 9]
  by (simp add: buffer_ok_def)

text \<open>The same holds for Wang's hash.\<close>

theorem TWMX_one_byte:
  assumes "buffer_ok b" and "i < unat (b_len b)" and "v \<noteq> b_mem b ! i"
  shows "calcHashValue_TWMXRSHash (b\<lparr>b_mem := (b_mem b)[i := v]\<rparr>) \<noteq> calcHashValue_TWMXRSHash b"
  using assms by (rule twmx.calc_change)

theorem TWMX_one_byte_witness:
  "calcHashValue_TWMXRSHash \<lparr>b_mem = [7, 9, 1, 1, 1], b_len = 5, b_size = 5\<rparr>
     \<noteq> calcHashValue_TWMXRSHash \<lparr>b_mem = [7, 8, 1, 1, 1], b_len = 5, b_size = 5\<rparr>"
  using TWMX_one_byte [of "\<lparr>b_mem = [7, 8, 1, 1, 1], b_len = 5, b_size = 5\<rparr>" 1 9]
  by (simp add: buffer_ok_def)

text \<open>C37: The S-box hash counts in 16 bits: on a well-formed buffer it returns exactly when the
  buffer holds fewer than 65536 bytes, and loops for ever otherwise.\<close>

theorem SBOX_returns_iff:
  assumes "buffer_ok b"
  shows "(\<exists>h. calcHashValue_SBOX b = Some (Some h)) \<longleftrightarrow> unat (b_len b) < 65536"
proof (cases "unat (b_len b) < 65536")
  case True
  then show ?thesis using assms
    by (simp add: calcHashValue_SBOX_def sbox_loop_foldl buffer_ok_def)
next
  case False
  then show ?thesis using assms
    by (simp add: calcHashValue_SBOX_def sbox_loop_diverges buffer_ok_def)
qed

theorem SBOX_returns_iff_witness:
  "\<exists>h. calcHashValue_SBOX \<lparr>b_mem = [7, 8], b_len = 2, b_size = 2\<rparr> = Some (Some h)"
  using SBOX_returns_iff [of "\<lparr>b_mem = [7, 8], b_len = 2, b_size = 2\<rparr>"]
  by (simp add: buffer_ok_def)

end
