(* ===== verification/Selection_Props.thy ===== *)
theory Selection_Props
  imports Selection Hash_Digests
begin

text \<open>
  What the selection functions promise. The locale \<open>selector\<close> states that a selection keeps
  the buffer well formed and that its result does not depend on the stale bytes of the buffer;
  \<open>sampling_hash\<close> joins it to the contract of the hash functions. The copy loops are
  characterised by the bytes each range selects, and the range parser by a grammar.
\<close>

section \<open>The contract of a selection function\<close>

definition bsim :: "u32 \<Rightarrow> buffer \<Rightarrow> buffer \<Rightarrow> bool" where
  "bsim n b1 b2 \<longleftrightarrow> buffer_ok b1 \<and> buffer_ok b2 \<and> b_size b1 = n \<and> b_size b2 = n
     \<and> b_len b1 = b_len b2 \<and> content b1 = content b2"

locale selector =
  fixes sel :: "packet \<Rightarrow> buffer \<Rightarrow> offsets \<Rightarrow> layers \<Rightarrow> buffer option"
  assumes sel_bsim: "bsim n b1 b2 \<Longrightarrow> rel_option (bsim n) (sel p b1 h l) (sel p b2 h l)"
begin

lemma sel_ok: "buffer_ok b \<Longrightarrow> sel p b h l = Some b' \<Longrightarrow> buffer_ok b' \<and> b_size b' = b_size b"
  using sel_bsim [of "b_size b" b b p h l] by (auto simp: bsim_def)

lemma sel_stale:
  "bsim n b1 b2 \<Longrightarrow> sel p b1 h l = Some b1' \<Longrightarrow> \<exists>b2'. sel p b2 h l = Some b2' \<and> bsim n b1' b2'"
  using sel_bsim [of n b1 b2 p h l] by (cases "sel p b2 h l") auto

end

locale sampling_hash = selector sel + buffer_hash calc digest
  for sel :: "packet \<Rightarrow> buffer \<Rightarrow> offsets \<Rightarrow> layers \<Rightarrow> buffer option"
    and calc :: "buffer \<Rightarrow> u32 option" and digest :: "byte list \<Rightarrow> u32"
begin

lemma select_then_hash:
  assumes "bsim n b1 b2" and "sel p b1 h l = Some b1'"
  shows "\<exists>b2' v. sel p b2 h l = Some b2' \<and> calc b1' = Some v \<and> calc b2' = Some v"
proof -
  from sel_stale [OF assms] obtain b2' where b2: "sel p b2 h l = Some b2'" "bsim n b1' b2'" by auto
  then have "buffer_ok b1'" "buffer_ok b2'" "content b1' = content b2'" by (auto simp: bsim_def)
  then show ?thesis using b2 calc_content [of b1' b2'] calc_total [of b1'] by auto
qed

end

section \<open>Appending\<close>

lemma rel_option_bind:
  "rel_option R x y \<Longrightarrow> (\<And>a b. R a b \<Longrightarrow> rel_option S (f a) (g b)) \<Longrightarrow> rel_option S (x \<bind> f) (y \<bind> g)"
  by (cases x; cases y) auto

lemma append_packet_Some:
  assumes ok: "buffer_ok b" and inp: "off + unat n \<le> length p"
    and room: "unat (b_len b) + unat n \<le> unat (b_size b)"
  shows "\<exists>b'. append_packet b p off n = Some b' \<and> buffer_ok b' \<and> b_size b' = b_size b
     \<and> b_len b' = b_len b + n \<and> content b' = content b @ take (unat n) (drop off p)"
proof -
  let ?bs = "take (unat n) (drop off p)"
  from ok have len: "length (b_mem b) = unat (b_size b)" by (simp add: buffer_ok_def)
  have bs: "length ?bs = unat n" using inp by simp
  then obtain m where m: "wr_slice (b_mem b) (unat (b_len b)) ?bs = Some m"
    using room len by (auto simp: wr_slice_def)
  have "unat (b_len b) + unat n < 2 ^ LENGTH(32)"
    using room by (rule le_less_trans) (rule unsigned_less)
  then have sum: "unat (b_len b + n) = unat (b_len b) + unat n"
    by (rule unat_add_lem [THEN iffD1])
  have "append_packet b p off n = Some (b\<lparr>b_mem := m, b_len := b_len b + n\<rparr>)"
    using inp m by (simp add: append_packet_def mem_simps)
  with ok m bs room sum wr_slice_take [OF m] wr_slice_length [OF m] show ?thesis
    by (simp add: buffer_ok_def content_def)
qed

lemma append_packet_None:
  "buffer_ok b \<Longrightarrow> length p < off + unat n \<or> unat (b_size b) < unat (b_len b) + unat n \<Longrightarrow>
     append_packet b p off n = None"
  by (auto simp: append_packet_def rd_slice_def wr_slice_def buffer_ok_def)

lemma append_packet_bsim [mem_safe]:
  assumes "bsim n b1 b2"
  shows "rel_option (bsim n) (append_packet b1 p off c) (append_packet b2 p off c)"
proof (cases "off + unat c \<le> length p \<and> unat (b_len b1) + unat c \<le> unat n")
  case True
  with assms append_packet_Some [of b1 off c p] append_packet_Some [of b2 off c p]
  show ?thesis by (auto simp: bsim_def)
next
  case False
  with assms append_packet_None [of b1 p off c] append_packet_None [of b2 p off c]
  show ?thesis by (auto simp: bsim_def)
qed

lemma copy_NetFields_bsim [mem_safe]:
  "bsim n b1 b2 \<Longrightarrow> rel_option (bsim n) (copy_NetFields p b1 h l) (copy_NetFields p b2 h l)"
  by (auto simp: copy_NetFields_def Let_def intro!: rel_option_bind mem_safe)

lemma reset_bsim: "bsim n b1 b2 \<Longrightarrow> bsim n (b1\<lparr>b_len := 0\<rparr>) (b2\<lparr>b_len := 0\<rparr>)"
  by (simp add: bsim_def buffer_ok_def content_def)

lemma copyFields_Rec_bsim [mem_safe]:
  "bsim n b1 b2 \<Longrightarrow> rel_option (bsim n) (copyFields_Rec p b1 h l) (copyFields_Rec p b2 h l)"
  by (auto simp: copyFields_Rec_def Let_def intro!: rel_option_bind mem_safe)

lemma copyFields_U_TCP_and_Net_bsim [mem_safe]:
  "bsim n b1 b2 \<Longrightarrow>
     rel_option (bsim n) (copyFields_U_TCP_and_Net p b1 h l) (copyFields_U_TCP_and_Net p b2 h l)"
  by (auto simp: copyFields_U_TCP_and_Net_def Let_def intro!: rel_option_bind mem_safe reset_bsim)

lemma copyFields_Packet_bsim [mem_safe]:
  "bsim n b1 b2 \<Longrightarrow> rel_option (bsim n) (copyFields_Packet p b1 h l) (copyFields_Packet p b2 h l)"
  by (auto simp: copyFields_Packet_def intro!: rel_option_bind mem_safe)

section \<open>The copy loops\<close>

text \<open>Two states of a copy loop that agree on what has been written.\<close>

definition csim :: "nat \<Rightarrow> copy_state \<Rightarrow> copy_state \<Rightarrow> bool" where
  "csim n s t = (case s of (b1, w1, l1) \<Rightarrow> case t of (b2, w2, l2) \<Rightarrow>
     length b1 = n \<and> length b2 = n \<and> w1 = w2 \<and> l1 = l2 \<and> unat w1 \<le> n \<and> n < 2 ^ 32
     \<and> take (unat w1) b1 = take (unat w1) b2)"

lemma copy_out_eq:
  assumes "0 \<le> n" "0 \<le> off" "n < 2 ^ 32"
    and "nat off + nat n \<le> length p" "unat written + nat n \<le> length b" "length b < 2 ^ 32"
  shows "\<exists>b'. copy_out p off n (b, written, bLen) = Some (b', written + word_of_int n, bLen - word_of_int n)
     \<and> length b' = length b \<and> unat (written + word_of_int n) = unat written + nat n
     \<and> take (unat written + nat n) b' = take (unat written) b @ take (nat n) (drop (nat off) p)"
proof -
  let ?bs = "take (nat n) (drop (nat off) p)"
  have len: "length ?bs = nat n" using assms(4) by simp
  then obtain b' where b': "wr_slice b (unat written) ?bs = Some b'"
    using assms(5) by (auto simp: wr_slice_def)
  have "unat (word_of_int n :: u32) = nat n" using assms(1,3)
    by (simp add: unat_eq_nat_uint unsigned_of_int take_bit_int_eq_self)
  then have "unat (written + word_of_int n) = unat written + nat n"
    using assms(5,6) by (simp add: unat_add_lem [THEN iffD1])
  with b' wr_slice_take [OF b'] wr_slice_length [OF b'] len assms(1,2,4) show ?thesis
    by (simp add: copy_out_def mem_simps)
qed

lemma copy_out_fault:
  "n < 0 \<or> off < 0 \<or> length p < nat off + nat n \<or> length b < unat written + nat n \<Longrightarrow>
     copy_out p off n (b, written, bLen) = None"
  by (auto simp: copy_out_def rd_slice_def wr_slice_def)

lemma copy_out_csim:
  assumes "csim N s t" and "n < 2 ^ 32"
  shows "rel_option (csim N) (copy_out p off n s) (copy_out p off n t)"
proof -
  obtain b1 w l b2 where st: "s = (b1, w, l)" "t = (b2, w, l)"
    and N: "length b1 = N" "length b2 = N" "unat w \<le> N" "N < 2 ^ 32" and eq: "take (unat w) b1 = take (unat w) b2"
    using assms by (auto simp: csim_def split: prod.splits)
  show ?thesis
  proof (cases "0 \<le> n \<and> 0 \<le> off \<and> nat off + nat n \<le> length p \<and> unat w + nat n \<le> N")
    case True
    then show ?thesis
      using copy_out_eq [of n off p w b1 l] copy_out_eq [of n off p w b2 l] assms(2) N eq
      by (auto simp: st csim_def)
  next
    case False
    then have "copy_out p off n s = None" "copy_out p off n t = None"
      using N unfolding st by (auto intro!: copy_out_fault)
    then show ?thesis by simp
  qed
qed

definition osim :: "nat \<Rightarrow> byte list \<times> u32 \<Rightarrow> byte list \<times> u32 \<Rightarrow> bool" where
  "osim n s t \<longleftrightarrow> length (fst s) = n \<and> length (fst t) = n \<and> snd s = snd t \<and> unat (snd s) \<le> n
     \<and> take (unat (snd s)) (fst s) = take (unat (snd s)) (fst t)"

lemma csim_osim: "csim n (b1, w1, l1) (b2, w2, l2) \<Longrightarrow> osim n (b1, w1) (b2, w2)"
  by (auto simp: csim_def osim_def)

lemma clip_small: "clip_write r w l < 2 ^ 32"
  using unsigned_less [of l, where ?'a = int] by (auto simp: clip_write_def Let_def min_def)

lemma select_loop_csim:
  "csim n (b1, w1, l1) (b2, w2, l2) \<Longrightarrow>
     rel_option (osim n) (select_loop rs p pl (b1, w1, l1)) (select_loop rs p pl (b2, w2, l2))"
proof (induction rs arbitrary: b1 w1 l1 b2 w2 l2)
  case (Cons r rs)
  then have eq: "w2 = w1" "l2 = l1" by (auto simp: csim_def)
  show ?case
    unfolding select_loop.simps Let_def eq
    by (rule rel_option_bind [where R = "csim n"])
       (use Cons in \<open>auto simp: eq intro!: copy_out_csim clip_small csim_osim split: prod.splits\<close>,
        auto simp: csim_def osim_def)
qed (simp add: csim_osim)

lemma select_reverse_loop_csim:
  "csim n (b1, w1, l1) (b2, w2, l2) \<Longrightarrow>
     rel_option (osim n) (select_reverse_loop rs p pl (b1, w1, l1)) (select_reverse_loop rs p pl (b2, w2, l2))"
proof (induction rs arbitrary: b1 w1 l1 b2 w2 l2)
  case (Cons r rs)
  then have eq: "w2 = w1" "l2 = l1" by (auto simp: csim_def)
  show ?case
    unfolding select_reverse_loop.simps Let_def eq
    by (rule rel_option_bind [where R = "csim n"])
       (use Cons in \<open>auto simp: eq intro!: copy_out_csim clip_small csim_osim split: prod.splits\<close>,
        auto simp: csim_def osim_def)
qed (simp add: csim_osim)

lemma select_from_bsim [mem_safe]:
  assumes "bsim n b1 b2"
  shows "rel_option (bsim n) (select_from rs p len b1) (select_from rs p len b2)"
  using assms select_loop_csim [of "unat n" "b_mem b1" 0 "ucast n" "b_mem b2" 0 "ucast n" rs p "ucast len"]
    unsigned_less [of n, where ?'a = nat]
  unfolding select_from_def copyFields_Select_def
  by (cases "select_loop rs p (ucast len) (b_mem b1, 0, ucast n)";
      cases "select_loop rs p (ucast len) (b_mem b2, 0, ucast n)")
     (auto simp: bsim_def csim_def osim_def buffer_ok_def content_def)

lemma copyFields_Last_bsim [mem_safe]:
  assumes "bsim n b1 b2"
  shows "rel_option (bsim n) (copyFields_Last rs p b1 h l) (copyFields_Last rs p b2 h l)"
  using assms unsigned_less [of n, where ?'a = nat]
    select_reverse_loop_csim [of "unat n" "b_mem b1" 0 "ucast n" "b_mem b2" 0 "ucast n" rs "pview p" "ucast (p_len p)"]
  unfolding copyFields_Last_def copyFields_Select_reverse_def
  by (cases "select_reverse_loop rs (pview p) (ucast (p_len p)) (b_mem b1, 0, ucast n)";
      cases "select_reverse_loop rs (pview p) (ucast (p_len p)) (b_mem b2, 0, ucast n)")
     (auto simp: bsim_def csim_def osim_def buffer_ok_def content_def)

lemma select_layer_bsim [mem_safe]:
  "bsim n b1 b2 \<Longrightarrow> rel_option (bsim n) (select_layer rs p b1 off) (select_layer rs p b2 off)"
  by (simp add: select_layer_def mem_safe)

lemmas layer_functions = copyFields_Link_def copyFields_Net_def copyFields_Trans_def
  copyFields_Payload_def copyFields_Raw_def copyFields_Only_Net_def

interpretation sel: selector "call_selection f rs" for f rs
  by unfold_locales (cases f; simp add: layer_functions mem_safe)

interpretation sampling: sampling_hash "call_selection f rs" "call_hash g" "call_digest g" for f rs g
  ..

section \<open>What the copy loops write\<close>

definition ranges_ok :: "range_select list \<Rightarrow> bool" where
  "ranges_ok rs \<longleftrightarrow> (\<forall>r \<in> set rs. 0 \<le> rs_offset r \<and> rs_offset r < 2 ^ 31 \<and> 0 \<le> rs_length r \<and> rs_length r < 2 ^ 31)"

text \<open>The bytes of one range of a packet \<open>q\<close>, counted from its start and from its end.\<close>

definition range_bytes :: "byte list \<Rightarrow> range_select \<Rightarrow> byte list" where
  "range_bytes q r = (let xs = drop (nat (rs_offset r)) q
     in if rs_length r = 0 then xs else take (nat (rs_length r)) xs)"

definition tail_bytes :: "byte list \<Rightarrow> range_select \<Rightarrow> byte list" where
  "tail_bytes q r = (let o' = nat (rs_offset r); xs = drop (length q - o') q
     in if length q < o' then [] else if rs_length r = 0 then xs else take (nat (rs_length r)) xs)"

definition clipped :: "range_select \<Rightarrow> byte list \<Rightarrow> byte list" where
  "clipped r xs = (if rs_length r = 0 then xs else take (nat (rs_length r)) xs)"

lemma clip_write_length:
  assumes "0 \<le> rs_length r" "int (length xs) = avail"
  shows "clip_write r avail l = int (length (take (unat l) (clipped r xs)))"
proof -
  have u: "uint l = int (unat l)" by simp
  show ?thesis
  proof (cases "rs_length r = 0")
    case True
    then show ?thesis unfolding clip_write_def clipped_def Let_def u assms(2) [symmetric]
      by (simp add: of_nat_min)
  next
    case False
    have "rs_length r = int (nat (rs_length r))" using assms(1) by simp
    then have "min (int (length xs)) (rs_length r) = int (min (length xs) (nat (rs_length r)))"
      by (metis of_nat_min)
    moreover have "length (take (unat l) (take (nat (rs_length r)) xs))
        = min (min (length xs) (nat (rs_length r))) (unat l)"
      by (simp add: min.commute min.left_commute)
    ultimately show ?thesis using False
      by (simp only: clip_write_def clipped_def Let_def u assms(2) [symmetric] if_False of_nat_min)
  qed
qed

lemma take_clipped: "take (length (take n (clipped r xs))) xs = take n (clipped r xs)"
  by (auto simp: clipped_def min_def)

text \<open>
  \<open>appended s xs t\<close>: between the states \<open>s\<close> and \<open>t\<close> of a copy loop the bytes \<open>xs\<close> were
  written, as far as the room of \<open>s\<close> allows.
\<close>

definition appended :: "copy_state \<Rightarrow> byte list \<Rightarrow> copy_state \<Rightarrow> bool" where
  "appended s xs t = (case s of (b, w, l) \<Rightarrow> case t of (b', w', l') \<Rightarrow>
     length b' = length b \<and> unat w' = unat w + length (take (unat l) xs)
     \<and> unat l' = unat l - length (take (unat l) xs)
     \<and> take (unat w') b' = take (unat w) b @ take (unat l) xs)"

definition has_room :: "copy_state \<Rightarrow> bool" where
  "has_room s = (case s of (b, w, l) \<Rightarrow> unat w + unat l \<le> length b \<and> length b < 2 ^ 32)"

lemma appended_Nil [simp]: "appended s [] s"
  by (simp add: appended_def split: prod.splits)

lemma appended_trans: "appended s xs t \<Longrightarrow> appended t ys u \<Longrightarrow> appended s (xs @ ys) u"
  by (auto simp: appended_def min_def split: prod.splits)

lemma appended_full: "appended s xs (b, w, l) \<Longrightarrow> \<not> 0 < l \<Longrightarrow> appended s (xs @ ys) (b, w, l)"
  by (auto simp: appended_def min_def word_gt_0 split: prod.splits)

lemma appended_room: "appended s xs t \<Longrightarrow> has_room s \<Longrightarrow> has_room t"
  by (auto simp: appended_def has_room_def min_def split: prod.splits)

lemma copy_clipped:
  assumes ok: "0 \<le> rs_length r" "0 \<le> off" and avail: "nat off + length xs \<le> length p"
    and xs: "xs = take (length xs) (drop (nat off) p)" and room: "has_room (b, w, l)"
  shows "\<exists>t. copy_out p off (clip_write r (int (length xs)) l) (b, w, l) = Some t
     \<and> appended (b, w, l) (clipped r xs) t"
proof -
  let ?c = "take (unat l) (clipped r xs)"
  have n: "clip_write r (int (length xs)) l = int (length ?c)"
    by (rule clip_write_length) (use ok in auto)
  have lc: "length ?c \<le> unat l" by simp
  have lx: "length ?c \<le> length xs" by (auto simp: clipped_def)
  have l16: "unat l < 65536" using unsigned_less [of l, where ?'a = nat] by simp
  have "word_of_int (int (length ?c)) \<le> l"
    using lc l16 by (simp add: word_le_nat_alt unsigned_of_nat take_bit_nat_eq_self del: length_take)
  then have l': "unat (l - word_of_int (int (length ?c))) = unat l - length ?c"
    using lc l16 by (simp add: unat_sub unsigned_of_nat take_bit_nat_eq_self del: length_take)
  have "take (length ?c) (drop (nat off) p) = take (length ?c) xs"
    by (subst xs) (use lx in \<open>simp add: min_absorb1 del: length_take\<close>)
  also have "\<dots> = ?c" by (rule take_clipped)
  finally have t: "take (length ?c) (drop (nat off) p) = ?c" .
  have "length ?c < 4294967296" using lc l16 by linarith
  then have small: "int (length ?c) < 2 ^ 32" by (simp del: length_take)
  have inside: "nat off + nat (int (length ?c)) \<le> length p"
    "unat w + nat (int (length ?c)) \<le> length b" "length b < 2 ^ 32"
    using lx lc avail room unfolding nat_int has_room_def prod.case by linarith+
  from copy_out_eq [OF _ ok(2) small inside, of l] obtain b' where
    "copy_out p off (int (length ?c)) (b, w, l)
       = Some (b', w + word_of_int (int (length ?c)), l - word_of_int (int (length ?c)))"
    "length b' = length b" "unat (w + word_of_int (int (length ?c))) = unat w + length ?c"
    "take (unat w + length ?c) b' = take (unat w) b @ take (length ?c) (drop (nat off) p)"
    by (simp only: nat_int of_nat_0_le_iff simp_thms) blast
  with l' show ?thesis unfolding n t appended_def
    by (intro exI conjI) (assumption | simp only: prod.case)+
qed

text \<open>
  The loops write the selected bytes of the ranges in order until the room is used up. The
  length of the packet fits 16 bits here because the loops receive it so.
\<close>

lemma wrap_packet_length:
  fixes pl :: u16
  assumes "0 \<le> off" "off < 2 ^ 31"
  shows "wrap_int (uint pl - off) = int (unat pl) - off"
proof -
  have pl: "uint pl < 65536" using unsigned_less [of pl, where ?'a = int] by simp
  have pos: "0 \<le> uint pl" by simp
  have o: "off < 2147483648" using assms(2) by simp
  have "wrap_int (uint pl - off) = uint pl - off"
    by (rule wrap_int_id) (use o assms pl pos in linarith)+
  then show ?thesis by simp
qed

lemma select_step:
  fixes pl :: u16
  assumes r: "0 \<le> rs_offset r" "rs_offset r < 2 ^ 31" "0 \<le> rs_length r"
    and q: "unat pl \<le> length p" and room: "has_room (b, w, l)"
  shows "\<exists>t. (let write = wrap_int (uint pl - rs_offset r) in
       if 0 < write then copy_out p (rs_offset r) (clip_write r write l) (b, w, l) else Some (b, w, l)) = Some t
     \<and> appended (b, w, l) (range_bytes (take (unat pl) p) r) t"
proof -
  let ?xs = "drop (nat (rs_offset r)) (take (unat pl) p)"
  have rb: "range_bytes (take (unat pl) p) r = clipped r ?xs"
    by (simp add: range_bytes_def clipped_def Let_def)
  show ?thesis
  proof (cases "rs_offset r < int (unat pl)")
    case True
    have le: "nat (rs_offset r) \<le> unat pl" using True r by linarith
    have "int (length ?xs) = int (unat pl - nat (rs_offset r))" using q by simp
    also have "\<dots> = int (unat pl) - rs_offset r" using r(1) by (simp only: of_nat_diff [OF le] int_nat_eq if_True)
    finally have len: "int (length ?xs) = int (unat pl) - rs_offset r" .
    have "length ?xs = unat pl - nat (rs_offset r)" using q by simp
    then have "nat (rs_offset r) + length ?xs \<le> length p" using q le by linarith
    moreover have "?xs = take (length ?xs) (drop (nat (rs_offset r)) p)"
      using q by (simp add: drop_take)
    ultimately have "\<exists>t. copy_out p (rs_offset r) (clip_write r (int (length ?xs)) l) (b, w, l) = Some t
        \<and> appended (b, w, l) (clipped r ?xs) t"
      by (rule copy_clipped [OF r(3,1) _ _ room])
    moreover have wr: "wrap_int (uint pl - rs_offset r) = int (length ?xs)"
      by (simp only: wrap_packet_length [OF r(1,2), of pl] len)
    moreover have "0 < int (length ?xs)" using True unfolding len by linarith
    ultimately show ?thesis by (simp only: wr rb Let_def if_True)
  next
    case False
    then have "unat pl \<le> nat (rs_offset r)" using r(1) by linarith
    then have "range_bytes (take (unat pl) p) r = []" by (simp add: range_bytes_def Let_def)
    with False show ?thesis unfolding wrap_packet_length [OF r(1,2)] by simp
  qed
qed

lemma select_loop_bytes:
  assumes q: "unat pl \<le> length p"
  shows "ranges_ok rs \<Longrightarrow> has_room (b, w, l) \<Longrightarrow>
    \<exists>b' w' l'. select_loop rs p pl (b, w, l) = Some (b', w')
      \<and> appended (b, w, l) (concat (map (range_bytes (take (unat pl) p)) rs)) (b', w', l')"
proof (induction rs arbitrary: b w l)
  case Nil
  then show ?case by (auto intro: appended_Nil)
next
  case (Cons r rs)
  let ?bs = "concat (map (range_bytes (take (unat pl) p)) rs)"
  from Cons.prems(1) have r: "0 \<le> rs_offset r" "rs_offset r < 2 ^ 31" "0 \<le> rs_length r"
    and rs: "ranges_ok rs" by (auto simp: ranges_ok_def)
  from select_step [OF r q Cons.prems(2)] obtain b1 w1 l1 where
    step: "(let write = wrap_int (uint pl - rs_offset r) in
       if 0 < write then copy_out p (rs_offset r) (clip_write r write l) (b, w, l) else Some (b, w, l)) = Some (b1, w1, l1)"
    and app: "appended (b, w, l) (range_bytes (take (unat pl) p) r) (b1, w1, l1)" by auto
  from Cons.IH [OF rs appended_room [OF app Cons.prems(2)]] obtain b' w' l' where
    rec: "select_loop rs p pl (b1, w1, l1) = Some (b', w')" "appended (b1, w1, l1) ?bs (b', w', l')" by blast
  have eq: "select_loop (r # rs) p pl (b, w, l) =
      (if 0 < l1 then select_loop rs p pl (b1, w1, l1) else Some (b1, w1))"
    using step by (simp add: Let_def)
  show ?case
  proof (cases "0 < l1")
    case True
    with eq rec(1) appended_trans [OF app rec(2)] show ?thesis by auto
  next
    case False
    with eq appended_full [OF app False] show ?thesis by auto
  qed
qed

text \<open>The reverse loop: offsets count from the end.\<close>

lemma reverse_step:
  fixes pl :: u16
  assumes r: "0 \<le> rs_offset r" "0 \<le> rs_length r"
    and q: "unat pl \<le> length p" and room: "has_room (b, w, l)"
  shows "\<exists>t. (if \<not> uint pl < rs_offset r
       then copy_out p (uint pl - rs_offset r) (clip_write r (rs_offset r) l) (b, w, l) else Some (b, w, l)) = Some t
     \<and> appended (b, w, l) (tail_bytes (take (unat pl) p) r) t"
proof -
  have upl: "uint pl = int (unat pl)" by simp
  let ?xs = "drop (unat pl - nat (rs_offset r)) (take (unat pl) p)"
  show ?thesis
  proof (cases "uint pl < rs_offset r")
    case True
    then have "unat pl < nat (rs_offset r)" unfolding upl by linarith
    then have "tail_bytes (take (unat pl) p) r = []" using q by (simp add: tail_bytes_def Let_def)
    with True show ?thesis by simp
  next
    case False
    then have le: "nat (rs_offset r) \<le> unat pl" unfolding upl by linarith
    then have len: "int (length ?xs) = rs_offset r" using q r by simp
    have off: "nat (uint pl - rs_offset r) = unat pl - nat (rs_offset r)" "0 \<le> uint pl - rs_offset r"
      using False r unfolding upl by linarith+
    have rb: "tail_bytes (take (unat pl) p) r = clipped r ?xs"
      using q le by (auto simp: tail_bytes_def clipped_def Let_def)
    have "nat (uint pl - rs_offset r) + length ?xs \<le> length p" using q le off by simp
    moreover have "?xs = take (length ?xs) (drop (nat (uint pl - rs_offset r)) p)"
      using q le unfolding off by (simp add: drop_take)
    ultimately have "\<exists>t. copy_out p (uint pl - rs_offset r) (clip_write r (int (length ?xs)) l) (b, w, l) = Some t
        \<and> appended (b, w, l) (clipped r ?xs) t"
      by (rule copy_clipped [OF r(2) off(2) _ _ room])
    with False show ?thesis unfolding rb len by simp
  qed
qed

lemma select_reverse_loop_bytes:
  assumes q: "unat pl \<le> length p"
  shows "ranges_ok rs \<Longrightarrow> has_room (b, w, l) \<Longrightarrow>
    \<exists>b' w' l'. select_reverse_loop rs p pl (b, w, l) = Some (b', w')
      \<and> appended (b, w, l) (concat (map (tail_bytes (take (unat pl) p)) rs)) (b', w', l')"
proof (induction rs arbitrary: b w l)
  case Nil
  then show ?case by (auto intro: appended_Nil)
next
  case (Cons r rs)
  let ?bs = "concat (map (tail_bytes (take (unat pl) p)) rs)"
  from Cons.prems(1) have r: "0 \<le> rs_offset r" "0 \<le> rs_length r"
    and rs: "ranges_ok rs" by (auto simp: ranges_ok_def)
  from reverse_step [OF r q Cons.prems(2)] obtain b1 w1 l1 where
    step: "(if \<not> uint pl < rs_offset r
       then copy_out p (uint pl - rs_offset r) (clip_write r (rs_offset r) l) (b, w, l) else Some (b, w, l))
         = Some (b1, w1, l1)"
    and app: "appended (b, w, l) (tail_bytes (take (unat pl) p) r) (b1, w1, l1)" by auto
  from Cons.IH [OF rs appended_room [OF app Cons.prems(2)]] obtain b' w' l' where
    rec: "select_reverse_loop rs p pl (b1, w1, l1) = Some (b', w')" "appended (b1, w1, l1) ?bs (b', w', l')" by blast
  have eq: "select_reverse_loop (r # rs) p pl (b, w, l) =
      (if 0 < l1 then select_reverse_loop rs p pl (b1, w1, l1) else Some (b1, w1))"
    using step by (simp add: Let_def)
  show ?case
  proof (cases "0 < l1")
    case True
    with eq rec(1) appended_trans [OF app rec(2)] show ?thesis by auto
  next
    case False
    with eq appended_full [OF app False] show ?thesis by auto
  qed
qed

lemma select_from_bytes:
  assumes b: "buffer_ok b" "unat (b_size b) < 65536" and rs: "ranges_ok rs"
    and len: "unat len < 65536" "unat len \<le> length p"
  shows "\<exists>b'. select_from rs p len b = Some b' \<and> buffer_ok b' \<and> b_size b' = b_size b
    \<and> content b' = take (unat (b_size b)) (concat (map (range_bytes (take (unat len) p)) rs))"
proof -
  have pl: "unat (ucast len :: u16) = unat len" and sz: "unat (ucast (b_size b) :: u16) = unat (b_size b)"
    using len b(2) by (simp_all add: unsigned_ucast_eq take_bit_nat_eq_self)
  have "has_room (b_mem b, 0, ucast (b_size b))"
    using b sz unsigned_less [of "b_size b", where ?'a = nat] by (simp add: has_room_def buffer_ok_def)
  from select_loop_bytes [OF _ rs this, of "ucast len" p] len obtain b' w' l' where
    "select_loop rs p (ucast len) (b_mem b, 0, ucast (b_size b)) = Some (b', w')"
    "appended (b_mem b, 0, ucast (b_size b)) (concat (map (range_bytes (take (unat len) p)) rs)) (b', w', l')"
    unfolding pl by auto
  with b sz show ?thesis
    by (auto simp: select_from_def copyFields_Select_def appended_def content_def buffer_ok_def)
qed

lemma copyFields_Last_bytes:
  assumes b: "buffer_ok b" "unat (b_size b) < 65536" and rs: "ranges_ok rs"
    and len: "unat (p_len p) < 65536" "unat (p_len p) \<le> length (pview p)"
  shows "\<exists>b'. copyFields_Last rs p b h l = Some b' \<and> buffer_ok b' \<and> b_size b' = b_size b
    \<and> content b' = take (unat (b_size b)) (concat (map (tail_bytes (take (unat (p_len p)) (pview p))) rs))"
proof -
  have pl: "unat (ucast (p_len p) :: u16) = unat (p_len p)" and sz: "unat (ucast (b_size b) :: u16) = unat (b_size b)"
    using len b(2) by (simp_all add: unsigned_ucast_eq take_bit_nat_eq_self)
  have "has_room (b_mem b, 0, ucast (b_size b))"
    using b sz unsigned_less [of "b_size b", where ?'a = nat] by (simp add: has_room_def buffer_ok_def)
  from select_reverse_loop_bytes [OF _ rs this, of "ucast (p_len p)" "pview p"] len obtain b' w' l' where
    "select_reverse_loop rs (pview p) (ucast (p_len p)) (b_mem b, 0, ucast (b_size b)) = Some (b', w')"
    "appended (b_mem b, 0, ucast (b_size b))
       (concat (map (tail_bytes (take (unat (p_len p)) (pview p))) rs)) (b', w', l')"
    unfolding pl by auto
  with b sz show ?thesis
    by (auto simp: copyFields_Last_def copyFields_Select_reverse_def appended_def content_def buffer_ok_def)
qed

section \<open>The range language\<close>

datatype range_spec = Whole | At nat | Len nat nat | Colon nat nat | Incl nat nat
  | Excl_Right nat nat | Excl_Left nat nat | Excl_Both nat nat

fun render :: "range_spec \<Rightarrow> string" where
  "render Whole = ''''"
| "render (At a) = dec_string a"
| "render (Len a n) = dec_string a @ CHR ''+'' # dec_string n"
| "render (Colon a n) = dec_string a @ CHR '':'' # dec_string n"
| "render (Incl a b) = dec_string a @ CHR ''-'' # dec_string b"
| "render (Excl_Right a b) = dec_string a @ CHR ''<'' # dec_string b"
| "render (Excl_Left a b) = dec_string a @ CHR ''>'' # dec_string b"
| "render (Excl_Both a b) = dec_string a @ CHR ''^'' # dec_string b"

fun render_list :: "range_spec list \<Rightarrow> string" where
  "render_list [] = ''''"
| "render_list [s] = render s"
| "render_list (s # ss) = render s @ CHR '','' # render_list ss"

fun denote :: "range_spec \<Rightarrow> range_select" where
  "denote Whole = \<lparr>rs_offset = 0, rs_length = 0\<rparr>"
| "denote (At a) = \<lparr>rs_offset = int a, rs_length = 1\<rparr>"
| "denote (Len a n) = \<lparr>rs_offset = int a, rs_length = int n\<rparr>"
| "denote (Colon a n) = \<lparr>rs_offset = int a, rs_length = int n\<rparr>"
| "denote (Incl a b) = \<lparr>rs_offset = int a, rs_length = int (Suc b - a)\<rparr>"
| "denote (Excl_Right a b) = \<lparr>rs_offset = int a, rs_length = int (b - a)\<rparr>"
| "denote (Excl_Left a b) = \<lparr>rs_offset = int (Suc a), rs_length = int (b - a)\<rparr>"
| "denote (Excl_Both a b) = \<lparr>rs_offset = int (Suc a), rs_length = int (b - Suc a)\<rparr>"

text \<open>The numbers of a specification, and the positions it stands for.\<close>

fun nums :: "range_spec \<Rightarrow> nat list" where
  "nums Whole = []"
| "nums (At a) = [a]"
| "nums (Len a n) = [a, n]"
| "nums (Colon a n) = [a, n]"
| "nums (Incl a b) = [a, b]"
| "nums (Excl_Right a b) = [a, b]"
| "nums (Excl_Left a b) = [a, b]"
| "nums (Excl_Both a b) = [a, b]"

definition nums_ok :: "range_spec \<Rightarrow> bool" where
  "nums_ok s \<longleftrightarrow> list_all (\<lambda>n. n < 2147483647) (nums s)"

lemma parse_number:
  assumes "rest = [] \<or> hd rest \<in> set range_seps" and "n < 2147483648"
  shows "strcspn (dec_string n @ rest) range_seps = length (dec_string n)"
    and "atoi (dec_string n @ rest) = int n"
proof -
  have sep: "\<not> c_isdigit c" if "c \<in> set range_seps" for c
    using that by (auto simp: range_seps_def c_isdigit_def)
  show "strcspn (dec_string n @ rest) range_seps = length (dec_string n)"
    using assms(1) sep dec_string_digits by (intro strcspn_append) auto
  show "atoi (dec_string n @ rest) = int n"
    using assms sep by (intro atoi_dec_string) auto
qed

lemma parse_number_step:
  assumes "rest = [] \<or> hd rest \<in> set range_seps" and "n < 2147483648"
  shows "parseRange_loop fin cur sep (dec_string n @ rest) =
    (let r = fix_length (range_step sep (int n) (length (dec_string n)) cur) in
     case rest of [] \<Rightarrow> fin @ [r]
     | c # arg' \<Rightarrow> if c = CHR '','' then parseRange_loop (fin @ [r]) None (Some c) arg'
                  else parseRange_loop fin (Some r) (Some c) arg')"
  by (subst parseRange_loop.simps) (simp add: parse_number [OF assms] Let_def)

lemma parse_number_end:
  "n < 2147483648 \<Longrightarrow> parseRange_loop fin cur sep (dec_string n)
     = fin @ [fix_length (range_step sep (int n) (length (dec_string n)) cur)]"
  using parse_number_step [of "[]" n fin cur sep] by simp

lemma new_range_dec: "new_range (int a) (length (dec_string a)) = \<lparr>rs_offset = int a, rs_length = 1\<rparr>"
  by (simp add: new_range_def)

lemma range_step_first:
  "sep = None \<or> sep = Some CHR '','' \<Longrightarrow> range_step sep v len None = new_range v len"
  by auto

lemma wrap_int_sub: "a < 2147483648 \<Longrightarrow> b < 2147483648 \<Longrightarrow> wrap_int (int a - int b) = int a - int b"
  by (rule wrap_int_id) auto

lemma atoi_empty: "rest = [] \<or> hd rest = CHR '','' \<Longrightarrow> atoi rest = 0"
  by (cases rest) (auto simp: atoi_def strtol10_def c_isspace_def c_isdigit_def dec_value_def clamp_long_def wrap_int_def)

lemma parse_spec:
  assumes "nums_ok s" "rest = [] \<or> hd rest = CHR '',''" "sep = None \<or> sep = Some CHR '',''"
  shows "parseRange_loop fin None sep (render s @ rest) =
    (case rest of [] \<Rightarrow> fin @ [denote s]
     | c # arg' \<Rightarrow> parseRange_loop (fin @ [denote s]) None (Some CHR '','') arg')"
proof (cases s)
  case Whole
  have "strcspn rest range_seps = 0"
    using assms(2) by (cases rest) (auto simp: strcspn_def range_seps_def)
  with Whole assms show ?thesis
    by (subst parseRange_loop.simps)
       (auto simp: atoi_empty range_step_first new_range_def fix_length_def Let_def split: list.splits)
qed (use assms in \<open>auto simp: parse_number_step parse_number_end range_step_first new_range_dec fix_length_def Let_def
       nums_ok_def range_seps_def wrap_int_sub wrap_int_id algebra_simps split: list.splits\<close>)

lemma parse_specs:
  "ss \<noteq> [] \<Longrightarrow> \<forall>s \<in> set ss. nums_ok s \<Longrightarrow> sep = None \<or> sep = Some CHR '','' \<Longrightarrow>
     parseRange_loop fin None sep (render_list ss) = fin @ map denote ss"
proof (induction ss arbitrary: fin sep rule: render_list.induct)
  case (2 s)
  then show ?case using parse_spec [of s "[]" sep fin] by simp
next
  case (3 s s' ss)
  then show ?case using parse_spec [of s "CHR '','' # render_list (s' # ss)" sep fin] by simp
qed simp

text \<open>The positions a specification stands for, and the specifications whose range is not empty.\<close>

fun spec_pos :: "range_spec \<Rightarrow> nat \<Rightarrow> bool" where
  "spec_pos Whole i \<longleftrightarrow> True"
| "spec_pos (At a) i \<longleftrightarrow> i = a"
| "spec_pos (Len a n) i \<longleftrightarrow> a \<le> i \<and> i < a + n"
| "spec_pos (Colon a n) i \<longleftrightarrow> a \<le> i \<and> i < a + n"
| "spec_pos (Incl a b) i \<longleftrightarrow> a \<le> i \<and> i \<le> b"
| "spec_pos (Excl_Right a b) i \<longleftrightarrow> a \<le> i \<and> i < b"
| "spec_pos (Excl_Left a b) i \<longleftrightarrow> a < i \<and> i \<le> b"
| "spec_pos (Excl_Both a b) i \<longleftrightarrow> a < i \<and> i < b"

fun spec_nonempty :: "range_spec \<Rightarrow> bool" where
  "spec_nonempty Whole \<longleftrightarrow> True"
| "spec_nonempty (At a) \<longleftrightarrow> True"
| "spec_nonempty (Len a n) \<longleftrightarrow> 0 < n"
| "spec_nonempty (Colon a n) \<longleftrightarrow> 0 < n"
| "spec_nonempty (Incl a b) \<longleftrightarrow> a \<le> b"
| "spec_nonempty (Excl_Right a b) \<longleftrightarrow> a < b"
| "spec_nonempty (Excl_Left a b) \<longleftrightarrow> a < b"
| "spec_nonempty (Excl_Both a b) \<longleftrightarrow> Suc a < b"

definition spec_bytes :: "byte list \<Rightarrow> range_spec \<Rightarrow> byte list" where
  "spec_bytes q s = map (\<lambda>i. q ! i) (filter (spec_pos s) [0..<length q])"

lemma filter_interval: "filter (\<lambda>i. a \<le> i \<and> i < b) [0..<n] = [a..<min b n]"
proof (induction n)
  case (Suc n)
  show ?case
  proof (cases "a \<le> n \<and> n < b")
    case True
    then have "min b n = n" "min b (Suc n) = Suc n" by auto
    with True Suc show ?thesis by simp
  next
    case False
    with Suc show ?thesis by (auto simp: min_def)
  qed
qed simp

lemma bytes_interval:
  "map (\<lambda>i. q ! i) (filter (\<lambda>i. a \<le> i \<and> i < b) [0..<length q]) = take (b - a) (drop a q)"
  unfolding filter_interval
  by (rule nth_equalityI) (auto simp: min_def split: if_splits)

lemma range_bytes_denote:
  assumes "spec_nonempty s"
  shows "range_bytes q (denote s) = spec_bytes q s"
proof -
  have *: "spec_bytes q s = take (b - a) (drop a q)"
    if "\<And>i. spec_pos s i \<longleftrightarrow> a \<le> i \<and> i < b" for a b
  proof -
    have "spec_pos s = (\<lambda>i. a \<le> i \<and> i < b)" using that by auto
    then show ?thesis using bytes_interval [of q a b] by (simp add: spec_bytes_def)
  qed
  have n: "nat (int b - int a) = b - a" "nat (int b - (1 + int a)) = b - Suc a" for a b by linarith+
  show ?thesis
  proof (cases s)
    case Whole
    then show ?thesis by (simp add: spec_bytes_def range_bytes_def Let_def map_nth)
  next
    case (At a)
    then have "spec_bytes q s = take (Suc a - a) (drop a q)" by (intro *) auto
    with At show ?thesis by (simp add: range_bytes_def Let_def)
  next
    case (Len a n)
    then show ?thesis using * [of a "a + n"] assms by (simp add: range_bytes_def Let_def)
  next
    case (Colon a n)
    then show ?thesis using * [of a "a + n"] assms by (simp add: range_bytes_def Let_def)
  next
    case (Incl a b)
    then have "spec_bytes q s = take (Suc b - a) (drop a q)" by (intro *) auto
    moreover have "nat (1 + int b - int a) = Suc b - a" by linarith
    ultimately show ?thesis using Incl assms by (simp add: range_bytes_def Let_def)
  next
    case (Excl_Right a b)
    then show ?thesis using * [of a b] assms by (auto simp: range_bytes_def Let_def n)
  next
    case (Excl_Left a b)
    then have "spec_bytes q s = take (Suc b - Suc a) (drop (Suc a) q)" by (intro *) auto
    with Excl_Left assms show ?thesis
      by (auto simp: range_bytes_def Let_def nat_add_distrib Suc_nat_eq_nat_zadd1 n)
  next
    case (Excl_Both a b)
    then have "spec_bytes q s = take (b - Suc a) (drop (Suc a) q)" by (intro *) auto
    with Excl_Both assms show ?thesis
      by (auto simp: range_bytes_def Let_def nat_add_distrib Suc_nat_eq_nat_zadd1 n)
  qed
qed

lemma ranges_ok_denote: "\<forall>s \<in> set ss. nums_ok s \<and> spec_nonempty s \<Longrightarrow> ranges_ok (map denote ss)"
proof -
  have "ranges_ok [denote s]" if "nums_ok s" "spec_nonempty s" for s
    using that by (cases s) (auto simp: nums_ok_def ranges_ok_def)
  then show "\<forall>s \<in> set ss. nums_ok s \<and> spec_nonempty s \<Longrightarrow> ranges_ok (map denote ss)"
    by (auto simp: ranges_ok_def)
qed

text \<open>Whatever the argument, the parser returns a non-empty list whose lengths are not negative.\<close>

lemma fix_length_nonneg: "0 \<le> rs_length (fix_length r)"
  by (simp add: fix_length_def)

lemma parseRange_loop_wf:
  "\<forall>r \<in> set fin. 0 \<le> rs_length r \<Longrightarrow>
     parseRange_loop fin cur sep arg \<noteq> [] \<and> (\<forall>r \<in> set (parseRange_loop fin cur sep arg). 0 \<le> rs_length r)"
proof (induction fin cur sep arg rule: parseRange_loop.induct)
  case (1 fin cur sep arg)
  let ?v = "if 0 > atoi arg then 0 else atoi arg"
  let ?r = "fix_length (range_step sep ?v (strcspn arg range_seps) cur)"
  show ?case
  proof (cases "drop (strcspn arg range_seps) arg")
    case Nil
    with "1.prems" show ?thesis
      by (subst (1 2) parseRange_loop.simps) (auto simp: Let_def fix_length_nonneg)
  next
    case (Cons c arg')
    then show ?thesis
      using "1.IH" [OF refl refl refl refl Cons] "1.prems"
      by (subst (1 2) parseRange_loop.simps) (auto simp: Let_def fix_length_nonneg)
  qed
qed

section \<open>Sizes of the fixed selections\<close>

text \<open>What the network-header selection of IPv4 and IPv6 copies.\<close>

definition net_fields :: "byte list \<Rightarrow> nat \<Rightarrow> layers \<Rightarrow> byte list" where
  "net_fields p net l =
     (if lay_net l = N_IP then take 8 (drop net p) @ take 1 (drop (net + 9) p) @ take 8 (drop (net + 12) p)
      else if lay_net l = N_IP6 then take 7 (drop net p) @ take 32 (drop (net + 8) p)
      else [])"

definition net_need :: "layers \<Rightarrow> nat \<times> nat" where
  "net_need l = (if lay_net l = N_IP then (20, 17) else if lay_net l = N_IP6 then (40, 39) else (0, 0))"

lemma append_packet_run:
  assumes "buffer_ok b" "append_packet b p off n = Some b'"
  shows "off + unat n \<le> length p \<and> unat (b_len b) + unat n \<le> unat (b_size b) \<and> buffer_ok b'
    \<and> b_size b' = b_size b \<and> unat (b_len b') = unat (b_len b) + unat n
    \<and> content b' = content b @ take (unat n) (drop off p)"
proof -
  have fits: "off + unat n \<le> length p" "unat (b_len b) + unat n \<le> unat (b_size b)"
    using append_packet_None [OF assms(1), of p off n] assms(2) by (auto simp: not_le [symmetric])
  from append_packet_Some [OF assms(1) fits] assms(2) have
    b': "buffer_ok b'" "b_size b' = b_size b" "content b' = content b @ take (unat n) (drop off p)" by auto
  have len: "length (content b) = unat (b_len b)" "length (content b') = unat (b_len b')"
    using assms(1) b'(1) by (simp_all add: content_def buffer_ok_def)
  with b'(3) fits have "unat (b_len b') = unat (b_len b) + unat n" by simp
  with fits b' show ?thesis by simp
qed

text \<open>A sequence of appends, as a list of source offsets and counts.\<close>

fun appends :: "buffer \<Rightarrow> byte list \<Rightarrow> (nat \<times> u32) list \<Rightarrow> buffer option" where
  "appends b p [] = Some b"
| "appends b p ((off, n) # fs) = do { b \<leftarrow> append_packet b p off n; appends b p fs }"

definition pieces :: "byte list \<Rightarrow> (nat \<times> u32) list \<Rightarrow> byte list" where
  "pieces p fs = concat (map (\<lambda>(off, n). take (unat n) (drop off p)) fs)"

definition fits :: "buffer \<Rightarrow> byte list \<Rightarrow> (nat \<times> u32) list \<Rightarrow> bool" where
  "fits b p fs \<longleftrightarrow> list_all (\<lambda>(off, n). off + unat n \<le> length p) fs
     \<and> unat (b_len b) + sum_list (map (unat \<circ> snd) fs) \<le> unat (b_size b)"

lemma appends_iff:
  "buffer_ok b \<Longrightarrow> (\<exists>b'. appends b p fs = Some b') \<longleftrightarrow> fits b p fs"
proof (induction fs arbitrary: b)
  case Nil
  then show ?case by (simp add: fits_def buffer_ok_def)
next
  case (Cons f fs)
  obtain off n where f: "f = (off, n)" by force
  show ?case
  proof (cases "append_packet b p off n")
    case None
    have "\<not> (off + unat n \<le> length p \<and> unat (b_len b) + unat n \<le> unat (b_size b))"
      using append_packet_Some [OF Cons.prems, of off n p] None by auto
    with None show ?thesis by (auto simp: f fits_def)
  next
    case (Some b1)
    from append_packet_run [OF Cons.prems Some] have
      run: "off + unat n \<le> length p" "buffer_ok b1" "b_size b1 = b_size b" "unat (b_len b1) = unat (b_len b) + unat n"
      by auto
    from Cons.IH [OF run(2)] run Some show ?thesis by (simp add: f fits_def add.assoc)
  qed
qed

lemma appends_content:
  "buffer_ok b \<Longrightarrow> appends b p fs = Some b' \<Longrightarrow>
     buffer_ok b' \<and> b_size b' = b_size b \<and> content b' = content b @ pieces p fs"
proof (induction fs arbitrary: b)
  case (Cons f fs)
  obtain off n where f: "f = (off, n)" by force
  with Cons.prems obtain b1 where b1: "append_packet b p off n = Some b1" "appends b1 p fs = Some b'"
    by (auto simp: bind_Some_conv)
  from append_packet_run [OF Cons.prems(1) b1(1)] Cons.IH [OF _ b1(2)] show ?case
    by (simp add: f pieces_def)
qed (simp add: pieces_def)

definition net_pieces :: "nat \<Rightarrow> layers \<Rightarrow> (nat \<times> u32) list" where
  "net_pieces net l = (if lay_net l = N_IP then [(net, 8), (net + 9, 1), (net + 12, 8)]
     else if lay_net l = N_IP6 then [(net, 7), (net + 8, 32)] else [])"

lemma copy_NetFields_appends:
  "copy_NetFields p b h l = appends b (pview p) (net_pieces (unat (L_NET h)) l)"
  by (simp add: copy_NetFields_def net_pieces_def Let_def)

lemma bind_appends: "appends b p fs \<bind> (\<lambda>b. appends b p gs) = appends b p (fs @ gs)"
proof (induction b p fs rule: appends.induct)
  case (2 b p off n fs)
  then show ?case by (cases "append_packet b p off n") simp_all
qed simp

lemma copyFields_Packet_appends:
  "copyFields_Packet p b h l = appends b (pview p)
     (net_pieces (unat (L_NET h)) l @ [(unat (L_NET h) + 20, hash_min_u (p_len p - 20) 50)])"
  unfolding copyFields_Packet_def copy_NetFields_appends bind_appends [symmetric] by simp

section \<open>Properties\<close>

text \<open>C22: A selection followed by a hash is a function of the packet: from two well-formed
  buffers of one size that hold the same used bytes (none, when the packet handler has reset
  them) every selection function and every hash function give the same value, whatever an
  earlier packet left behind the used bytes; and a selection that succeeds leaves a buffer that
  hashes without a fault.\<close>

theorem selection_hash_not_stale:
  assumes "buffer_ok b1" "buffer_ok b2" "b_size b1 = b_size b2" "b_len b1 = 0" "b_len b2 = 0"
    and "call_selection f rs p b1 h l = Some b1'"
  shows "\<exists>b2' v. call_selection f rs p b2 h l = Some b2' \<and> call_hash g b1' = Some v \<and> call_hash g b2' = Some v"
  by (rule sampling.select_then_hash [of "b_size b1" b1 b2 f rs p h l b1'])
     (use assms in \<open>simp_all add: bsim_def content_def\<close>)

theorem selection_hash_not_stale_witness:
  "\<exists>b2' v. call_selection Sel_Raw [\<lparr>rs_offset = 1, rs_length = 0\<rparr>] \<lparr>p_mem = [5, 6, 7], p_ptr = 0, p_len = 3\<rparr>
       \<lparr>b_mem = [9, 9], b_len = 0, b_size = 2\<rparr> no_offsets no_layers = Some b2'
     \<and> call_hash BOB \<lparr>b_mem = [6, 7], b_len = 2, b_size = 2\<rparr> = Some v \<and> call_hash BOB b2' = Some v"
  by (rule selection_hash_not_stale [of "\<lparr>b_mem = [0, 0], b_len = 0, b_size = 2\<rparr>"])
     (code_simp, code_simp, simp, simp, simp, code_simp)

text \<open>C23: The range parser understands every list it documents: for a non-empty list of
  specifications with numbers below \<open>2 ^ 31 - 1\<close>, parsing the printed list gives the offset
  and length of each one, in order.\<close>

theorem range_list_roundtrip:
  assumes "ss \<noteq> []" and "\<forall>s \<in> set ss. nums_ok s"
  shows "parseRange (render_list ss) = map denote ss"
  using parse_specs [OF assms, of None "[]"] by (simp add: parseRange_def)

theorem range_list_roundtrip_witness:
  "parseRange ''20+4,5-9,0^3'' = [\<lparr>rs_offset = 20, rs_length = 4\<rparr>, \<lparr>rs_offset = 5, rs_length = 5\<rparr>,
     \<lparr>rs_offset = 1, rs_length = 2\<rparr>]"
  using range_list_roundtrip [of "[Len 20 4, Incl 5 9, Excl_Both 0 3]"]
  by (simp add: nums_ok_def dec_string.simps char_of_def bit_Suc_0_iff)

text \<open>C14: Ranges select what they say: with a parsed list of non-empty specifications the raw
  selection puts into the hash buffer the bytes of the packet at the positions of each
  specification, in order, cut at the size of the buffer, and makes no access outside the
  packet or the buffer.\<close>

theorem raw_selects_positions:
  assumes "ss \<noteq> []" and "\<forall>s \<in> set ss. nums_ok s \<and> spec_nonempty s"
    and "buffer_ok b" "unat (b_size b) < 65536"
    and "unat (p_len p) < 65536" "unat (p_len p) \<le> length (pview p)"
  shows "\<exists>b'. copyFields_Raw (parseRange (render_list ss)) p b h l = Some b' \<and> buffer_ok b'
    \<and> content b' = take (unat (b_size b)) (concat (map (spec_bytes (take (unat (p_len p)) (pview p))) ss))"
proof -
  have eq: "map (range_bytes q \<circ> denote) ss = map (spec_bytes q) ss" for q
    using assms(2) by (simp add: range_bytes_denote)
  have "parseRange (render_list ss) = map denote ss"
    using parse_specs [of ss None "[]"] assms(1,2) by (simp add: parseRange_def)
  with select_from_bytes [OF assms(3,4) ranges_ok_denote [OF assms(2)] assms(5,6)] show ?thesis
    by (auto simp: copyFields_Raw_def eq)
qed

theorem raw_selects_positions_witness:
  "\<exists>b'. copyFields_Raw (parseRange (render_list [At 2, Excl_Right 0 2]))
          \<lparr>p_mem = [5, 6, 7], p_ptr = 0, p_len = 3\<rparr> \<lparr>b_mem = [0, 0, 0, 0], b_len = 0, b_size = 4\<rparr>
          no_offsets no_layers = Some b' \<and> buffer_ok b' \<and> content b' = [7, 5, 6]"
  using raw_selects_positions [of "[At 2, Excl_Right 0 2]" "\<lparr>b_mem = [0, 0, 0, 0], b_len = 0, b_size = 4\<rparr>"
      "\<lparr>p_mem = [5, 6, 7], p_ptr = 0, p_len = 3\<rparr>" no_offsets no_layers]
  by (simp add: nums_ok_def buffer_ok_def pview_def spec_bytes_def upt_rec)

text \<open>The selection from the end: with ranges of non-negative offset and length it copies,
  for each range, the bytes from \<open>offset\<close> before the end of the packet on, cut at the length
  of the range, and skips a range that reaches before the packet.\<close>

theorem last_selects_tail:
  assumes "ranges_ok rs" and "buffer_ok b" "unat (b_size b) < 65536"
    and "unat (p_len p) < 65536" "unat (p_len p) \<le> length (pview p)"
  shows "\<exists>b'. copyFields_Last rs p b h l = Some b' \<and> buffer_ok b'
    \<and> content b' = take (unat (b_size b)) (concat (map (tail_bytes (take (unat (p_len p)) (pview p))) rs))"
  using copyFields_Last_bytes [OF assms(2,3,1,4,5)] by blast

theorem last_selects_tail_witness:
  "\<exists>b'. copyFields_Last [\<lparr>rs_offset = 2, rs_length = 1\<rparr>, \<lparr>rs_offset = 9, rs_length = 0\<rparr>]
          \<lparr>p_mem = [5, 6, 7], p_ptr = 0, p_len = 3\<rparr> \<lparr>b_mem = [0, 0, 0, 0], b_len = 0, b_size = 4\<rparr>
          no_offsets no_layers = Some b' \<and> buffer_ok b' \<and> content b' = [6]"
  using last_selects_tail [of "[\<lparr>rs_offset = 2, rs_length = 1\<rparr>, \<lparr>rs_offset = 9, rs_length = 0\<rparr>]"
      "\<lparr>b_mem = [0, 0, 0, 0], b_len = 0, b_size = 4\<rparr>" "\<lparr>p_mem = [5, 6, 7], p_ptr = 0, p_len = 3\<rparr>"
      no_offsets no_layers]
  by (simp add: ranges_ok_def buffer_ok_def pview_def tail_bytes_def)

text \<open>The network-header selection of an IPv4 or IPv6 packet succeeds exactly when the
  header (20 or 40 bytes) lies in the packet and the copied bytes (17 or 39) fit the buffer, and
  then it appends the header without the fields that change between hops: TTL and checksum, or
  the hop limit.\<close>

theorem net_selection_exact:
  assumes "buffer_ok b" and "lay_net l = N_IP \<or> lay_net l = N_IP6"
  shows "(case copyFields_Only_Net p b h l of
      None \<Rightarrow> \<not> (unat (L_NET h) + fst (net_need l) \<le> length (pview p)
                \<and> unat (b_len b) + snd (net_need l) \<le> unat (b_size b))
    | Some b' \<Rightarrow> unat (L_NET h) + fst (net_need l) \<le> length (pview p)
        \<and> unat (b_len b) + snd (net_need l) \<le> unat (b_size b)
        \<and> content b' = content b @ net_fields (pview p) (unat (L_NET h)) l)"
proof -
  let ?fs = "net_pieces (unat (L_NET h)) l"
  have "fits b (pview p) ?fs \<longleftrightarrow> unat (L_NET h) + fst (net_need l) \<le> length (pview p)
      \<and> unat (b_len b) + snd (net_need l) \<le> unat (b_size b)"
    using assms(2) by (auto simp: fits_def net_pieces_def net_need_def)
  moreover have "pieces (pview p) ?fs = net_fields (pview p) (unat (L_NET h)) l"
    using assms(2) by (auto simp: pieces_def net_pieces_def net_fields_def)
  ultimately show ?thesis
    using appends_iff [OF assms(1), of "pview p" ?fs] appends_content [OF assms(1), of "pview p" ?fs]
    by (auto simp: copyFields_Only_Net_def copy_NetFields_appends split: option.splits)
qed

theorem net_selection_exact_witness:
  "\<exists>b'. copyFields_Only_Net \<lparr>p_mem = replicate 20 0, p_ptr = 0, p_len = 20\<rparr>
     \<lparr>b_mem = replicate 17 0, b_len = 0, b_size = 17\<rparr> no_offsets (no_layers\<lparr>lay_net := N_IP\<rparr>) = Some b'"
  using net_selection_exact [where b = "\<lparr>b_mem = replicate 17 0, b_len = 0, b_size = 17\<rparr>"
      and l = "no_layers\<lparr>lay_net := N_IP\<rparr>" and p = "\<lparr>p_mem = replicate 20 0, p_ptr = 0, p_len = 20\<rparr>"
      and h = no_offsets]
  by (simp add: buffer_ok_def net_need_def no_offsets_def no_layers_def pview_def split: option.splits)

text \<open>The whole-packet selection of an IPv6 packet of at least 70 bytes writes past the
  hash buffer whenever the buffer holds fewer than 89 bytes; the default snap length, from which
  the buffer is allocated, is 80.\<close>

theorem packet_selection_overflow:
  assumes "buffer_ok b" "b_len b = 0" "unat (b_size b) < 89"
    and "lay_net l = N_IP6" "70 \<le> unat (p_len p)"
  shows "copyFields_Packet p b h l = None"
proof -
  have "unat (p_len p - 20) = unat (p_len p) - 20"
    using assms(5) by (subst unat_sub) (simp_all add: word_le_nat_alt)
  then have "hash_min_u (p_len p - 20) 50 = 50"
    using assms(5) by (auto simp: hash_min_u_def word_less_nat_alt)
  then have "\<not> fits b (pview p) (net_pieces (unat (L_NET h)) l
      @ [(unat (L_NET h) + 20, hash_min_u (p_len p - 20) 50)])"
    using assms by (simp add: fits_def net_pieces_def)
  then show ?thesis
    using appends_iff [OF assms(1)] by (metis copyFields_Packet_appends not_None_eq)
qed

theorem packet_selection_overflow_witness:
  "copyFields_Packet \<lparr>p_mem = replicate 100 0, p_ptr = 0, p_len = 100\<rparr>
     \<lparr>b_mem = replicate 80 0, b_len = 0, b_size = 80\<rparr> no_offsets (no_layers\<lparr>lay_net := N_IP6\<rparr>) = None"
  by (rule packet_selection_overflow) (simp_all add: buffer_ok_def no_layers_def)

end
