(* ===== verification/Headers.thy ===== *)
theory Headers
  imports Selection_Props
begin

unbundle bit_operations_syntax

text \<open>
  Finding the protocol layers of a packet (\<^verbatim>\<open>findHeaders\<close> in \<^verbatim>\<open>src/hash.c\<close>).

  The function counts in \<^verbatim>\<open>int\<close>; the model counts in natural numbers. A packet object has
  fewer than \<open>2 ^ 31\<close> bytes, so a read outside it (\<open>None\<close>) comes before any wrap-around.
\<close>

section \<open>The code\<close>

abbreviation (input) IP6HDR_HOP :: byte where "IP6HDR_HOP \<equiv> 0"
abbreviation (input) IP6HDR_ROUTE :: byte where "IP6HDR_ROUTE \<equiv> 43"
abbreviation (input) IP6HDR_FRAG :: byte where "IP6HDR_FRAG \<equiv> 44"
abbreviation (input) IP6HDR_DEST :: byte where "IP6HDR_DEST \<equiv> 60"
abbreviation (input) IP6HDR_AH :: byte where "IP6HDR_AH \<equiv> 51"

definition is_ip6_ext :: "byte \<Rightarrow> bool" where
  "is_ip6_ext proto \<longleftrightarrow> proto = IP6HDR_HOP \<or> proto = IP6HDR_ROUTE \<or> proto = IP6HDR_FRAG
     \<or> proto = IP6HDR_AH \<or> proto = IP6HDR_DEST"

definition ip6_ext_len :: "byte \<Rightarrow> byte \<Rightarrow> nat" where
  "ip6_ext_len proto v = (if proto \<noteq> IP6HDR_AH then unat v * 8 + 8 else unat v * 4 + 8)"

text \<open>The \<^verbatim>\<open>while\<close> loop that skips IPv6 extension headers.\<close>

function ip6_skip :: "byte list \<Rightarrow> nat \<Rightarrow> nat \<Rightarrow> byte \<Rightarrow> (nat \<times> byte) option" where
  "ip6_skip packet net offs proto =
     (if is_ip6_ext proto then do {
        v \<leftarrow> rd8 packet (net + offs + 1);
        let offs' = offs + ip6_ext_len proto v;
        proto' \<leftarrow> rd8 packet (net + offs');
        ip6_skip packet net offs' proto' }
      else Some (offs, proto))"
  by pat_completeness auto
termination
  by (relation "measure (\<lambda>(packet, net, offs, proto). length packet - offs)")
     (auto simp: rd8_eq_Some ip6_ext_len_def)

declare ip6_skip.simps [simp del]

text \<open>
  The part after the network layer: \<open>offs\<close> is the start of the transport header, and the
  \<^verbatim>\<open>switch\<close> on the supported protocols gives the end of that header.
\<close>

definition transport_end :: "byte list \<Rightarrow> nat \<Rightarrow> nat \<Rightarrow> byte \<Rightarrow> nat option" where
  "transport_end packet packetLength offs proto =
     (if proto = T_ICMP \<or> proto = T_ICMP6 then Some (offs + 4)
      else if proto = T_UDP then Some (offs + 8)
      else if offs + 12 \<le> packetLength then do {
        v \<leftarrow> rd8 packet (offs + 12);
        Some (offs + unat (drop_bit 2 (v AND 0xF0))) }
      else Some offs)"

definition find_transport :: "byte list \<Rightarrow> nat \<Rightarrow> nat \<Rightarrow> byte \<Rightarrow> offsets \<Rightarrow> layers \<Rightarrow> (offsets \<times> layers) option" where
  "find_transport packet packetLength offs proto headerOffset layers =
     (if \<not> offs < packetLength then Some (headerOffset, layers)
      else let headerOffset = headerOffset\<lparr>L_TRANS := word_of_nat offs\<rparr>;
               layers = layers\<lparr>lay_trans := proto\<rparr>
      in if proto \<noteq> T_ICMP \<and> proto \<noteq> T_ICMP6 \<and> proto \<noteq> T_UDP \<and> proto \<noteq> T_TCP
         then Some (headerOffset, layers)
         else do {
           offs \<leftarrow> transport_end packet packetLength offs proto;
           Some (if offs < packetLength then headerOffset\<lparr>L_PAYLOAD := word_of_nat offs\<rparr> else headerOffset,
                 layers) })"

definition findHeaders :: "byte list \<Rightarrow> u16 \<Rightarrow> offsets \<Rightarrow> layers \<Rightarrow> (offsets \<times> layers) option" where
  "findHeaders packet packetLength headerOffset layers =
     (let net = unat (L_NET headerOffset); pl = unat packetLength;
          headerOffset = headerOffset\<lparr>L_TRANS := no_offset, L_PAYLOAD := no_offset\<rparr> in do {
       b0 \<leftarrow> rd8 packet net;
       if b0 AND 0xF0 = 0x60 then do {
         proto \<leftarrow> rd8 packet (net + 6);
         (offs, proto) \<leftarrow> ip6_skip packet net (net + 40) proto;
         find_transport packet pl offs proto headerOffset (layers\<lparr>lay_net := N_IP6\<rparr>) }
       else if b0 AND 0xF0 = 0x40 then do {
         proto \<leftarrow> rd8 packet (net + 9);
         find_transport packet pl (net + unat (push_bit 2 (b0 AND 0x0F))) proto headerOffset
           (layers\<lparr>lay_net := N_IP\<rparr>) }
       else Some (headerOffset, layers\<lparr>lay_net := N_UNKNOWN\<rparr>) })"

section \<open>Offsets stay inside the packet\<close>

definition offsets_ok :: "nat \<Rightarrow> offsets \<Rightarrow> bool" where
  "offsets_ok pl h \<longleftrightarrow> (L_TRANS h = no_offset \<and> L_PAYLOAD h = no_offset \<or>
     unat (L_TRANS h) < pl \<and> (L_PAYLOAD h = no_offset \<or> L_TRANS h \<le> L_PAYLOAD h \<and> unat (L_PAYLOAD h) < pl))"

lemma unat_word_of_nat32: "n < 65536 \<Longrightarrow> unat (word_of_nat n :: u32) = n"
  by (simp add: unsigned_of_nat take_bit_nat_eq_self)

lemma transport_end_ge: "transport_end p pl offs proto = Some e \<Longrightarrow> offs \<le> e"
  by (auto simp: transport_end_def bind_Some_conv split: if_splits)

lemma find_transport_cases:
  assumes "find_transport p pl offs proto h l = Some (h', l')"
  obtains "\<not> offs < pl" "h' = h" "l' = l"
  | "offs < pl" "h' = h\<lparr>L_TRANS := word_of_nat offs\<rparr>" "l' = l\<lparr>lay_trans := proto\<rparr>"
  | e where "offs \<le> e" "e < pl" "transport_end p pl offs proto = Some e"
      "h' = h\<lparr>L_TRANS := word_of_nat offs, L_PAYLOAD := word_of_nat e\<rparr>" "l' = l\<lparr>lay_trans := proto\<rparr>"
  using assms transport_end_ge [of p pl offs proto]
  by (auto simp: find_transport_def Let_def bind_Some_conv split: if_splits)

lemma find_transport_offsets:
  assumes "find_transport p pl offs proto h l = Some (h', l')" "pl < 65536"
    "L_TRANS h = no_offset" "L_PAYLOAD h = no_offset"
  shows "offsets_ok pl h' \<and> L_NET h' = L_NET h \<and> L_LINK h' = L_LINK h \<and> lay_net l' = lay_net l"
  using assms(1)
proof (cases rule: find_transport_cases)
  case 1
  with assms(3,4) show ?thesis by (simp add: offsets_ok_def)
next
  case 2
  with assms(2,4) show ?thesis by (simp add: offsets_ok_def unat_word_of_nat32)
next
  case (3 e)
  with assms(2) show ?thesis by (simp add: offsets_ok_def unat_word_of_nat32 word_le_nat_alt)
qed

text \<open>How a run of \<open>findHeaders\<close> reaches the transport layer.\<close>

lemma findHeaders_cases:
  assumes "findHeaders p pl h l = Some (h', l')"
  obtains (other) b0 where "rd8 p (unat (L_NET h)) = Some b0" "b0 AND 0xF0 \<noteq> 0x60" "b0 AND 0xF0 \<noteq> 0x40"
      "h' = h\<lparr>L_TRANS := no_offset, L_PAYLOAD := no_offset\<rparr>" "l' = l\<lparr>lay_net := N_UNKNOWN\<rparr>"
  | (ip4) b0 proto where "rd8 p (unat (L_NET h)) = Some b0" "b0 AND 0xF0 = 0x40"
      "rd8 p (unat (L_NET h) + 9) = Some proto"
      "find_transport p (unat pl) (unat (L_NET h) + unat (push_bit 2 (b0 AND 0x0F))) proto
         (h\<lparr>L_TRANS := no_offset, L_PAYLOAD := no_offset\<rparr>) (l\<lparr>lay_net := N_IP\<rparr>) = Some (h', l')"
  | (ip6) b0 proto offs proto' where "rd8 p (unat (L_NET h)) = Some b0" "b0 AND 0xF0 = 0x60"
      "rd8 p (unat (L_NET h) + 6) = Some proto"
      "ip6_skip p (unat (L_NET h)) (unat (L_NET h) + 40) proto = Some (offs, proto')"
      "find_transport p (unat pl) offs proto'
         (h\<lparr>L_TRANS := no_offset, L_PAYLOAD := no_offset\<rparr>) (l\<lparr>lay_net := N_IP6\<rparr>) = Some (h', l')"
proof -
  obtain b0 where b0: "rd8 p (unat (L_NET h)) = Some b0"
    using assms by (auto simp: findHeaders_def Let_def bind_Some_conv)
  consider "b0 AND 0xF0 = 0x60" | "b0 AND 0xF0 = 0x40" | "b0 AND 0xF0 \<noteq> 0x60" "b0 AND 0xF0 \<noteq> 0x40" by blast
  then show thesis
  proof cases
    case 1
    with assms b0 show thesis by (auto simp: findHeaders_def Let_def bind_Some_conv intro: ip6)
  next
    case 2
    with assms b0 show thesis by (auto simp: findHeaders_def Let_def bind_Some_conv intro: ip4)
  next
    case 3
    with assms b0 show thesis by (auto simp: findHeaders_def Let_def intro: other)
  qed
qed

lemma findHeaders_offsets:
  assumes "findHeaders p pl h l = Some (h', l')"
  shows "offsets_ok (unat pl) h' \<and> L_NET h' = L_NET h \<and> L_LINK h' = L_LINK h"
proof -
  have pl: "unat pl < 65536" using unsigned_less [of pl, where ?'a = nat] by simp
  from assms show ?thesis
    by (cases rule: findHeaders_cases)
       (auto simp: offsets_ok_def dest!: find_transport_offsets [OF _ pl])
qed

section \<open>Packets that agree on the bytes the search reads\<close>

text \<open>
  \<open>same_but p p' xs\<close>: two packets of one length that may differ at the positions \<open>xs\<close> only.
\<close>

definition same_but :: "byte list \<Rightarrow> byte list \<Rightarrow> nat set \<Rightarrow> bool" where
  "same_but p p' xs \<longleftrightarrow> length p = length p' \<and> (\<forall>i < length p. i \<notin> xs \<longrightarrow> p ! i = p' ! i)"

lemma same_but_rd8: "same_but p p' xs \<Longrightarrow> i \<notin> xs \<Longrightarrow> rd8 p' i = rd8 p i"
  by (auto simp: same_but_def rd8_def)

lemma same_but_slice: 
  "same_but p p' xs \<Longrightarrow> (\<And>j. i \<le> j \<Longrightarrow> j < i + n \<Longrightarrow> j \<notin> xs) \<Longrightarrow> rd_slice p' i n = rd_slice p i n"
  by (cases "i + n \<le> length p") (auto simp: same_but_def rd_slice_def intro: nth_equalityI)

lemma find_transport_same:
  assumes "same_but p p' xs" "offs + 12 \<notin> xs"
  shows "find_transport p' pl offs proto h l = find_transport p pl offs proto h l"
proof -
  have "rd8 p' (offs + 12) = rd8 p (offs + 12)" by (rule same_but_rd8 [OF assms])
  then have "transport_end p' pl offs proto = transport_end p pl offs proto"
    by (simp only: transport_end_def)
  then show ?thesis by (simp only: find_transport_def)
qed

lemma ip6_skip_same:
  "same_but p p' xs \<Longrightarrow> \<forall>i \<in> xs. i \<le> net + offs \<Longrightarrow> ip6_skip p' net offs proto = ip6_skip p net offs proto"
proof (induction p net offs proto rule: ip6_skip.induct)
  case (1 p net offs proto)
  have rd: "rd8 p' (net + offs + 1) = rd8 p (net + offs + 1)"
    by (rule same_but_rd8 [OF "1.prems"(1)]) (use "1.prems"(2) in force)
  show ?case
  proof (cases "is_ip6_ext proto")
    case True
    show ?thesis
    proof (cases "rd8 p (net + offs + 1)")
      case None
      with True rd show ?thesis by (simp add: ip6_skip.simps [of _ net offs])
    next
      case (Some v)
      let ?o = "offs + ip6_ext_len proto v"
      have le: "offs < ?o" by (simp add: ip6_ext_len_def)
      have rd': "rd8 p' (net + ?o) = rd8 p (net + ?o)"
        by (rule same_but_rd8 [OF "1.prems"(1)]) (use "1.prems"(2) le in force)
      show ?thesis
      proof (cases "rd8 p (net + ?o)")
        case None
        with True Some rd rd' show ?thesis by (simp add: ip6_skip.simps [of _ net offs] Let_def)
      next
        case (Some q)
        have "ip6_skip p' net ?o q = ip6_skip p net ?o q"
          by (rule "1.IH" [OF True \<open>rd8 p (net + offs + 1) = Some v\<close> refl Some "1.prems"(1)])
             (use "1.prems"(2) le in force)
        with True Some \<open>rd8 p (net + offs + 1) = Some v\<close> rd rd' show ?thesis
          by (simp add: ip6_skip.simps [of _ net offs] Let_def)
      qed
    qed
  qed (simp add: ip6_skip.simps [of _ net offs])
qed

lemma ip6_skip_ge: "ip6_skip p net offs proto = Some (offs', proto') \<Longrightarrow> offs \<le> offs' \<and> \<not> is_ip6_ext proto'"
proof (induction p net offs proto rule: ip6_skip.induct)
  case (1 p net offs proto)
  show ?case
  proof (cases "is_ip6_ext proto")
    case True
    with "1.prems" obtain v q where v: "rd8 p (net + offs + 1) = Some v"
      "rd8 p (net + (offs + ip6_ext_len proto v)) = Some q"
      "ip6_skip p net (offs + ip6_ext_len proto v) q = Some (offs', proto')"
      by (subst (asm) ip6_skip.simps) (auto simp: Let_def bind_Some_conv)
    from "1.IH" [OF True v(1) refl v(2,3)] show ?thesis by simp
  next
    case False
    with "1.prems" show ?thesis by (simp add: ip6_skip.simps [of p net offs])
  qed
qed

section \<open>Fields that change between hops\<close>

text \<open>TTL and header checksum of IPv4, hop limit of IPv6.\<close>

definition hop_bytes :: "nat \<Rightarrow> byte \<Rightarrow> nat set" where
  "hop_bytes net t = (if t = N_IP then {net + 8, net + 10, net + 11} else {net + 7})"

definition version :: "byte list \<Rightarrow> nat \<Rightarrow> byte" where
  "version p net = (if p ! net AND 0xF0 = 0x60 then N_IP6 else if p ! net AND 0xF0 = 0x40 then N_IP else N_UNKNOWN)"

lemma findHeaders_hop:
  assumes same: "same_but p p' (hop_bytes (unat (L_NET h)) t)"
    and t: "version p (unat (L_NET h)) = t" "t \<noteq> N_UNKNOWN"
  shows "findHeaders p' pl h l = findHeaders p pl h l"
proof -
  let ?n = "unat (L_NET h)"
  have b0: "rd8 p' ?n = rd8 p ?n" by (rule same_but_rd8 [OF same]) (auto simp: hop_bytes_def)
  show ?thesis
  proof (cases "rd8 p ?n")
    case None
    with b0 show ?thesis by (simp add: findHeaders_def Let_def)
  next
    case (Some b)
    then have b: "b = p ! ?n" by (simp add: rd8_eq_Some)
    show ?thesis
    proof (cases "t = N_IP6")
      case True
      have six: "rd8 p' (?n + 6) = rd8 p (?n + 6)"
        by (rule same_but_rd8 [OF same]) (simp add: hop_bytes_def True)
      have skip: "ip6_skip p' ?n (?n + 40) proto = ip6_skip p ?n (?n + 40) proto" for proto
        by (rule ip6_skip_same [OF same]) (simp add: hop_bytes_def True)
      have tr: "find_transport p' (unat pl) offs q h0 l0 = find_transport p (unat pl) offs q h0 l0"
        if "ip6_skip p ?n (?n + 40) proto = Some (offs, q)" for offs q proto h0 l0
        using ip6_skip_ge [OF that] by (intro find_transport_same [OF same]) (simp add: hop_bytes_def True)
      show ?thesis using True t b unfolding findHeaders_def Let_def b0 six skip Some
        by (auto simp: version_def tr intro!: Option.bind_cong split: if_splits)
    next
      case False
      with t have t4: "t = N_IP" by (auto simp: version_def split: if_splits)
      have nine: "rd8 p' (?n + 9) = rd8 p (?n + 9)"
        by (rule same_but_rd8 [OF same]) (simp add: hop_bytes_def t4)
      have "find_transport p' (unat pl) (?n + k) q h0 l0 = find_transport p (unat pl) (?n + k) q h0 l0" for k q h0 l0
        by (rule find_transport_same [OF same]) (simp add: hop_bytes_def t4)
      with t4 t b Some b0 nine show ?thesis
        by (auto simp: findHeaders_def Let_def version_def split: if_splits)
    qed
  qed
qed

lemma append_same:
  assumes "same_but (pview p) (pview p') xs" "\<And>i. i \<in> xs \<Longrightarrow> i < off \<or> off + unat n \<le> i"
  shows "append_packet b (pview p') off n = append_packet b (pview p) off n"
proof -
  have "rd_slice (pview p') off (unat n) = rd_slice (pview p) off (unat n)"
    by (rule same_but_slice [OF assms(1)]) (use assms(2) in force)
  then show ?thesis by (simp add: append_packet_def)
qed

lemma drop_same:
  assumes "same_but p p' xs" "\<forall>i \<in> xs. i < off"
  shows "drop off p' = drop off p"
proof (rule nth_equalityI)
  fix i assume i: "i < length (drop off p')"
  have "off + i \<notin> xs" using assms(2) not_add_less1 by blast
  with assms(1) i show "drop off p' ! i = drop off p ! i" by (simp add: same_but_def)
qed (use assms(1) in \<open>simp add: same_but_def\<close>)

definition skips_hop_bytes :: "sel_fn \<Rightarrow> bool" where
  "skips_hop_bytes f \<longleftrightarrow> f = Sel_Rec \<or> f = Sel_Only_Net \<or> f = Sel_U_TCP_and_Net \<or> f = Sel_Packet
     \<or> f = Sel_Trans \<or> f = Sel_Payload"

definition above_net :: "offsets \<Rightarrow> bool" where
  "above_net h \<longleftrightarrow> (L_TRANS h = no_offset \<or> unat (L_NET h) + 12 \<le> unat (L_TRANS h))
     \<and> (L_PAYLOAD h = no_offset \<or> unat (L_NET h) + 12 \<le> unat (L_PAYLOAD h))"

lemma select_layer_same:
  assumes "same_but (pview p) (pview p') xs" "p_len p' = p_len p"
    and "off \<noteq> no_offset \<Longrightarrow> \<forall>i \<in> xs. i < unat off"
  shows "select_layer rs p' b off = select_layer rs p b off"
  using assms drop_same [OF assms(1), of "unat off"] by (simp add: select_layer_def)

lemma copy_NetFields_hop:
  assumes "same_but (pview p) (pview p') (hop_bytes (unat (L_NET h)) (lay_net l))"
    and "lay_net l = N_IP \<or> lay_net l = N_IP6"
  shows "copy_NetFields p' b h l = copy_NetFields p b h l"
proof -
  note same = append_same [OF assms(1)]
  show ?thesis
  proof (cases "lay_net l = N_IP")
    case True
    then show ?thesis unfolding copy_NetFields_def Let_def
      by (auto simp: hop_bytes_def intro!: Option.bind_cong same)
  next
    case False
    with assms(2) show ?thesis unfolding copy_NetFields_def Let_def
      by (auto simp: hop_bytes_def intro!: Option.bind_cong same)
  qed
qed

lemma selection_hop:
  assumes "same_but (pview p) (pview p') (hop_bytes (unat (L_NET h)) (lay_net l))" "p_len p' = p_len p"
    and "lay_net l = N_IP \<or> lay_net l = N_IP6" and "above_net h" and "skips_hop_bytes f"
  shows "call_selection f rs p' b h l = call_selection f rs p b h l"
proof -
  note same = append_same [OF assms(1)]
  note net = copy_NetFields_hop [OF assms(1,3)]
  have hop: "\<forall>i \<in> hop_bytes (unat (L_NET h)) (lay_net l). i < unat (L_NET h) + 12"
    by (auto simp: hop_bytes_def)
  have tr: "append_packet b (pview p') (unat (L_TRANS h) + k) n = append_packet b (pview p) (unat (L_TRANS h) + k) n"
    if "L_TRANS h \<noteq> no_offset" for b k n
    by (rule same) (use hop assms(4) that in \<open>force simp: above_net_def\<close>)
  have trans: "copyFields_Rec p' b h l = copyFields_Rec p b h l" 
  proof -
    have "append_packet b (pview p') (unat (L_NET h) + 4) 2 = append_packet b (pview p) (unat (L_NET h) + 4) 2"
      by (rule same) (auto simp: hop_bytes_def split: if_splits)
    then show ?thesis using tr tr [where k = 0] by (simp add: copyFields_Rec_def Let_def cong: if_cong del: add_2_eq_Suc')
  qed
  have utcp: "copyFields_U_TCP_and_Net p' b h l = copyFields_U_TCP_and_Net p b h l"
    using tr [where k = 0] by (simp add: copyFields_U_TCP_and_Net_def Let_def net assms(2) cong: if_cong)
  have pkt: "copyFields_Packet p' b h l = copyFields_Packet p b h l"
    unfolding copyFields_Packet_def net assms(2)
    by (intro Option.bind_cong refl same) (use hop in force)
  have lay: "select_layer rs p' b (L_TRANS h) = select_layer rs p b (L_TRANS h)"
    "select_layer rs p' b (L_PAYLOAD h) = select_layer rs p b (L_PAYLOAD h)"
    by (rule select_layer_same [OF assms(1,2)]; use hop assms(4) in \<open>force simp: above_net_def\<close>)+
  show ?thesis using assms(5) net trans utcp pkt lay
    by (auto simp: skips_hop_bytes_def copyFields_Only_Net_def copyFields_Trans_def copyFields_Payload_def)
qed

text \<open>After \<open>findHeaders\<close>, transport and payload lie above the fields that change.\<close>

lemma unat_header_len: "unat (push_bit 2 (b AND 0x0F)) = 4 * unat (b AND 0x0F)" for b :: byte
proof -
  have "b AND 0x0F \<le> 0x0F" by (rule word_and_le1)
  then have "unat (b AND 0x0F) \<le> 15" by (simp add: word_le_nat_alt)
  then show ?thesis
    by (simp only: unsigned_push_bit_eq) (simp add: push_bit_eq_mult take_bit_nat_eq_self)
qed

lemma findHeaders_above_net:
  assumes run: "findHeaders p pl h l = Some (h', l')"
    and ihl: "version p (unat (L_NET h)) = N_IP \<Longrightarrow> 3 \<le> unat (p ! unat (L_NET h) AND 0x0F)"
  shows "above_net h'" and "lay_net l' = version p (unat (L_NET h))"
proof -
  have pl: "unat pl < 65536" using unsigned_less [of pl, where ?'a = nat] by simp
  have tr: "above_net h' \<and> lay_net l' = lay_net l0"
    if "find_transport p (unat pl) offs q (h\<lparr>L_TRANS := no_offset, L_PAYLOAD := no_offset\<rparr>) l0 = Some (h', l')"
      and "unat (L_NET h) + 12 \<le> offs" for offs q l0
    using that(1)
  proof (cases rule: find_transport_cases)
    case (3 e)
    then have "unat (word_of_nat offs :: u32) = offs" "unat (word_of_nat e :: u32) = e"
      using pl by (simp_all add: unat_word_of_nat32)
    with 3 that(2) show ?thesis by (simp add: above_net_def)
  next
    case 2
    then have "unat (word_of_nat offs :: u32) = offs" using pl by (simp add: unat_word_of_nat32)
    with 2 that(2) show ?thesis by (simp add: above_net_def)
  qed (simp add: above_net_def)
  from run have "above_net h' \<and> lay_net l' = version p (unat (L_NET h))"
  proof (cases rule: findHeaders_cases)
    case (ip4 b0 proto)
    then have v: "version p (unat (L_NET h)) = N_IP" "b0 = p ! unat (L_NET h)"
      by (auto simp: version_def rd8_eq_Some)
    have "unat (L_NET h) + 12 \<le> unat (L_NET h) + unat (push_bit 2 (b0 AND 0x0F))"
      using ihl [OF v(1)] unfolding unat_header_len v(2) by linarith
    from tr [OF ip4(4) this] v(1) show ?thesis by simp
  next
    case (ip6 b0 proto offs proto')
    then have "version p (unat (L_NET h)) = N_IP6" by (auto simp: version_def rd8_eq_Some)
    with tr [OF ip6(5)] ip6_skip_ge [OF ip6(4)] show ?thesis by simp
  next
    case (other b0)
    then show ?thesis by (simp add: above_net_def version_def rd8_eq_Some)
  qed
  then show "above_net h'" and "lay_net l' = version p (unat (L_NET h))" by auto
qed

section \<open>Well-formed packets\<close>

definition ip4_header :: "byte list \<Rightarrow> bool" where
  "ip4_header ih \<longleftrightarrow> 20 \<le> length ih \<and> ih ! 0 AND 0xF0 = 0x40 \<and> length ih = 4 * unat (ih ! 0 AND 0x0F)"

definition ip6_header :: "byte list \<Rightarrow> bool" where
  "ip6_header ih \<longleftrightarrow> length ih = 40 \<and> ih ! 0 AND 0xF0 = 0x60 \<and> \<not> is_ip6_ext (ih ! 6)"

definition net_header :: "byte list \<Rightarrow> byte \<Rightarrow> byte \<Rightarrow> bool" where
  "net_header ih t proto \<longleftrightarrow> t = N_IP \<and> ip4_header ih \<and> proto = ih ! 9
     \<or> t = N_IP6 \<and> ip6_header ih \<and> proto = ih ! 6"

definition transport_header :: "byte \<Rightarrow> byte list \<Rightarrow> bool" where
  "transport_header proto th \<longleftrightarrow>
     (proto = T_ICMP \<or> proto = T_ICMP6) \<and> length th = 4
     \<or> proto = T_UDP \<and> length th = 8
     \<or> proto = T_TCP \<and> 20 \<le> length th \<and> length th = unat (drop_bit 2 (th ! 12 AND 0xF0))"

lemma find_transport_wf:
  assumes th: "transport_header proto th" and pay: "pay \<noteq> []"
    and p: "p = pre @ th @ pay" "length p < 65536"
  shows "find_transport p (length p) (length pre) proto h l =
    Some (h\<lparr>L_TRANS := word_of_nat (length pre), L_PAYLOAD := word_of_nat (length pre + length th)\<rparr>,
          l\<lparr>lay_trans := proto\<rparr>)"
proof -
  have ev: "transport_end p (length p) (length pre) proto = Some (length pre + length th)"
  proof (cases "proto = T_TCP")
    case True
    with th have tcp: "20 \<le> length th" "length th = unat (drop_bit 2 (th ! 12 AND 0xF0))"
      by (auto simp: transport_header_def)
    then have "rd8 p (length pre + 12) = Some (th ! 12)"
      using p by (simp add: rd8_def nth_append)
    with True tcp p show ?thesis
      by (simp add: transport_end_def)
  next
    case False
    with th show ?thesis by (auto simp: transport_header_def transport_end_def)
  qed
  have "length pre < length p" "length pre + length th < length p" using pay p by auto
  moreover have "proto = T_ICMP \<or> proto = T_ICMP6 \<or> proto = T_UDP \<or> proto = T_TCP"
    using th by (auto simp: transport_header_def)
  ultimately show ?thesis by (auto simp: find_transport_def Let_def ev)
qed

lemma findHeaders_wf:
  assumes net: "net_header ih t proto" and th: "transport_header proto th" and pay: "pay \<noteq> []"
    and p: "p = lk @ ih @ th @ pay" "length p < 65536" and h: "unat (L_NET h) = length lk"
  shows "findHeaders p (word_of_nat (length p)) h l =
    Some (h\<lparr>L_TRANS := word_of_nat (length (lk @ ih)), L_PAYLOAD := word_of_nat (length (lk @ ih @ th))\<rparr>,
          l\<lparr>lay_net := t, lay_trans := proto\<rparr>)"
proof -
  have pl: "unat (word_of_nat (length p) :: u16) = length p"
    using p(2) by (simp add: unsigned_of_nat take_bit_nat_eq_self)
  have p': "p = (lk @ ih) @ th @ pay" using p(1) by simp
  note tr = find_transport_wf [OF th pay p' p(2)]
  have rd: "i < length ih \<Longrightarrow> rd8 p (length lk + i) = Some (ih ! i)" for i
    using p(1) by (simp add: rd8_def nth_append)
  have "ih \<noteq> []" using net by (auto simp: net_header_def ip4_header_def ip6_header_def)
  with rd [of 0] have rd0: "rd8 p (length lk) = Some (ih ! 0)" by simp
  from net show ?thesis
  proof (unfold net_header_def, elim disjE conjE)
    assume ip4: "t = N_IP" "ip4_header ih" "proto = ih ! 9"
    then have "rd8 p (length lk) = Some (ih ! 0)" "rd8 p (length lk + 9) = Some (ih ! 9)"
      and len: "unat (push_bit 2 (ih ! 0 AND 0x0F)) = length ih" "ih ! 0 AND 0xF0 = 0x40"
      using rd0 rd [of 9] by (auto simp: ip4_header_def unat_header_len simp del: push_bit_and)
    with ip4 show ?thesis using tr unfolding findHeaders_def Let_def h pl
      by (simp del: push_bit_and)
  next
    assume ip6: "t = N_IP6" "ip6_header ih" "proto = ih ! 6"
    then have "rd8 p (length lk) = Some (ih ! 0)" "rd8 p (length lk + 6) = Some (ih ! 6)"
      and len: "length ih = 40" "ih ! 0 AND 0xF0 = 0x60" "\<not> is_ip6_ext (ih ! 6)"
      using rd0 rd [of 6] by (auto simp: ip6_header_def)
    with ip6 show ?thesis using tr unfolding findHeaders_def Let_def h pl
      by (simp add: ip6_skip.simps)
  qed
qed

text \<open>Two concrete packets.\<close>

definition udp4_packet :: "byte list" where
  "udp4_packet = ([0x45, 0, 0, 0, 0, 0, 0, 0, 64, 17] @ replicate 10 0) @ replicate 8 0 @ [1, 2]"

definition udp6_ext_packet :: "byte list" where
  "udp6_ext_packet = ([0x60, 0, 0, 0, 0, 0, 0] @ replicate 33 0) @ ([17, 0] @ replicate 6 0)
     @ [200, 53, 0, 53, 0, 8, 0, 0]"

lemma rd8_at: "i < length p \<Longrightarrow> rd8 p i = Some (p ! i)"
  by (simp add: rd8_def)

lemma findHeaders_ip4_fault:
  assumes v: "p ! unat (L_NET h) AND 0xF0 = 0x40" and len: "unat (L_NET h) + 10 \<le> length p"
    and pl: "length p = unat pl"
  shows "findHeaders p pl h l = None \<longleftrightarrow>
    p ! (unat (L_NET h) + 9) = T_TCP \<and> length p = unat (L_NET h) + 4 * unat (p ! unat (L_NET h) AND 0x0F) + 12"
proof -
  let ?n = "unat (L_NET h)" let ?q = "p ! (?n + 9)"
  let ?o = "?n + 4 * unat (p ! ?n AND 0x0F)"
  have run: "findHeaders p pl h l = find_transport p (length p) ?o ?q
      (h\<lparr>L_TRANS := no_offset, L_PAYLOAD := no_offset\<rparr>) (l\<lparr>lay_net := N_IP\<rparr>)"
    unfolding findHeaders_def Let_def pl unat_header_len using v len by (simp add: rd8_at)
  have ev: "transport_end p (length p) ?o ?q = None \<longleftrightarrow> ?q = T_TCP \<and> length p = ?o + 12"
    if "?q = T_ICMP \<or> ?q = T_ICMP6 \<or> ?q = T_UDP \<or> ?q = T_TCP"
    using that by (auto simp: transport_end_def rd8_def)
  show ?thesis
  proof (cases "?o < length p \<and> (?q = T_ICMP \<or> ?q = T_ICMP6 \<or> ?q = T_UDP \<or> ?q = T_TCP)")
    case True
    then have "findHeaders p pl h l = None \<longleftrightarrow> transport_end p (length p) ?o ?q = None"
      unfolding run find_transport_def Let_def
      by (cases "transport_end p (length p) ?o ?q") auto
    then show ?thesis using ev [OF conjunct2 [OF True]] by (simp only:)
  next
    case False
    then have "findHeaders p pl h l \<noteq> None" unfolding run find_transport_def Let_def by auto
    with False show ?thesis by auto
  qed
qed

text \<open>
  The bytes of one extension header are its type's length field and, at its start, the type of
  the header after it. The loop takes the byte at the start of the header \<^emph>\<open>after\<close> it instead.
\<close>

lemma ip6_ext_step:
  assumes p: "p = ih @ ext @ th" and ih: "length ih = 40" and th: "th \<noteq> []"
    and ext: "length ext = ip6_ext_len q (ext ! 1)" and q: "is_ip6_ext q" "\<not> is_ip6_ext (th ! 0)"
  shows "ip6_skip p 0 40 q = Some (40 + length ext, th ! 0)"
proof -
  have "8 \<le> length ext" using ext by (simp add: ip6_ext_len_def)
  then have "rd8 p 41 = Some (ext ! 1)" using p ih by (simp add: rd8_def nth_append)
  moreover have "rd8 p (40 + length ext) = Some (th ! 0)"
    using p ih th by (simp add: rd8_def nth_append)
  ultimately show ?thesis
    using q ext by (subst ip6_skip.simps) (simp add: ip6_skip.simps [of p 0 _ "th ! 0"])
qed

section \<open>Properties\<close>

text \<open>C17: On a packet made of an IPv4 header with options, or an IPv6 header without
  extensions, a complete ICMP, UDP or TCP header and a payload, behind any link header, the
  search succeeds and finds each part: the transport and payload offsets are where the parts
  begin, the layers are the protocol numbers of the headers.\<close>

theorem findHeaders_finds_layers:
  assumes "net_header ih t proto" and "transport_header proto th" and "pay \<noteq> []"
    and "p = lk @ ih @ th @ pay" "length p < 65536" and "unat (L_NET h) = length lk"
  shows "\<exists>h' l'. findHeaders p (word_of_nat (length p)) h l = Some (h', l')
    \<and> drop (unat (L_TRANS h')) p = th @ pay \<and> drop (unat (L_PAYLOAD h')) p = pay
    \<and> lay_net l' = t \<and> lay_trans l' = proto"
proof -
  have "unat (word_of_nat (length (lk @ ih)) :: u32) = length (lk @ ih)"
    "unat (word_of_nat (length (lk @ ih @ th)) :: u32) = length (lk @ ih @ th)"
    using assms(4,5) by (intro unat_word_of_nat32; simp)+
  with findHeaders_wf [OF assms, of l] assms(4) show ?thesis by simp
qed

theorem findHeaders_finds_layers_witness:
  "\<exists>h' l'. findHeaders udp4_packet 30 no_offsets no_layers = Some (h', l')
     \<and> drop (unat (L_PAYLOAD h')) udp4_packet = [1, 2] \<and> lay_trans l' = T_UDP"
proof -
  have "\<exists>h' l'. findHeaders udp4_packet (word_of_nat (length udp4_packet)) no_offsets no_layers = Some (h', l')
    \<and> drop (unat (L_TRANS h')) udp4_packet = replicate 8 0 @ [1, 2] \<and> drop (unat (L_PAYLOAD h')) udp4_packet = [1, 2]
    \<and> lay_net l' = N_IP \<and> lay_trans l' = T_UDP"
    by (rule findHeaders_finds_layers [of "[0x45, 0, 0, 0, 0, 0, 0, 0, 64, 17] @ replicate 10 0" _ _ _ _ _ "[]"])
       (simp_all add: udp4_packet_def net_header_def ip4_header_def transport_header_def no_offsets_def)
  then show ?thesis by (auto simp: udp4_packet_def)
qed

text \<open>C36: Whatever the packet, when the search succeeds the offsets it stores are usable: the
  transport offset lies inside the packet or is the marker for absence, and the payload offset
  lies between it and the end of the packet or is the marker.\<close>

theorem findHeaders_offsets_in_packet:
  assumes "findHeaders p pl h l = Some (h', l')"
  shows "offsets_ok (unat pl) h'"
  using findHeaders_offsets [OF assms] by simp

theorem findHeaders_offsets_in_packet_witness:
  "\<exists>h' l'. findHeaders udp4_packet 30 no_offsets no_layers = Some (h', l') \<and> L_TRANS h' = 20 \<and> L_PAYLOAD h' = 28 \<and> offsets_ok 30 h'"
proof -
  have "findHeaders udp4_packet (word_of_nat (length udp4_packet)) no_offsets no_layers
      = Some (no_offsets\<lparr>L_TRANS := word_of_nat 20, L_PAYLOAD := word_of_nat 28\<rparr>, no_layers\<lparr>lay_net := N_IP, lay_trans := T_UDP\<rparr>)"
    using findHeaders_wf [of "[0x45, 0, 0, 0, 0, 0, 0, 0, 64, 17] @ replicate 10 0" N_IP T_UDP "replicate 8 0" "[1, 2]" udp4_packet "[]" no_offsets no_layers]
    by (simp add: udp4_packet_def net_header_def ip4_header_def transport_header_def no_offsets_def)
  moreover have "length udp4_packet = 30" by (simp add: udp4_packet_def)
  ultimately have run: "findHeaders udp4_packet 30 no_offsets no_layers
      = Some (no_offsets\<lparr>L_TRANS := 20, L_PAYLOAD := 28\<rparr>, no_layers\<lparr>lay_net := N_IP, lay_trans := T_UDP\<rparr>)" by simp
  from findHeaders_offsets_in_packet [OF run] run show ?thesis by simp
qed

text \<open>Memory safety of the search on captured IPv4 packets, exactly: it reads past the
  packet only when a TCP segment is cut 12 bytes after its start, because the check before the
  read of byte 12 admits a packet of 12 bytes.\<close>

theorem findHeaders_ip4_off_by_one:
  assumes "p ! unat (L_NET h) AND 0xF0 = 0x40" and "unat (L_NET h) + 10 \<le> length p"
    and "length p = unat pl"
  shows "findHeaders p pl h l = None \<longleftrightarrow>
    p ! (unat (L_NET h) + 9) = T_TCP \<and> length p = unat (L_NET h) + 4 * unat (p ! unat (L_NET h) AND 0x0F) + 12"
  using assms by (rule findHeaders_ip4_fault)

theorem findHeaders_ip4_off_by_one_witness:
  "findHeaders ([0x45, 0, 0, 0, 0, 0, 0, 0, 64, 6] @ replicate 22 0) 32 no_offsets no_layers = None"
  using findHeaders_ip4_off_by_one [of "[0x45, 0, 0, 0, 0, 0, 0, 0, 64, 6] @ replicate 22 0" no_offsets 32 no_layers]
  by (simp add: no_offsets_def)

text \<open>After an IPv6 extension header the search takes the first byte of the header that
  follows it for the protocol number, not the extension header's own next-header byte.\<close>

theorem ip6_extension_protocol:
  assumes "p = ih @ ext @ th" and "length ih = 40" "ih ! 0 AND 0xF0 = 0x60" and "th \<noteq> []"
    and "length ext = ip6_ext_len (ih ! 6) (ext ! 1)" "is_ip6_ext (ih ! 6)" "\<not> is_ip6_ext (th ! 0)"
    and "L_NET h = 0" "length p = unat pl"
    and "findHeaders p pl h l = Some (h', l')"
  shows "lay_trans l' = th ! 0 \<and> unat (L_TRANS h') = 40 + length ext"
proof -
  have p0: "p ! 0 = ih ! 0" "p ! 6 = ih ! 6" "6 < length p"
    using assms(1,2) by (simp_all add: nth_append)
  have pl: "unat pl < 65536" using unsigned_less [of pl, where ?'a = nat] by simp
  have "length p = 40 + length ext + length th" using assms(1,2) by simp
  moreover have "length th \<noteq> 0" using assms(4) by simp
  ultimately have "40 + length ext < unat pl" using assms(9) by linarith
  note skip = ip6_ext_step [OF assms(1,2,4-7)]
  from assms(10) show ?thesis
  proof (cases rule: findHeaders_cases)
    case (ip6 b0 proto offs proto')
    then have "offs = 40 + length ext" "proto' = th ! 0"
      using skip p0 assms(8) by (auto simp: rd8_eq_Some)
    then have "offs < unat pl" "unat (word_of_nat offs :: u32) = 40 + length ext"
      using \<open>40 + length ext < unat pl\<close> pl by (simp_all add: unat_word_of_nat32 del: of_nat_add)
    with ip6(5) \<open>proto' = th ! 0\<close> show ?thesis
      by (cases rule: find_transport_cases) auto
  qed (use p0 assms(3,8) in \<open>auto simp: rd8_eq_Some\<close>)
qed

theorem ip6_extension_protocol_witness:
  "\<exists>h' l'. findHeaders udp6_ext_packet 56 no_offsets no_layers = Some (h', l') \<and> lay_trans l' = 200"
proof -
  have run: "findHeaders udp6_ext_packet 56 no_offsets no_layers =
    Some (\<lparr>L_LINK = 0, L_NET = 0, L_TRANS = 48, L_PAYLOAD = no_offset\<rparr>,
          \<lparr>lay_link = 0, lay_net = 6, lay_trans = 200, lay_payload = 0\<rparr>)"
    by code_simp
  have "200 = ([200, 53, 0, 53, 0, 8, 0, 0] :: byte list) ! 0 \<and> unat (48 :: u32) = 40 + length ([17, 0] @ replicate 6 0 :: byte list)"
    using ip6_extension_protocol [OF udp6_ext_packet_def _ _ _ _ _ _ _ _ run]
    by (simp add: ip6_ext_len_def is_ip6_ext_def no_offsets_def udp6_ext_packet_def)
  with run show ?thesis by auto
qed

end
