(* ===== verification/Ipfix_Templates.thy ===== *)
theory Ipfix_Templates
  imports Data_Model
begin

text \<open>
  The IPFIX templates (\<^verbatim>\<open>include/ipfix_templates.h\<close>, \<^verbatim>\<open>src/ipfix_handler.c\<close>): which fields a
  data record of each template has and how long each field is. The numbers of the information
  elements belong to libipfix, so the elements are constructors here. Calls into libipfix are
  the events of a trace.
\<close>

section \<open>Templates\<close>

datatype info_element =
    OBSERVATIONTIMEMICROSECONDS | OBSERVATIONTIMEMILLISECONDS | DIGESTHASHVALUE | IPTTL
  | TOTALLENGTHIPV4 | PROTOCOLIDENTIFIER | IPVERSION | SOURCEIPV4ADDRESS | SOURCETRANSPORTPORT
  | DESTINATIONIPV4ADDRESS | DESTINATIONTRANSPORTPORT | SAMPLINGSIZE | PACKETDELTACOUNT
  | PT_PCAPSTAT_RECV | PT_PCAPSTAT_DROP | PT_INTERFACE_NAME | PT_INTERFACE_DESCRIPTION
  | PT_SYSTEM_CPU_IDLE | PT_SYSTEM_MEM_FREE | PT_PROCESS_CPU_USER | PT_PROCESS_CPU_SYS
  | PT_PROCESS_MEM_VZS | PT_PROCESS_MEM_RSS | PT_SYSTEM_MEM_TOTAL
  | PT_GEO_LATITUDE | PT_GEO_LONGITUDE | PT_PROBE_NAME | PT_PROBE_LOCATION_NAME
  | PT_MESSAGE_ID | PT_MESSAGE_VALUE | PT_MESSAGE

type_synonym ipfix_template = "(info_element \<times> u16) list"

text \<open>The length 65535 announces a field of variable length.\<close>

definition export_fields_ts :: ipfix_template where
  "export_fields_ts = [(OBSERVATIONTIMEMICROSECONDS, 8), (DIGESTHASHVALUE, 4)]"

definition export_fields_min :: ipfix_template where
  "export_fields_min = [(OBSERVATIONTIMEMICROSECONDS, 8), (DIGESTHASHVALUE, 4), (IPTTL, 1)]"

definition export_fields_ts_ttl_proto :: ipfix_template where
  "export_fields_ts_ttl_proto = [(OBSERVATIONTIMEMICROSECONDS, 8), (DIGESTHASHVALUE, 4), (IPTTL, 1),
     (TOTALLENGTHIPV4, 2), (PROTOCOLIDENTIFIER, 1), (IPVERSION, 1)]"

definition export_fields_ts_ttl_proto_ip :: ipfix_template where
  "export_fields_ts_ttl_proto_ip = [(OBSERVATIONTIMEMICROSECONDS, 8), (DIGESTHASHVALUE, 4), (IPTTL, 1),
     (TOTALLENGTHIPV4, 2), (PROTOCOLIDENTIFIER, 1), (IPVERSION, 1), (SOURCEIPV4ADDRESS, 4),
     (SOURCETRANSPORTPORT, 2), (DESTINATIONIPV4ADDRESS, 4), (DESTINATIONTRANSPORTPORT, 2)]"

definition export_fields_interface_stats :: ipfix_template where
  "export_fields_interface_stats = [(OBSERVATIONTIMEMILLISECONDS, 8), (SAMPLINGSIZE, 4),
     (PACKETDELTACOUNT, 8), (PT_PCAPSTAT_RECV, 4), (PT_PCAPSTAT_DROP, 4),
     (PT_INTERFACE_NAME, 65535), (PT_INTERFACE_DESCRIPTION, 65535)]"

definition export_fields_probe_stats :: ipfix_template where
  "export_fields_probe_stats = [(OBSERVATIONTIMEMILLISECONDS, 8), (PT_SYSTEM_CPU_IDLE, 4),
     (PT_SYSTEM_MEM_FREE, 8), (PT_PROCESS_CPU_USER, 4), (PT_PROCESS_CPU_SYS, 4),
     (PT_PROCESS_MEM_VZS, 8), (PT_PROCESS_MEM_RSS, 8), (PT_SYSTEM_MEM_TOTAL, 8)]"

definition export_fields_location :: ipfix_template where
  "export_fields_location = [(OBSERVATIONTIMEMILLISECONDS, 8), (SOURCEIPV4ADDRESS, 4),
     (PT_GEO_LATITUDE, 65535), (PT_GEO_LONGITUDE, 65535), (PT_PROBE_NAME, 65535),
     (PT_PROBE_LOCATION_NAME, 65535)]"

definition export_fields_sync :: ipfix_template where
  "export_fields_sync = [(OBSERVATIONTIMEMILLISECONDS, 8), (PT_MESSAGE_ID, 4), (PT_MESSAGE_VALUE, 4),
     (PT_MESSAGE, 65535)]"

abbreviation (input) LOCATION_ID :: u32 where "LOCATION_ID \<equiv> 0"
abbreviation (input) SYNC_ID :: u32 where "SYNC_ID \<equiv> 1"
abbreviation (input) PROBE_STATS_ID :: u32 where "PROBE_STATS_ID \<equiv> 2"
abbreviation (input) INTF_STATS_ID :: u32 where "INTF_STATS_ID \<equiv> 3"
abbreviation (input) MINT_ID :: u32 where "MINT_ID \<equiv> 4"
abbreviation (input) TS_ID :: u32 where "TS_ID \<equiv> 5"
abbreviation (input) TS_TTL_PROTO_ID :: u32 where "TS_TTL_PROTO_ID \<equiv> 6"
abbreviation (input) TS_TTL_PROTO_IP_ID :: u32 where "TS_TTL_PROTO_IP_ID \<equiv> 7"

text \<open>
  The array \<^verbatim>\<open>templates\<close> after \<^verbatim>\<open>libipfix_register_templates\<close>, which ends the program when a
  template cannot be made; an index outside it faults.
\<close>

definition templates :: "ipfix_template list" where
  "templates = [export_fields_location, export_fields_sync, export_fields_probe_stats,
     export_fields_interface_stats, export_fields_min, export_fields_ts,
     export_fields_ts_ttl_proto, export_fields_ts_ttl_proto_ip]"

definition get_template :: "u32 \<Rightarrow> ipfix_template option" where
  "get_template t_id =
     (if unat t_id < length templates then Some (templates ! unat t_id) else None)"

section \<open>Data records\<close>

text \<open>What a \<^verbatim>\<open>void*\<close> of the field array points to, and how many bytes are there.\<close>

datatype field_value =
    F64 u64 | F32 u32 | F16 u16 | F8 byte | FBytes "byte list" | FString string | FFloat rat

fun field_width :: "field_value \<Rightarrow> nat" where
  "field_width (F64 _) = 8"
| "field_width (F32 _) = 4"
| "field_width (F16 _) = 2"
| "field_width (F8 _) = 1"
| "field_width (FBytes bs) = length bs"
| "field_width (FString s) = length s"
| "field_width (FFloat _) = 4"

type_synonym fields = "(field_value \<times> u16) list"

datatype ipfix_event = Export u32 fields | Flush

text \<open>
  The arrays \<^verbatim>\<open>fields[size]\<close> and \<^verbatim>\<open>lengths[size]\<close> fill from the front; writing beyond \<open>nf\<close>
  entries is outside the arrays.
\<close>

definition set_value :: "nat \<Rightarrow> fields \<Rightarrow> field_value \<Rightarrow> u16 \<Rightarrow> fields option" where
  "set_value nf fs value len = (if length fs < nf then Some (fs @ [(value, len)]) else None)"

fun set_values :: "nat \<Rightarrow> fields \<Rightarrow> fields \<Rightarrow> fields option" where
  "set_values nf fs [] = Some fs"
| "set_values nf fs ((v, n) # vs) = do { fs \<leftarrow> set_value nf fs v n; set_values nf fs vs }"

text \<open>
  \<^verbatim>\<open>ipfix_export_array\<close> reads \<open>nf\<close> entries and, of each, as many bytes as its length says.
\<close>

definition export_array :: "u32 \<Rightarrow> nat \<Rightarrow> fields \<Rightarrow> ipfix_event option" where
  "export_array t_id nf fs =
     (if length fs = nf \<and> list_all (\<lambda>(v, n). unat n \<le> field_width v) fs
      then Some (Export t_id fs) else None)"

text \<open>A record that agrees with a template: the collector decodes exactly what was written.\<close>

definition record_ok :: "ipfix_template \<Rightarrow> fields \<Rightarrow> bool" where
  "record_ok t fs \<longleftrightarrow> list_all2 (\<lambda>(ie, n) (v, len). (n = 65535 \<or> len = n) \<and> unat len = field_width v) t fs"

definition event_ok :: "ipfix_event \<Rightarrow> bool" where
  "event_ok e \<longleftrightarrow> (case e of Export t fs \<Rightarrow> (\<exists>tmpl. get_template t = Some tmpl \<and> record_ok tmpl fs) | Flush \<Rightarrow> True)"

lemma set_values_append:
  "length fs + length vs \<le> nf \<Longrightarrow> set_values nf fs vs = Some (fs @ vs)"
  by (induction nf fs vs rule: set_values.induct) (auto simp: set_value_def)

lemma set_values_overflow:
  "nf < length fs + length vs \<Longrightarrow> vs \<noteq> [] \<Longrightarrow> set_values nf fs vs = None"
proof (induction nf fs vs rule: set_values.induct)
  case (2 nf fs v n vs)
  then show ?case by (cases vs) (auto simp: set_value_def)
qed simp

lemmas template_defs = export_fields_ts_def export_fields_min_def export_fields_ts_ttl_proto_def
  export_fields_ts_ttl_proto_ip_def export_fields_interface_stats_def export_fields_probe_stats_def
  export_fields_location_def export_fields_sync_def

lemma get_template_ids:
  "get_template LOCATION_ID = Some export_fields_location"
  "get_template SYNC_ID = Some export_fields_sync"
  "get_template PROBE_STATS_ID = Some export_fields_probe_stats"
  "get_template INTF_STATS_ID = Some export_fields_interface_stats"
  "get_template MINT_ID = Some export_fields_min"
  "get_template TS_ID = Some export_fields_ts"
  "get_template TS_TTL_PROTO_ID = Some export_fields_ts_ttl_proto"
  "get_template TS_TTL_PROTO_IP_ID = Some export_fields_ts_ttl_proto_ip"
  by (simp_all add: get_template_def templates_def)

lemma get_template_None: "8 \<le> unat t \<Longrightarrow> get_template t = None"
  by (simp add: get_template_def templates_def)

end
