(* ===== verification/Logger.thy ===== *)
theory Logger
  imports C_Strings
begin

text \<open>
  The logger (\<^verbatim>\<open>src/logger.c\<close>): the level, the include and exclude lists of function-name
  patterns, and the matcher. The patterns live in the option string; here they are copies.
\<close>

section \<open>State and operations\<close>

abbreviation (input) LOG_N_LEVELS :: int where "LOG_N_LEVELS \<equiv> 6"
abbreviation (input) LOGGER_LEVEL_FATAL :: int where "LOGGER_LEVEL_FATAL \<equiv> 0"
abbreviation (input) LOGGER_LEVEL_INFO :: int where "LOGGER_LEVEL_INFO \<equiv> 3"
abbreviation (input) LOGGER_LEVEL_DEBUG :: int where "LOGGER_LEVEL_DEBUG \<equiv> 4"

record logger_state =
  log_level :: int
  include_list :: "string list"
  exclude_list :: "string list"

definition init_logger_state :: logger_state where
  "init_logger_state = \<lparr>log_level = 0, include_list = [], exclude_list = []\<rparr>"

text \<open>\<^verbatim>\<open>push_filter\<close> walks to the end of the list.\<close>

fun push_filter :: "string list \<Rightarrow> string \<Rightarrow> string list" where
  "push_filter [] v = [v]"
| "push_filter (f # list) v = f # push_filter list v"

text \<open>The tokens of \<^verbatim>\<open>strtok(s, ",")\<close>: maximal runs without a comma.\<close>

function strtok_all :: "char \<Rightarrow> string \<Rightarrow> string list" where
  "strtok_all d s = (case dropWhile (\<lambda>c. c = d) s of
       [] \<Rightarrow> []
     | c # cs \<Rightarrow> (c # takeWhile (\<lambda>c. c \<noteq> d) cs) # strtok_all d (dropWhile (\<lambda>c. c \<noteq> d) cs))"
  by pat_completeness auto
termination
proof (relation "measure (\<lambda>(d, s). length s)", goal_cases)
  case (2 d s c cs)
  have "length (dropWhile (\<lambda>c. c \<noteq> d) cs) \<le> length cs" by (rule length_dropWhile_le)
  moreover have "length (c # cs) \<le> length s"
    using length_dropWhile_le [of "\<lambda>c. c = d" s] 2 by simp
  ultimately show ?case by simp
qed simp

declare strtok_all.simps [simp del]

fun add_filters :: "logger_state \<Rightarrow> string list \<Rightarrow> logger_state" where
  "add_filters st [] = st"
| "add_filters st (tok # toks) =
     add_filters (case tok of
         CHR ''-'' # f \<Rightarrow> st\<lparr>exclude_list := push_filter (exclude_list st) f\<rparr>
       | _ \<Rightarrow> st\<lparr>include_list := push_filter (include_list st) tok\<rparr>) toks"

definition logger_set_filter :: "logger_state \<Rightarrow> string option \<Rightarrow> logger_state" where
  "logger_set_filter st s_filter =
     add_filters st (strtok_all CHR '','' (case s_filter of None \<Rightarrow> '''' | Some s \<Rightarrow> s))"

text \<open>
  Reading one character; the terminating NUL is \<open>CHR 0x00\<close> and reading behind it is outside
  the string.
\<close>

definition chr_at :: "string \<Rightarrow> nat \<Rightarrow> char option" where
  "chr_at s i = (if i < length s then Some (s ! i) else if i = length s then Some (CHR 0x00) else None)"

text \<open>The inner loop: the first position at which the strings differ or end.\<close>

function match_len :: "string \<Rightarrow> string \<Rightarrow> nat \<Rightarrow> nat" where
  "match_len f s i = (if i < length f \<and> i < length s \<and> f ! i = s ! i then match_len f s (Suc i) else i)"
  by pat_completeness auto
termination by (relation "measure (\<lambda>(f, s, i). length f - i)") auto

declare match_len.simps [simp del]

text \<open>
  One round of the outer loop on the rest \<open>s\<close> of the name, and the loop. With an empty name the
  asterisk case steps behind the NUL and reads there: \<open>None\<close>.
\<close>

definition match_here :: "string \<Rightarrow> string \<Rightarrow> bool" where
  "match_here f s = (let i = match_len f s 0 in
     chr_at f i = Some CHR ''*'' \<or> chr_at s i = chr_at f i)"

fun match_from :: "bool \<Rightarrow> string \<Rightarrow> string \<Rightarrow> bool option" where
  "match_from star f s =
     (if match_here f s then Some True
      else case s of
          [] \<Rightarrow> if star then None else Some False
        | _ # [] \<Rightarrow> Some False
        | _ # s' \<Rightarrow> if star then match_from star f s' else Some False)"

declare match_from.simps [simp del]

fun is_filter :: "string list \<Rightarrow> string \<Rightarrow> bool option" where
  "is_filter [] s = Some False"
| "is_filter (v # list) s =
     (if v = ''*'' then Some True
      else let star = (case v of c # _ \<Rightarrow> c = CHR ''*'' | [] \<Rightarrow> False) in do {
        m \<leftarrow> match_from star (if star then tl v else v) s;
        if m then Some True else is_filter list s })"

definition is_logging :: "logger_state \<Rightarrow> string \<Rightarrow> bool option" where
  "is_logging st s = do {
     inc \<leftarrow> (if include_list st = [] then Some True else is_filter (include_list st) s);
     if inc then do {
       exc \<leftarrow> (if exclude_list st \<noteq> [] then is_filter (exclude_list st) s else Some False);
       Some (\<not> exc) }
     else Some False }"

definition logger_set_level :: "logger_state \<Rightarrow> int \<Rightarrow> logger_state" where
  "logger_set_level st level =
     (let st = st\<lparr>log_level := level\<rparr>;
          st = st\<lparr>log_level := if level < 0 then 0 else level\<rparr>
      in st\<lparr>log_level := if level > LOG_N_LEVELS then LOG_N_LEVELS - 1 else level\<rparr>)"

definition logger_init :: "logger_state \<Rightarrow> int \<Rightarrow> logger_state" where
  "logger_init st level = logger_set_level st level"

definition logger_get_level :: "logger_state \<Rightarrow> int" where
  "logger_get_level st = log_level st"

text \<open>
  A call of \<^verbatim>\<open>logger\<close>: \<open>Some True\<close> when a line is printed, \<open>None\<close> when \<^verbatim>\<open>strlevel[level]\<close> or
  the matcher reads outside its array.
\<close>

definition strlevel :: "string list" where
  "strlevel = [''FATAL'', ''ERROR'', ''WARN '', ''INFO '', ''DEBUG'', ''TRACE'']"

definition logger :: "logger_state \<Rightarrow> int \<Rightarrow> string \<Rightarrow> string option option" where
  "logger st level function_name =
     (if level > log_level st then Some None
      else do {
        on \<leftarrow> is_logging st function_name;
        if on then (if 0 \<le> level \<and> nat level < length strlevel then Some (Some (strlevel ! nat level)) else None)
        else Some None })"

section \<open>The matcher\<close>

lemma push_filter_append: "push_filter list v = list @ [v]"
  by (induction list) auto

text \<open>
  What a pattern means. \<open>core_matches f s\<close>: the pattern without its leading asterisk matches from
  the start of \<open>s\<close>: it is \<open>s\<close>, or its part before the first remaining asterisk is a prefix of
  \<open>s\<close>.
\<close>

definition core_matches :: "string \<Rightarrow> string \<Rightarrow> bool" where
  "core_matches f s \<longleftrightarrow> f = s \<or> (\<exists>g h. f = g @ CHR ''*'' # h \<and> prefix g s)"

lemma match_len_le: "i \<le> length f \<Longrightarrow> i \<le> length s \<Longrightarrow> match_len f s i \<le> length f \<and> match_len f s i \<le> length s"
  by (induction f s i rule: match_len.induct) (subst (1 2) match_len.simps, auto)

lemma match_len_prefix:
  "i \<le> length f \<Longrightarrow> i \<le> length s \<Longrightarrow> take i f = take i s \<Longrightarrow>
     take (match_len f s i) f = take (match_len f s i) s"
proof (induction f s i rule: match_len.induct)
  case (1 f s i)
  then show ?case
    by (subst (1 2) match_len.simps) (auto simp: take_Suc_conv_app_nth)
qed

lemma match_len_stop:
  "\<not> (match_len f s i < length f \<and> match_len f s i < length s \<and> f ! match_len f s i = s ! match_len f s i)"
proof (induction f s i rule: match_len.induct)
  case (1 f s i)
  show ?case
  proof (cases "i < length f \<and> i < length s \<and> f ! i = s ! i")
    case True
    then have "match_len f s i = match_len f s (Suc i)" by (simp add: match_len.simps [of f s i])
    with "1.IH" [OF True] show ?thesis by simp
  next
    case False
    then have "match_len f s i = i" by (subst match_len.simps) (rule if_not_P)
    with False show ?thesis by simp
  qed
qed

lemma match_here_iff:
  assumes star: "CHR ''*'' \<notin> set s" and nul: "CHR 0x00 \<notin> set s" "CHR 0x00 \<notin> set f"
  shows "match_here f s \<longleftrightarrow> core_matches f s"
proof -
  let ?i = "match_len f s 0"
  have le: "?i \<le> length f" "?i \<le> length s" using match_len_le [of 0 f s] by auto
  have pre: "take ?i f = take ?i s" using match_len_prefix [of 0 f s] by simp
  have stop: "\<not> (?i < length f \<and> ?i < length s \<and> f ! ?i = s ! ?i)" by (rule match_len_stop)
  show ?thesis
  proof
    assume "match_here f s"
    then consider "chr_at f ?i = Some CHR ''*''" | "chr_at s ?i = chr_at f ?i"
      by (auto simp: match_here_def Let_def)
    then show "core_matches f s"
    proof cases
      case 1
      then have "?i < length f" "f ! ?i = CHR ''*''" by (auto simp: chr_at_def split: if_splits)
      then have "f = take ?i s @ CHR ''*'' # drop (Suc ?i) f"
        by (metis pre id_take_nth_drop)
      moreover have "prefix (take ?i s) s" by (rule take_is_prefix)
      ultimately show ?thesis unfolding core_matches_def by blast
    next
      case 2
      then have "?i = length f \<and> ?i = length s"
        using le stop nul by (auto simp: chr_at_def split: if_splits) (metis nth_mem)+
      then show ?thesis using pre by (simp add: core_matches_def)
    qed
  next
    assume "core_matches f s"
    then consider "f = s" | g h where "f = g @ CHR ''*'' # h" "prefix g s"
      by (auto simp: core_matches_def)
    then show "match_here f s"
    proof cases
      case 1
      then have "?i = length f" using le stop by auto
      then show ?thesis using 1 by (simp add: match_here_def Let_def)
    next
      case 2
      then obtain t where t: "s = g @ t" by (auto simp: prefix_def)
      have "length g \<le> ?i"
      proof (rule ccontr)
        assume "\<not> length g \<le> ?i"
        then show False using stop 2 t by (auto simp: nth_append)
      qed
      moreover have "\<not> length g < ?i"
      proof
        assume g: "length g < ?i"
        then have "take ?i f ! length g = CHR ''*''" using 2 by (simp add: nth_append)
        moreover have "take ?i s ! length g \<in> set s" using g le by (metis nth_mem nth_take order_less_le_trans)
        ultimately show False using pre star by simp
      qed
      ultimately have "?i = length g" by simp
      then show ?thesis using 2 by (simp add: match_here_def Let_def chr_at_def)
    qed
  qed
qed

definition star_matches :: "string \<Rightarrow> string \<Rightarrow> bool" where
  "star_matches f s \<longleftrightarrow> (\<exists>t. t \<noteq> [] \<and> suffix t s \<and> core_matches f t)"

lemma match_from_iff:
  "s \<noteq> [] \<Longrightarrow> CHR ''*'' \<notin> set s \<Longrightarrow> CHR 0x00 \<notin> set s \<Longrightarrow> CHR 0x00 \<notin> set f \<Longrightarrow>
     match_from star f s = Some (if star then star_matches f s else core_matches f s)"
proof (induction star f s rule: match_from.induct)
  case (1 star f s)
  then have here: "match_here f s = core_matches f s" by (intro match_here_iff)
  obtain c s' where s: "s = c # s'" using "1.prems" by (cases s) auto
  have suf: "star_matches f s \<longleftrightarrow> core_matches f s \<or> star_matches f s'"
    by (auto simp: star_matches_def s suffix_Cons)
  show ?case
  proof (cases s')
    case Nil
    then have "\<not> star_matches f s'" by (simp add: star_matches_def)
    with Nil s here suf show ?thesis by (subst match_from.simps) auto
  next
    case (Cons d s'')
    then show ?thesis
      using "1.IH" [of c s' d s''] "1.prems" here suf s by (subst match_from.simps) auto
  qed
qed

text \<open>A pattern of the filter lists.\<close>

definition glob :: "string \<Rightarrow> string \<Rightarrow> bool" where
  "glob v s \<longleftrightarrow> v = ''*'' \<or> (case v of
       c # f \<Rightarrow> if c = CHR ''*'' then star_matches f s else core_matches v s
     | [] \<Rightarrow> False)"

definition plain_name :: "string \<Rightarrow> bool" where
  "plain_name s \<longleftrightarrow> s \<noteq> [] \<and> CHR ''*'' \<notin> set s \<and> CHR 0x00 \<notin> set s"

lemma is_filter_iff:
  assumes "plain_name s"
  shows "\<forall>v \<in> set list. CHR 0x00 \<notin> set v \<Longrightarrow> is_filter list s = Some (\<exists>v \<in> set list. glob v s)"
proof (induction list)
  case (Cons v list)
  then show ?case
    using match_from_iff [of s "tl v" True] match_from_iff [of s v False] assms
    by (cases v) (auto simp: glob_def plain_name_def core_matches_def)
qed simp

text \<open>The readable forms of a pattern.\<close>

lemma glob_plain:
  assumes "plain_name v"
  shows "glob v s \<longleftrightarrow> v = s" 
    and "glob (v @ ''*'') s \<longleftrightarrow> prefix v s"
proof -
  have v: "\<exists>c f. v = c # f \<and> c \<noteq> CHR ''*''" using assms by (cases v) (auto simp: plain_name_def)
  have "v \<noteq> g @ CHR ''*'' # h" for g h using assms by (auto simp: plain_name_def)
  then have "core_matches v s \<longleftrightarrow> v = s" by (auto simp: core_matches_def)
  with v show "glob v s \<longleftrightarrow> v = s" by (auto simp: glob_def)
  have "v @ ''*'' = g @ CHR ''*'' # h \<longleftrightarrow> g = v \<and> h = []" for g h
    using assms by (auto simp: plain_name_def append_eq_append_conv2 append_eq_Cons_conv Cons_eq_append_conv)
  then have "core_matches (v @ ''*'') s \<longleftrightarrow> prefix v s \<or> v @ ''*'' = s"
    by (auto simp: core_matches_def)
  with v show "glob (v @ ''*'') s \<longleftrightarrow> prefix v s" by (auto simp: glob_def prefix_def)
qed

section \<open>Setting the filter\<close>

lemma strtok_all_step:
  "dropWhile (\<lambda>c. c = d) s = c # cs \<Longrightarrow>
     strtok_all d s = (c # takeWhile (\<lambda>c. c \<noteq> d) cs) # strtok_all d (dropWhile (\<lambda>c. c \<noteq> d) cs)"
  by (subst strtok_all.simps) simp

lemma strtok_all_end: "dropWhile (\<lambda>c. c = d) s = [] \<Longrightarrow> strtok_all d s = []"
  by (subst strtok_all.simps) (simp only: list.case)

lemma strtok_all_tokens: "t \<in> set (strtok_all d s) \<Longrightarrow> t \<noteq> [] \<and> d \<notin> set t \<and> set t \<subseteq> set s"
proof (induction d s rule: strtok_all.induct)
  case (1 d s)
  show ?case
  proof (cases "dropWhile (\<lambda>c. c = d) s")
    case (Cons c cs)
    have c: "c \<noteq> d" using hd_dropWhile [of "\<lambda>c. c = d" s] Cons by simp
    have sub: "set (c # cs) \<subseteq> set s" using set_dropWhileD [of _ "\<lambda>c. c = d" s] Cons by auto
    from "1.prems" consider "t = c # takeWhile (\<lambda>c. c \<noteq> d) cs"
      | "t \<in> set (strtok_all d (dropWhile (\<lambda>c. c \<noteq> d) cs))"
      by (auto simp: strtok_all_step [OF Cons])
    then show ?thesis
    proof cases
      case 1
      with c sub show ?thesis by (auto dest: set_takeWhileD)
    next
      case 2
      from "1.IH" [OF Cons 2] sub show ?thesis by (auto dest: set_dropWhileD)
    qed
  qed (use "1.prems" in \<open>simp add: strtok_all_end\<close>)
qed

text \<open>No character but the separators is lost.\<close>

lemma strtok_all_concat: "concat (strtok_all d s) = filter (\<lambda>c. c \<noteq> d) s"
proof (induction d s rule: strtok_all.induct)
  case (1 d s)
  have skip: "filter (\<lambda>c. c \<noteq> d) (dropWhile (\<lambda>c. c = d) s) = filter (\<lambda>c. c \<noteq> d) s"
    by (induction s) auto
  show ?case
  proof (cases "dropWhile (\<lambda>c. c = d) s")
    case Nil
    with skip show ?thesis by (simp add: strtok_all_end)
  next
    case (Cons c cs)
    have c: "c \<noteq> d" using hd_dropWhile [of "\<lambda>c. c = d" s] Cons by simp
    have "filter (\<lambda>c. c \<noteq> d) cs = takeWhile (\<lambda>c. c \<noteq> d) cs @ filter (\<lambda>c. c \<noteq> d) (dropWhile (\<lambda>c. c \<noteq> d) cs)"
      by (induction cs) auto
    with c "1.IH" [OF Cons] skip Cons show ?thesis by (simp add: strtok_all_step [OF Cons])
  qed
qed

definition is_exclusion :: "string \<Rightarrow> bool" where
  "is_exclusion t \<longleftrightarrow> (case t of c # _ \<Rightarrow> c = CHR ''-'' | [] \<Rightarrow> False)"

lemma add_filters_lists:
  "include_list (add_filters st toks) = include_list st @ filter (\<lambda>t. \<not> is_exclusion t) toks
   \<and> exclude_list (add_filters st toks) = exclude_list st @ map tl (filter is_exclusion toks)
   \<and> log_level (add_filters st toks) = log_level st"
proof (induction toks arbitrary: st)
  case (Cons t toks)
  show ?case
  proof (cases "is_exclusion t")
    case True
    then obtain f where "t = CHR ''-'' # f" by (auto simp: is_exclusion_def split: list.splits)
    with Cons show ?thesis by (simp add: is_exclusion_def push_filter_append)
  next
    case False
    then have "(case t of CHR ''-'' # f \<Rightarrow> st\<lparr>exclude_list := push_filter (exclude_list st) f\<rparr>
       | _ \<Rightarrow> st\<lparr>include_list := push_filter (include_list st) t\<rparr>) = st\<lparr>include_list := push_filter (include_list st) t\<rparr>"
      by (auto simp: is_exclusion_def split: list.splits char.splits bool.splits)
    with Cons False show ?thesis by (simp add: push_filter_append)
  qed
qed simp

definition no_nul :: "logger_state \<Rightarrow> bool" where
  "no_nul st \<longleftrightarrow> (\<forall>v \<in> set (include_list st) \<union> set (exclude_list st). CHR 0x00 \<notin> set v)"

lemma logger_set_filter_no_nul:
  assumes "no_nul st" and "\<And>s. f = Some s \<Longrightarrow> CHR 0x00 \<notin> set s"
  shows "no_nul (logger_set_filter st f)"
proof -
  let ?s = "case f of None \<Rightarrow> '''' | Some s \<Rightarrow> s"
  have "CHR 0x00 \<notin> set t" if "t \<in> set (strtok_all CHR '','' ?s)" for t
    using strtok_all_tokens [OF that] assms(2) by (auto split: option.splits)
  moreover have "set (tl t) \<subseteq> set t" for t :: string by (cases t) auto
  ultimately show ?thesis using assms(1)
    by (auto simp: no_nul_def logger_set_filter_def add_filters_lists)
qed

lemma is_logging_iff:
  assumes "plain_name s" "no_nul st"
  shows "is_logging st s = Some ((include_list st = [] \<or> (\<exists>v \<in> set (include_list st). glob v s))
     \<and> \<not> (\<exists>v \<in> set (exclude_list st). glob v s))"
  using assms is_filter_iff [OF assms(1), of "include_list st"] is_filter_iff [OF assms(1), of "exclude_list st"]
  by (auto simp: is_logging_def no_nul_def)

section \<open>Properties\<close>

text \<open>Setting a filter splits the option at its commas (no pattern is empty or holds a comma,
  no other character is lost) and appends the patterns, in order: those that start with a dash,
  without it, to the exclude list, the others to the include list.\<close>

theorem logger_filter_lists:
  "\<exists>toks. concat toks = filter (\<lambda>c. c \<noteq> CHR '','') s \<and> (\<forall>t \<in> set toks. t \<noteq> [] \<and> CHR '','' \<notin> set t)
     \<and> include_list (logger_set_filter st (Some s)) = include_list st @ filter (\<lambda>t. \<not> is_exclusion t) toks
     \<and> exclude_list (logger_set_filter st (Some s)) = exclude_list st @ map tl (filter is_exclusion toks)"
  using strtok_all_concat [of "CHR '',''" s] strtok_all_tokens [of _ "CHR '',''" s]
    add_filters_lists [of st "strtok_all CHR '','' s"]
  by (auto simp: logger_set_filter_def)

theorem logger_filter_lists_witness:
  "include_list (logger_set_filter init_logger_state (Some '',,'')) = []
     \<and> exclude_list (logger_set_filter init_logger_state (Some '',,'')) = []"
proof -
  obtain toks where "concat toks = filter (\<lambda>c. c \<noteq> CHR '','') '',,''"
    and ne: "\<forall>t \<in> set toks. t \<noteq> [] \<and> CHR '','' \<notin> set t"
    and incl: "include_list (logger_set_filter init_logger_state (Some '',,''))
      = include_list init_logger_state @ filter (\<lambda>t. \<not> is_exclusion t) toks"
    and excl: "exclude_list (logger_set_filter init_logger_state (Some '',,''))
      = exclude_list init_logger_state @ map tl (filter is_exclusion toks)"
    using logger_filter_lists [of "'',,''" init_logger_state] by blast
  then have "\<forall>t \<in> set toks. t = []" by simp
  with ne have "toks = []" by (cases toks) auto
  with incl excl show ?thesis by (simp add: init_logger_state_def)
qed

text \<open>C29: Which functions log: for every function name the matcher terminates without reading
  outside the strings and lets a function log exactly when it matches an include pattern, or
  there is none, and matches no exclude pattern. A pattern is \<open>*\<close>, a name, a prefix followed by
  \<open>*\<close>, or either of them behind a leading \<open>*\<close>, which then may match at any later position.\<close>

theorem logging_decision:
  assumes "plain_name s" and "no_nul st" and "\<And>t. f = Some t \<Longrightarrow> CHR 0x00 \<notin> set t"
    and "st' = logger_set_filter st f"
  shows "is_logging st' s = Some ((include_list st' = [] \<or> (\<exists>v \<in> set (include_list st'). glob v s))
     \<and> \<not> (\<exists>v \<in> set (exclude_list st'). glob v s))"
  unfolding assms(4) by (rule is_logging_iff [OF assms(1) logger_set_filter_no_nul [OF assms(2,3)]])

theorem logging_decision_witness:
  "is_logging (logger_set_filter init_logger_state (Some ''parse*,-parse_cmdline'')) ''parse_template'' = Some True"
proof -
  let ?st = "logger_set_filter init_logger_state (Some ''parse*,-parse_cmdline'')"
  have st: "?st = \<lparr>log_level = 0, include_list = [''parse*''], exclude_list = [''parse_cmdline'']\<rparr>"
    by (simp add: logger_set_filter_def strtok_all.simps init_logger_state_def)
  have "is_logging ?st ''parse_template'' = Some ((include_list ?st = []
        \<or> (\<exists>v \<in> set (include_list ?st). glob v ''parse_template''))
      \<and> \<not> (\<exists>v \<in> set (exclude_list ?st). glob v ''parse_template''))"
    by (rule logging_decision [OF _ _ _ refl]) (auto simp: plain_name_def no_nul_def init_logger_state_def)
  moreover have "glob ''parse*'' ''parse_template''" "\<not> glob ''parse_cmdline'' ''parse_template''"
    using glob_plain(2) [of "''parse''" "''parse_template''"] glob_plain(1) [of "''parse_cmdline''" "''parse_template''"]
    by (simp_all add: plain_name_def)
  ultimately show ?thesis by (simp add: st)
qed

text \<open>Setting the level does not clamp it as it sets out to: of its three assignments the
  last one wins, so a level below 0 stays and the level 6, one above the last name of the level
  table, passes; only levels above 6 become 5.\<close>

theorem logger_level_clamp:
  "logger_get_level (logger_set_level st n) = (if n > 6 then 5 else n)"
  by (simp add: logger_get_level_def logger_set_level_def Let_def)

end
