(* ===== verification/Packet_Handler.thy ===== *)
theory Packet_Handler
  imports Headers Ipfix_Templates Logger
begin

unbundle bit_operations_syntax

text \<open>
  Processing a captured packet (\<^verbatim>\<open>src/packet_handler.c\<close>): link-layer type, offsets, selection,
  hash, the decision to sample, and the data record. The capture object, its length, the time
  stamp and the device are arguments; the result is the device after the packet and the calls
  into libipfix. \<open>None\<close> is a memory fault.
\<close>

section \<open>Reading fields\<close>

record timeval =
  tv_sec :: u64
  tv_usec :: u64

record packet_info =
  ts :: timeval
  pi_length :: u32
  nettype :: u16

definition get_ttl :: "packet \<Rightarrow> u32 \<Rightarrow> byte \<Rightarrow> byte option" where
  "get_ttl p offs ntype =
     (if ntype = N_IP then rd8 (pview p) (unat (offs + 8))
      else if ntype = N_IP6 then rd8 (pview p) (unat (offs + 7))
      else Some 0)"

definition get_ip_length :: "packet \<Rightarrow> u32 \<Rightarrow> byte \<Rightarrow> u16 option" where
  "get_ip_length p offs ntype =
     (if ntype = N_IP then map_option ntohs (load16 (pview p) (unat (offs + 2)))
      else if ntype = N_IP6 then map_option ntohs (load16 (pview p) (unat (offs + 4)))
      else Some 0)"

text \<open>The address is returned as a pointer; its four bytes are what the exporter reads.\<close>

definition get_ipa :: "packet \<Rightarrow> u32 \<Rightarrow> byte \<Rightarrow> byte list option" where
  "get_ipa p offs ntype =
     (if ntype = N_IP then rd_slice (pview p) (unat offs + 12) 4 else Some [0, 0, 0, 0])"

definition get_port :: "packet \<Rightarrow> u32 \<Rightarrow> byte \<Rightarrow> u16 option" where
  "get_port p offs transtype =
     (if transtype = T_UDP \<or> transtype = T_TCP \<or> transtype = T_SCTP
      then map_option ntohs (load16 (pview p) (unat offs)) else Some 0)"

definition get_nettype :: "packet \<Rightarrow> dlt \<Rightarrow> u16 option" where
  "get_nettype p linktype = (case linktype of
       DLT_EN10MB \<Rightarrow> map_option ntohs (load16 (pview p) 12)
     | DLT_ATM_RFC1483 \<Rightarrow> map_option ntohs (load16 (pview p) 6)
     | DLT_LINUX_SLL \<Rightarrow> map_option ntohs (load16 (pview p) 14)
     | DLT_RAW \<Rightarrow> Some 0
     | DLT_other _ \<Rightarrow> Some 0)"

definition get_nettype_pkt :: "packet \<Rightarrow> u16 option" where
  "get_nettype_pkt p =
     (if 20 \<le> p_len p then do {
        b \<leftarrow> rd8 (pview p) 0;
        Some (if b AND 0xF0 = 0x40 then 0x0800 else if b AND 0xF0 = 0x60 then 0x86DD else 0) }
      else Some 0)"

definition get_timestamp :: "timeval \<Rightarrow> u64" where
  "get_timestamp t = tv_sec t * 1000000 + tv_usec t"

text \<open>The decoders advance the packet.\<close>

definition advance :: "packet \<Rightarrow> u32 \<Rightarrow> packet" where
  "advance p n = p\<lparr>p_ptr := p_ptr p + unat n, p_len := p_len p - n\<rparr>"

definition decode_array :: "packet \<Rightarrow> (packet \<times> packet) option" where
  "decode_array p = do {
     n \<leftarrow> map_option ntohs (load16 (pview p) 0);
     let data = p\<lparr>p_ptr := p_ptr p + 2, p_len := ucast n\<rparr>;
     Some (data, advance p (ucast n + 2)) }"

definition decode_raw :: "packet \<Rightarrow> u32 \<Rightarrow> packet \<times> packet" where
  "decode_raw p len = (p\<lparr>p_len := len\<rparr>, advance p len)"

definition decode_uint32 :: "packet \<Rightarrow> (u32 \<times> packet) option" where
  "decode_uint32 p = do { v \<leftarrow> load32 (pview p) 0; Some (ntohl v, advance p 4) }"

definition decode_uint16 :: "packet \<Rightarrow> (u16 \<times> packet) option" where
  "decode_uint16 p = do { v \<leftarrow> load16 (pview p) 0; Some (ntohs v, advance p 2) }"

definition decode_uint8 :: "packet \<Rightarrow> (byte \<times> packet) option" where
  "decode_uint8 p = do { v \<leftarrow> rd8 (pview p) 0; Some (v, advance p 1) }"

definition apply_offset :: "packet \<Rightarrow> u32 \<Rightarrow> packet" where
  "apply_offset p offs = (if offs < p_len p then advance p offs else p\<lparr>p_len := 0\<rparr>)"

section \<open>The dump of the hash input at debug level\<close>

text \<open>
  \<^verbatim>\<open>sprintf(p, "%02x ", b[i])\<close> writes three characters and a NUL into \<^verbatim>\<open>str_buffer[3*bl]\<close>.
\<close>

definition hex_digit :: "byte \<Rightarrow> byte" where
  "hex_digit d = (if d < 10 then 48 + d else 87 + d)"

fun dump_loop :: "byte list \<Rightarrow> nat \<Rightarrow> byte list \<Rightarrow> byte list option" where
  "dump_loop m p [] = Some m"
| "dump_loop m p (b # bs) = do {
     m \<leftarrow> wr_slice m p [hex_digit (drop_bit 4 b), hex_digit (b AND 0xF), 32, 0];
     dump_loop m (p + 3) bs }"

definition debug_dump :: "byte list \<Rightarrow> byte list option" where
  "debug_dump bs = do {
     m \<leftarrow> dump_loop (replicate (3 * length bs) 0) 0 bs;
     wr_slice m (3 * length bs - 1) [0] }"

section \<open>Sampling a packet\<close>

text \<open>
  The hash of a packet: reset the buffer, find the headers, select, hash. No hash is computed
  when the selection is empty. The log level decides whether the input is dumped.
\<close>

record hashed =
  ph_offsets :: offsets
  ph_layers :: layers
  ph_buffer :: buffer
  ph_hash :: "u32 option"

definition packet_hash :: "options \<Rightarrow> range_select list \<Rightarrow> int \<Rightarrow> packet \<Rightarrow> buffer \<Rightarrow> hashed option" where
  "packet_hash opts rSel lvl p b = (let b = b\<lparr>b_len := 0\<rparr> in do {
     (offs, lays) \<leftarrow> findHeaders (pview p) (ucast (p_len p)) no_offsets no_layers;
     b \<leftarrow> call_selection (selection_function opts) rSel p b offs lays;
     if b_len b = 0 then Some \<lparr>ph_offsets = offs, ph_layers = lays, ph_buffer = b, ph_hash = None\<rparr>
     else do {
       hash_id \<leftarrow> call_hash (hash_function opts) b;
       _ \<leftarrow> (if lvl = LOGGER_LEVEL_DEBUG then map_option (\<lambda>_. ()) (debug_dump (content b)) else Some ());
       Some \<lparr>ph_offsets = offs, ph_layers = lays, ph_buffer = b, ph_hash = Some hash_id\<rparr> } })"

text \<open>
  The fields of the data record of a template; the inner \<open>None\<close> is the \<^verbatim>\<open>default\<close> case.
\<close>

definition sample_fields :: "nat \<Rightarrow> u32 \<Rightarrow> packet \<Rightarrow> offsets \<Rightarrow> layers \<Rightarrow> timeval \<Rightarrow> u32 \<Rightarrow> fields option option" where
  "sample_fields nf t_id p offs lays t hash_id =
     (let timestamp = get_timestamp t; net = L_NET offs; lnet = lay_net lays; tr = L_TRANS offs; ltr = lay_trans lays in
      if t_id = TS_ID then map_option Some (set_values nf [] [(F64 timestamp, 8), (F32 hash_id, 4)])
      else if t_id = MINT_ID then do {
        ttl \<leftarrow> get_ttl p net lnet;
        map_option Some (set_values nf [] [(F64 timestamp, 8), (F32 hash_id, 4), (F8 ttl, 1)]) }
      else if t_id = TS_TTL_PROTO_ID then do {
        ttl \<leftarrow> get_ttl p net lnet;
        len \<leftarrow> get_ip_length p net lnet;
        map_option Some (set_values nf [] [(F64 timestamp, 8), (F32 hash_id, 4), (F8 ttl, 1), (F16 len, 2),
          (F8 ltr, 1), (F8 lnet, 1)]) }
      else if t_id = TS_TTL_PROTO_IP_ID then do {
        ttl \<leftarrow> get_ttl p net lnet;
        len \<leftarrow> get_ip_length p net lnet;
        src_port \<leftarrow> get_port p tr ltr;
        dst_port \<leftarrow> get_port p (tr + 2) ltr;
        src_ipa \<leftarrow> get_ipa p net lnet;
        dst_ipa \<leftarrow> get_ipa p (net + 4) lnet;
        map_option Some (set_values nf [] [(F64 timestamp, 8), (F32 hash_id, 4), (F8 ttl, 1), (F16 len, 2),
          (F8 ltr, 1), (F8 lnet, 1), (FBytes src_ipa, 4), (F16 src_port, 2), (FBytes dst_ipa, 4), (F16 dst_port, 2)]) }
      else Some None)"

text \<open>The packet id is computed, although no data record contains it.\<close>

definition packet_id :: "options \<Rightarrow> u32 \<Rightarrow> buffer \<Rightarrow> u32 option" where
  "packet_id opts hash_id b =
     (if hashAsPacketID opts \<noteq> 0 then Some hash_id
      else case pktid_function opts of None \<Rightarrow> None | Some f \<Rightarrow> call_hash f b)"

definition effective_template :: "options \<Rightarrow> device \<Rightarrow> u32" where
  "effective_template opts dev = (if template_id dev = - 1 then templateID opts else template_id dev)"

text \<open>Sending the record, flushing, and the reset of the drop counter.\<close>

definition export_sample :: "options \<Rightarrow> u32 \<Rightarrow> nat \<Rightarrow> fields option \<Rightarrow> device \<Rightarrow>
    (device \<times> ipfix_event list) option" where
  "export_sample opts t_id nf fs dev = (case fs of
       None \<Rightarrow> Some (dev, [])
     | Some fs \<Rightarrow> do {
         ev \<leftarrow> export_array t_id nf fs;
         if export_packet_count opts \<le> dev_export_packet_count dev
         then Some (dev\<lparr>dev_export_packet_count := 0, packets_dropped := 0\<rparr>, [ev, Flush])
         else Some (dev\<lparr>packets_dropped := 0\<rparr>, [ev]) })"

definition handle_ip_packet :: "options \<Rightarrow> range_select list \<Rightarrow> int \<Rightarrow> packet \<Rightarrow> packet_info \<Rightarrow> device \<Rightarrow>
    (device \<times> ipfix_event list) option" where
  "handle_ip_packet opts rSel lvl p info dev = do {
     r \<leftarrow> packet_hash opts rSel lvl p (hash_buffer dev);
     let dev = dev\<lparr>hash_buffer := ph_buffer r\<rparr>;
     case ph_hash r of
       None \<Rightarrow> Some (dev, [])
     | Some hash_id \<Rightarrow>
         if sel_range_min opts \<le> hash_id \<and> hash_id \<le> sel_range_max opts then
           let dev = dev\<lparr>dev_export_packet_count := dev_export_packet_count dev + 1,
                         sampling_size := sampling_size dev + 1\<rparr> in
           if export_pktid_interval opts \<le> 0 then Some (dev, [])
           else do {
             pkt_id \<leftarrow> packet_id opts hash_id (ph_buffer r);
             let t_id = effective_template opts dev;
             tmpl \<leftarrow> get_template t_id;
             fs \<leftarrow> sample_fields (length tmpl) t_id p (ph_offsets r) (ph_layers r) (ts info) hash_id;
             export_sample opts t_id (length tmpl) fs dev }
         else Some (dev\<lparr>packets_dropped := packets_dropped dev + 1\<rparr>, []) }"

definition handle_default_packet :: "packet \<Rightarrow> packet_info \<Rightarrow> device \<Rightarrow> device \<times> ipfix_event list" where
  "handle_default_packet p info dev = (dev, [])"

text \<open>The entry point: the capture object, \<^verbatim>\<open>caplen\<close>, \<^verbatim>\<open>len\<close> and the time stamp.\<close>

record capture =
  c_data :: "byte list"
  c_caplen :: u32
  c_len :: u32
  c_ts :: timeval

definition handle_packet :: "options \<Rightarrow> range_select list \<Rightarrow> int \<Rightarrow> capture \<Rightarrow> device \<Rightarrow>
    (device \<times> ipfix_event list) option" where
  "handle_packet opts rSel lvl c dev =
     (let pkt = \<lparr>p_mem = c_data c, p_ptr = 0, p_len = c_caplen c\<rparr>;
          dev = dev\<lparr>sampling_delta_count := sampling_delta_count dev + 1,
                    totalpacketcount := totalpacketcount dev + 1\<rparr> in do {
       nt \<leftarrow> (case device_type dev of
                 TYPE_PCAP \<Rightarrow> get_nettype pkt (link_type dev)
               | TYPE_PCAP_FILE \<Rightarrow> get_nettype pkt (link_type dev)
               | TYPE_SOCKET_UNIX \<Rightarrow> get_nettype_pkt pkt
               | TYPE_SOCKET_INET \<Rightarrow> get_nettype_pkt pkt
               | _ \<Rightarrow> Some 0);
       let info = \<lparr>ts = c_ts c, pi_length = c_len c, nettype = nt\<rparr>;
       let pkt = apply_offset pkt (pkt_offset dev);
       let pkt = apply_offset pkt (opt_offset opts);
       if nt = 0x0800 \<or> nt = 0x86DD then handle_ip_packet opts rSel lvl pkt info dev
       else Some (handle_default_packet pkt info dev) })"

section \<open>The callback of a packet device\<close>

text \<open>
  The device's \<^verbatim>\<open>dispatch\<close> function reads packets from the operating system or libpcap and calls
  the handler for each: its result is a parameter, the packets it delivered (at most the count
  it was given) and its return value. A negative value stops the event watcher.
\<close>

abbreviation (input) PCAP_DISPATCH_PACKET_COUNT :: nat where "PCAP_DISPATCH_PACKET_COUNT \<equiv> 10"

datatype revent = EV_READ | EV_TIMER | EV_OTHER

datatype watcher_action = Keep | Deregister_io | Deregister_timer

fun handle_packets :: "options \<Rightarrow> range_select list \<Rightarrow> int \<Rightarrow> capture list \<Rightarrow> device \<Rightarrow>
    (device \<times> ipfix_event list) option" where
  "handle_packets opts rSel lvl [] dev = Some (dev, [])"
| "handle_packets opts rSel lvl (c # cs) dev = do {
     (dev, evs) \<leftarrow> handle_packet opts rSel lvl c dev;
     (dev, evs') \<leftarrow> handle_packets opts rSel lvl cs dev;
     Some (dev, evs @ evs') }"

definition packet_watcher_cb :: "options \<Rightarrow> range_select list \<Rightarrow> int \<Rightarrow> (nat \<Rightarrow> capture list \<times> int) \<Rightarrow>
    revent list \<Rightarrow> device \<Rightarrow> (device \<times> ipfix_event list \<times> watcher_action) option" where
  "packet_watcher_cb opts rSel lvl dispatch revents dev =
     (if device_type dev \<in> {TYPE_testtype, TYPE_PCAP_FILE, TYPE_PCAP, TYPE_SOCKET_INET, TYPE_SOCKET_UNIX} then do {
        let (cs, error_number) = dispatch PCAP_DISPATCH_PACKET_COUNT;
        (dev, evs) \<leftarrow> handle_packets opts rSel lvl cs dev;
        Some (dev, evs,
          if 0 > error_number
          then (if EV_READ \<in> set revents then Deregister_io
                else if EV_TIMER \<in> set revents then Deregister_timer else Keep)
          else Keep) }
      else Some (dev, [], Keep))"

end
