(* ===== verification/Number_Parsing.thy ===== *)
theory Number_Parsing
  imports C_Strings
begin

text \<open>
  The C library's number parsers as the option table uses them: \<^verbatim>\<open>strtoll(s, NULL, 0)\<close>, and
  \<^verbatim>\<open>strtod(s, NULL)\<close> and \<^verbatim>\<open>atof\<close> on decimal texts (no hexadecimal floats, \<^verbatim>\<open>inf\<close> or \<^verbatim>\<open>nan\<close>).
  Rounding to \<^verbatim>\<open>double\<close> is a function \<open>fl\<close> on the rationals.
\<close>

section \<open>Integers in base 8, 10 and 16\<close>

definition xdigit_val :: "char \<Rightarrow> nat" where
  "xdigit_val c = (if c_isdigit c then digit_val c else of_char (c_tolower c) - 87)"

definition c_isxdigit :: "char \<Rightarrow> bool" where
  "c_isxdigit c \<longleftrightarrow> c_isdigit c \<or> 97 \<le> (of_char (c_tolower c) :: nat) \<and> (of_char (c_tolower c) :: nat) \<le> 102"

definition base_digits :: "nat \<Rightarrow> string \<Rightarrow> string" where
  "base_digits b s = takeWhile (\<lambda>c. c_isxdigit c \<and> xdigit_val c < b) s"

definition base_value :: "nat \<Rightarrow> string \<Rightarrow> nat" where
  "base_value b ds = foldl (\<lambda>v d. b * v + xdigit_val d) 0 ds"

definition split_sign :: "string \<Rightarrow> bool \<times> string" where
  "split_sign s = (case s of [] \<Rightarrow> (False, [])
     | c # cs \<Rightarrow> if c = CHR ''-'' then (True, cs) else if c = CHR ''+'' then (False, cs) else (False, s))"

definition unsigned0 :: "string \<Rightarrow> nat" where
  "unsigned0 s = (case s of
       c # x # h # r \<Rightarrow>
         if c = CHR ''0'' then
           if (x = CHR ''x'' \<or> x = CHR ''X'') \<and> c_isxdigit h then base_value 16 (base_digits 16 (h # r))
           else base_value 8 (base_digits 8 s)
         else base_value 10 (base_digits 10 s)
     | c # _ \<Rightarrow> if c = CHR ''0'' then base_value 8 (base_digits 8 s) else base_value 10 (base_digits 10 s)
     | [] \<Rightarrow> 0)"

definition strtoll0 :: "string \<Rightarrow> int" where
  "strtoll0 s = (let (neg, u) = split_sign (dropWhile c_isspace s); v = int (unsigned0 u)
                 in clamp_long (if neg then - v else v))"

section \<open>Floating point\<close>

definition exponent :: "string \<Rightarrow> int" where
  "exponent s = (case s of
       c # cs \<Rightarrow>
         if c = CHR ''e'' \<or> c = CHR ''E'' then
           (let (neg, ds) = split_sign cs; v = int (dec_value (takeWhile c_isdigit ds))
            in if neg then - v else v)
         else 0
     | [] \<Rightarrow> 0)"

definition decimal :: "string \<Rightarrow> rat" where
  "decimal s =
     (let (neg, u) = split_sign (dropWhile c_isspace s);
          whole = takeWhile c_isdigit u;
          rest = dropWhile c_isdigit u;
          (frac, rest) = (case rest of
              c # cs \<Rightarrow> if c = CHR ''.'' then (takeWhile c_isdigit cs, dropWhile c_isdigit cs) else ([], rest)
            | [] \<Rightarrow> ([], []));
          m = of_nat (dec_value (whole @ frac)) / 10 ^ length frac;
          e = exponent rest;
          v = (if whole = [] \<and> frac = [] then 0 else if 0 \<le> e then m * 10 ^ nat e else m / 10 ^ nat (- e))
      in if neg then - v else v)"

definition strtod :: "(rat \<Rightarrow> rat) \<Rightarrow> string \<Rightarrow> rat" where
  "strtod fl s = fl (decimal s)"

text \<open>
  The conversion of a \<^verbatim>\<open>double\<close> to \<^verbatim>\<open>uint32_t\<close> on x86-64: truncation to 64 bits, of which the
  low half is kept; out of range the instruction yields the integer indefinite value.
\<close>

definition trunc_rat :: "rat \<Rightarrow> int" where
  "trunc_rat x = (if x < 0 then - \<lfloor>- x\<rfloor> else \<lfloor>x\<rfloor>)"

definition double_to_u32 :: "rat \<Rightarrow> u32" where
  "double_to_u32 x = (let v = trunc_rat x in if - (2 ^ 63) \<le> v \<and> v < 2 ^ 63 then word_of_int v else 0)"

section \<open>Lemmas\<close>

lemma clamp_long_range: "- (2 ^ 63) \<le> clamp_long v" "clamp_long v < 2 ^ 63"
  by (simp_all add: clamp_long_def)

lemma strtoll0_range: "- (2 ^ 63) \<le> strtoll0 s" "strtoll0 s < 2 ^ 63"
  by (simp_all only: strtoll0_def Let_def split: prod.split) (simp_all only: clamp_long_range simp_thms)

lemma digit_xdigit: "c_isdigit c \<Longrightarrow> c_isxdigit c \<and> xdigit_val c = digit_val c \<and> xdigit_val c < 10"
  by (auto simp: c_isxdigit_def xdigit_val_def c_isdigit_def digit_val_def)

lemma base_value_dec: "(\<And>c. c \<in> set ds \<Longrightarrow> c_isdigit c) \<Longrightarrow> base_value 10 ds = dec_value ds"
  unfolding base_value_def dec_value_def by (rule foldl_cong) (auto simp: digit_xdigit)

lemma dec_string_hd_0: "dec_string n \<noteq> [] \<and> (hd (dec_string n) = CHR ''0'' \<longrightarrow> n = 0)"
proof (induction n rule: dec_string.induct)
  case (1 n)
  show ?case
  proof (cases "n < 10")
    case True
    have "char_of (48 + n) = CHR ''0'' \<Longrightarrow> n = 0"
      by (drule arg_cong [where f = "of_char :: char \<Rightarrow> nat"]) (use True in simp)
    with True show ?thesis by (subst (2) dec_string.simps, subst dec_string.simps) simp
  next
    case False
    then have "dec_string n = dec_string (n div 10) @ [char_of (48 + n mod 10)]"
      by (subst dec_string.simps) simp
    with 1 False show ?thesis by (auto simp: div_eq_0_iff)
  qed
qed

text \<open>\<^verbatim>\<open>strtoll\<close> with base 0 reads printed decimal numbers back.\<close>

lemma strtoll0_dec_string:
  assumes n: "n < 2 ^ 63"
  shows "strtoll0 (dec_string n) = int n"
proof -
  obtain c cs where c: "dec_string n = c # cs" "c_isdigit c" using dec_string_Cons by blast
  have digits: "\<And>d. d \<in> set (c # cs) \<Longrightarrow> c_isdigit d" using dec_string_digits [of _ n] c by simp
  have tw: "base_digits 10 (c # cs) = c # cs"
    unfolding base_digits_def takeWhile_eq_all_conv using digits digit_xdigit by blast
  have "unsigned0 (c # cs) = n"
  proof (cases "c = CHR ''0''")
    case True
    then have "n = 0" using dec_string_hd_0 [of n] c by simp
    then have "cs = []" using c by (simp add: dec_string.simps)
    with True \<open>n = 0\<close> show ?thesis
      by (simp add: unsigned0_def base_digits_def base_value_def c_isxdigit_def c_isdigit_def xdigit_val_def digit_val_def)
  next
    case False
    then have "unsigned0 (c # cs) = base_value 10 (base_digits 10 (c # cs))"
      by (simp add: unsigned0_def split: list.split)
    also have "\<dots> = n"
      by (simp only: tw base_value_dec [OF digits]) (simp add: c(1) [symmetric])
    finally show ?thesis .
  qed
  moreover have "split_sign (dropWhile c_isspace (c # cs)) = (False, c # cs)"
    using digit_not_special [OF c(2)] by (simp add: split_sign_def)
  ultimately show ?thesis using n c by (simp add: strtoll0_def clamp_long_def)
qed

end
