(* ===== verification/Options.thy ===== *)
theory Options
  imports Packet_Handler Number_Parsing
begin

text \<open>
  The option table (\<^verbatim>\<open>src/settings.c\<close>): setters, the parsers of option values, one handler per
  option, the table that maps letters and configuration keys to handlers, the configuration
  file reader and the command line. The state holds every object a handler writes. An outcome
  is the handler's return value, the end of the process, a memory fault, or an exhausted stack
  of nested configuration files. The file system and the rounding of \<^verbatim>\<open>double\<close> are arguments.
\<close>

section \<open>State\<close>

record settings =
  s_opts :: options
  if_devices :: "device list"
  s_rSel :: "range_select list"
  t_idx :: u32
  s_logger :: logger_state

datatype outcome = Returned int settings | Exited int | Fault | Too_deep

record libc =
  fopen_text :: "string \<Rightarrow> string option"
  rounding :: "rat \<Rightarrow> rat"

definition upd :: "(options \<Rightarrow> options) \<Rightarrow> settings \<Rightarrow> settings" where
  "upd f s = s\<lparr>s_opts := f (s_opts s)\<rparr>"

definition upd_dev :: "nat \<Rightarrow> (device \<Rightarrow> device) \<Rightarrow> settings \<Rightarrow> settings" where
  "upd_dev i f s = s\<lparr>if_devices := (if_devices s)[i := f (if_devices s ! i)]\<rparr>"

abbreviation (input) AF_INET :: int where "AF_INET \<equiv> 2"
abbreviation (input) AF_INET6 :: int where "AF_INET6 \<equiv> 10"
abbreviation (input) UINT32_MAX :: u32 where "UINT32_MAX \<equiv> 0xFFFFFFFF"

definition wrap16 :: "int \<Rightarrow> int" where
  "wrap16 v = signed_take_bit 15 v"

section \<open>Setters and value parsers\<close>

definition clamp_u32 :: "int \<Rightarrow> u32" where
  "clamp_u32 value = (if uint UINT32_MAX < value then UINT32_MAX
     else if 0 > value then 0 else word_of_int value)"

definition set_sampling_lowerbound :: "options \<Rightarrow> string \<Rightarrow> options" where
  "set_sampling_lowerbound opts s =
     (let opts = opts\<lparr>sel_range_min := clamp_u32 (strtoll0 s)\<rparr>
      in if sel_range_max opts < sel_range_min opts
         then opts\<lparr>sel_range_max := sel_range_min opts\<rparr> else opts)"

definition set_sampling_upperbound :: "options \<Rightarrow> string \<Rightarrow> options" where
  "set_sampling_upperbound opts s =
     (let opts = opts\<lparr>sel_range_max := clamp_u32 (strtoll0 s)\<rparr>
      in if sel_range_max opts < sel_range_min opts
         then opts\<lparr>sel_range_min := sel_range_max opts\<rparr> else opts)"

text \<open>\<open>ratio_max\<close> is the value of \<^verbatim>\<open>(double) UINT32_MAX / 100 * sampling_ratio\<close> as \<^verbatim>\<open>uint32_t\<close>.\<close>

definition ratio_max :: "(rat \<Rightarrow> rat) \<Rightarrow> string \<Rightarrow> u32" where
  "ratio_max fl value = double_to_u32 (fl (fl (4294967295 / 100) * strtod fl value))"

definition set_sampling_ratio :: "(rat \<Rightarrow> rat) \<Rightarrow> options \<Rightarrow> string \<Rightarrow> options" where
  "set_sampling_ratio fl opts value =
     (let opts = opts\<lparr>sel_range_min := 0x19999999\<rparr>;
          opts = opts\<lparr>sel_range_max := ratio_max fl value\<rparr>
      in if UINT32_MAX - sel_range_max opts > sel_range_min opts
         then let opts = opts\<lparr>sel_range_min := 0x19999999\<rparr>
              in opts\<lparr>sel_range_max := sel_range_max opts + sel_range_min opts\<rparr>
         else let opts = opts\<lparr>sel_range_min := UINT32_MAX - sel_range_max opts\<rparr>
              in opts\<lparr>sel_range_max := UINT32_MAX\<rparr>)"

definition template_names :: "(string \<times> int) list" where
  "template_names = [(''min'', 4), (''lp'', 6), (''ls'', 7), (''ts'', 5)]"

fun find_template :: "(string \<times> int) list \<Rightarrow> string \<Rightarrow> int" where
  "find_template [] arg = - 1"
| "find_template ((name, tid) # defs) arg = (if strcase_eq arg name then tid else find_template defs arg)"

definition parse_template :: "string \<Rightarrow> int" where
  "parse_template arg = find_template template_names (dropWhile c_isspace arg)"

definition selfunctions :: "(string \<times> sel_fn) list" where
  "selfunctions = [(''REC8'', Sel_Rec), (''IP'', Sel_Only_Net), (''IP+TP'', Sel_U_TCP_and_Net),
     (''PACKET'', Sel_Packet), (''RAW'', Sel_Raw), (''LAST'', Sel_Last), (''LINK'', Sel_Link),
     (''NET'', Sel_Net), (''TRANS'', Sel_Trans), (''PAYLOAD'', Sel_Payload), (''SELECT'', Sel_Raw)]"

text \<open>The loops do not stop at the first match.\<close>

fun sel_loop :: "(string \<times> sel_fn) list \<Rightarrow> string \<Rightarrow> settings \<Rightarrow> settings" where
  "sel_loop [] arg s = s"
| "sel_loop ((name, f) # fs) arg s =
     (if strncase_eq arg name (length name)
      then sel_loop fs arg
        ((upd (\<lambda>x. x\<lparr>selection_function := f\<rparr>) s)\<lparr>s_rSel := parseRange (drop (length name) arg)\<rparr>)
      else sel_loop fs arg s)"

definition parseSelFunction :: "string \<Rightarrow> settings \<Rightarrow> settings" where
  "parseSelFunction arg s = sel_loop selfunctions arg s"

definition hashfunctions :: "(string \<times> hash_fn) list" where
  "hashfunctions = [(''BOB'', BOB), (''TWMX'', TWMX), (''HSIEH'', HSIEH), (''OAAT'', OAAT)]"

fun hash_loop :: "(string \<times> hash_fn) list \<Rightarrow> string \<Rightarrow> hash_fn \<Rightarrow> hash_fn" where
  "hash_loop [] arg j = j"
| "hash_loop ((name, f) # fs) arg j =
     hash_loop fs arg (if strncase_eq arg name (length name) then f else j)"

definition parseFunction :: "string \<Rightarrow> hash_fn" where
  "parseFunction arg = hash_loop hashfunctions arg (snd (hashfunctions ! 0))"

section \<open>Defaults\<close>

definition set_defaults_options :: "options \<Rightarrow> options" where
  "set_defaults_options opts = opts\<lparr>
     verbosity_filter_string := '''', ai_family := AF_INET6, verbosity := 0, number_interfaces := 0,
     opt_offset := 0, bpf := None, templateID := MINT_ID, collectorPort := 4739,
     collectorIP := ''localhost'', observationDomainID := 0, hash_function := BOB,
     selection_function := Sel_U_TCP_and_Net, sel_range_min := 0x19999999, sel_range_max := 0x33333333,
     snapLength := 80, s_probe_name := None, s_location_name := ''unknown'', s_latitude := ''unknown'',
     s_longitude := ''unknown'', ipAddress := 0, export_packet_count := 1000,
     export_pktid_interval := 3, export_sampling_interval := 10, export_stats_interval := 30,
     export_location_interval := 60, hashAsPacketID := 1, use_oid_first_interface := 0\<rparr>"

definition set_defaults_device :: "options \<Rightarrow> device \<Rightarrow> device" where
  "set_defaults_device opts dev = dev\<lparr>packets_dropped := 0, dev_export_packet_count := 0,
     hash_buffer := \<lparr>b_mem = replicate (unat (snapLength opts)) 0, b_len = 0, b_size = ucast (snapLength opts)\<rparr>,
     template_id := - 1\<rparr>"

text \<open>\<open>g_options\<close> is static storage; its function pointers are only read after the defaults.\<close>

definition zero_options :: options where
  "zero_options = \<lparr>number_interfaces = 0, templateID = 0, opt_offset = 0, collectorIP = '''',
     collectorPort = 0, bpf = None, ai_family = 0, observationDomainID = 0, ipAddress = 0,
     hash_function = BOB, pktid_function = None, selection_function = Sel_U_TCP_and_Net,
     sel_range_min = 0, sel_range_max = 0, snapLength = 0, verbosity = 0, verbosity_filter_string = '''',
     export_packet_count = 0, s_latitude = '''', s_longitude = '''', s_probe_name = None,
     s_location_name = '''', export_pktid_interval = 0, export_sampling_interval = 0,
     export_stats_interval = 0, export_location_interval = 0, hashAsPacketID = 0,
     use_oid_first_interface = 0\<rparr>"

definition initial_settings :: settings where
  "initial_settings = \<lparr>s_opts = set_defaults_options zero_options,
     if_devices = replicate MAX_INTERFACES zero_device, s_rSel = baseSelection, t_idx = 0,
     s_logger = init_logger_state\<rparr>"

section \<open>One handler per option\<close>

definition make_lower :: "string \<Rightarrow> string" where
  "make_lower s = map c_tolower s"

definition opt_unknown_parameter :: "settings \<Rightarrow> outcome" where
  "opt_unknown_parameter s = Returned (- 1) s"

definition opt_C :: "string \<Rightarrow> settings \<Rightarrow> outcome" where
  "opt_C arg s = (if length arg < 256 then Returned 0 (upd (\<lambda>x. x\<lparr>collectorIP := arg\<rparr>) s) else Fault)"

definition opt_e :: "string \<Rightarrow> settings \<Rightarrow> outcome" where
  "opt_e arg s = Returned 0 (upd (\<lambda>x. x\<lparr>export_packet_count := word_of_int (atoi arg)\<rparr>) s)"

definition opt_f :: "string \<Rightarrow> settings \<Rightarrow> outcome" where
  "opt_f arg s = Returned 0 (upd (\<lambda>x. x\<lparr>bpf := Some arg\<rparr>) s)"

definition opt_h :: "settings \<Rightarrow> outcome" where
  "opt_h s = Exited 0"

text \<open>The type prefix: \<open>None\<close> is the \<^verbatim>\<open>default\<close> case, which leaves the type unchanged.\<close>

definition interface_type :: "char \<Rightarrow> device_type option" where
  "interface_type c =
     (if c = CHR ''i'' then Some TYPE_PCAP
      else if c = CHR ''p'' then Some TYPE_PCAP_FILE
      else if c = CHR ''f'' then Some TYPE_FILE
      else if c = CHR ''s'' then Some TYPE_SOCKET_INET
      else if c = CHR ''u'' then Some TYPE_SOCKET_UNIX
      else if c = CHR ''x'' then Some TYPE_UNKNOWN
      else None)"

definition set_interface :: "string \<Rightarrow> device \<Rightarrow> device option" where
  "set_interface arg dev = (case arg of
       [] \<Rightarrow> None
     | [c] \<Rightarrow> Some (dev\<lparr>device_type := TYPE_PCAP, device_name := arg\<rparr>)
     | c # d # nm \<Rightarrow>
         if CHR '':'' \<noteq> d then Some (dev\<lparr>device_type := TYPE_PCAP, device_name := arg\<rparr>)
         else Some (dev\<lparr>device_type := (case interface_type c of None \<Rightarrow> device_type dev | Some t \<Rightarrow> t),
                        device_name := nm\<rparr>))"

definition opt_i :: "string \<Rightarrow> settings \<Rightarrow> outcome" where
  "opt_i arg s = (let if_idx = unat (number_interfaces (s_opts s)) in
     if MAX_INTERFACES = if_idx then Returned 0 s
     else case set_interface arg (set_defaults_device (s_opts s) (if_devices s ! if_idx)) of
         None \<Rightarrow> Fault
       | Some dev \<Rightarrow> Returned 0 (upd (\<lambda>x. x\<lparr>number_interfaces := number_interfaces x + 1\<rparr>)
                                  (upd_dev if_idx (\<lambda>_. dev) s)))"

definition opt_I :: "libc \<Rightarrow> string \<Rightarrow> settings \<Rightarrow> outcome" where
  "opt_I lc arg s = Returned 0 (upd (\<lambda>x. x\<lparr>export_pktid_interval := strtod (rounding lc) arg\<rparr>) s)"

definition opt_J :: "libc \<Rightarrow> string \<Rightarrow> settings \<Rightarrow> outcome" where
  "opt_J lc arg s = Returned 0 (upd (\<lambda>x. x\<lparr>export_stats_interval := strtod (rounding lc) arg\<rparr>) s)"

definition opt_K :: "libc \<Rightarrow> string \<Rightarrow> settings \<Rightarrow> outcome" where
  "opt_K lc arg s = Returned 0 (upd (\<lambda>x. x\<lparr>export_sampling_interval := strtod (rounding lc) arg\<rparr>) s)"

definition opt_G :: "libc \<Rightarrow> string \<Rightarrow> settings \<Rightarrow> outcome" where
  "opt_G lc arg s = Returned 0 (upd (\<lambda>x. x\<lparr>export_location_interval := strtod (rounding lc) arg\<rparr>) s)"

definition opt_o :: "string \<Rightarrow> settings \<Rightarrow> outcome" where
  "opt_o arg s = Returned 0 (upd (\<lambda>x. x\<lparr>observationDomainID := word_of_int (atoi arg)\<rparr>) s)"

definition opt_O :: "string \<Rightarrow> settings \<Rightarrow> outcome" where
  "opt_O arg s = Returned 0 (upd (\<lambda>x. x\<lparr>opt_offset := word_of_int (atoi arg)\<rparr>) s)"

definition opt_t :: "string \<Rightarrow> settings \<Rightarrow> outcome" where
  "opt_t arg s =
     (let tid = word_of_int (parse_template arg) :: u32;
          s = upd (\<lambda>x. x\<lparr>templateID := (if - 1 = tid then templateID x else tid)\<rparr>) s
      in if unat (t_idx s) = MAX_INTERFACES then Returned 0 s
         else if unat (t_idx s) < MAX_INTERFACES
         then Returned 0 ((upd_dev (unat (t_idx s)) (\<lambda>d. d\<lparr>template_id := tid\<rparr>) s)\<lparr>t_idx := t_idx s + 1\<rparr>)
         else Fault)"

definition opt_4 :: "settings \<Rightarrow> outcome" where
  "opt_4 s = Returned 0 (upd (\<lambda>x. x\<lparr>ai_family := AF_INET\<rparr>) s)"

definition opt_6 :: "settings \<Rightarrow> outcome" where
  "opt_6 s = Returned 0 (upd (\<lambda>x. x\<lparr>ai_family := AF_INET6\<rparr>) s)"

definition opt_m :: "string \<Rightarrow> settings \<Rightarrow> outcome" where
  "opt_m arg s = Returned 0 (upd (\<lambda>x. set_sampling_lowerbound x arg) s)"

definition opt_M :: "string \<Rightarrow> settings \<Rightarrow> outcome" where
  "opt_M arg s = Returned 0 (upd (\<lambda>x. set_sampling_upperbound x arg) s)"

definition opt_r :: "libc \<Rightarrow> string \<Rightarrow> settings \<Rightarrow> outcome" where
  "opt_r lc arg s = Returned 0 (upd (\<lambda>x. set_sampling_ratio (rounding lc) x arg) s)"

definition opt_S :: "string \<Rightarrow> settings \<Rightarrow> outcome" where
  "opt_S arg s = Returned 0 (parseSelFunction arg s)"

definition opt_s :: "string \<Rightarrow> settings \<Rightarrow> outcome" where
  "opt_s arg s = opt_S arg s"

definition opt_F :: "string \<Rightarrow> settings \<Rightarrow> outcome" where
  "opt_F arg s = Returned 0 (upd (\<lambda>x. x\<lparr>hash_function := parseFunction arg\<rparr>) s)"

definition opt_p :: "string \<Rightarrow> settings \<Rightarrow> outcome" where
  "opt_p arg s = Returned 0 (upd (\<lambda>x. x\<lparr>pktid_function := Some (parseFunction arg), hashAsPacketID := 0\<rparr>) s)"

definition opt_P :: "string \<Rightarrow> settings \<Rightarrow> outcome" where
  "opt_P arg s =
     (let s = upd (\<lambda>x. x\<lparr>collectorPort := wrap16 (atoi arg)\<rparr>) s
      in if collectorPort (s_opts s) < 0 then Exited 1 else Returned 0 s)"

definition count_v :: "string \<Rightarrow> nat" where
  "count_v arg = length (takeWhile (\<lambda>c. c = CHR ''v'') arg)"

text \<open>The part of \<^verbatim>\<open>opt_v\<close> that both command line readers share.\<close>

definition set_verbosity :: "string option \<Rightarrow> options \<Rightarrow> options" where
  "set_verbosity arg x = (case arg of
       None \<Rightarrow> x\<lparr>verbosity := verbosity x + 1\<rparr>
     | Some a \<Rightarrow>
         if a \<noteq> [] \<and> c_isdigit (hd a) then x\<lparr>verbosity := word_of_int (atoi a)\<rparr>
         else x\<lparr>verbosity := verbosity x + 1 + of_nat (count_v a),
                verbosity_filter_string := dropWhile (\<lambda>c. c = CHR ''v'') a\<rparr>)"

definition opt_v :: "string option \<Rightarrow> settings \<Rightarrow> outcome" where
  "opt_v arg s =
     (let s = upd (set_verbosity arg) s;
          lg = logger_set_level (s_logger s) (uint (verbosity (s_opts s)));
          lg = logger_set_filter lg (Some (verbosity_filter_string (s_opts s)))
      in Returned 0 (s\<lparr>s_logger := lg\<rparr>))"

definition opt_V :: "settings \<Rightarrow> outcome" where
  "opt_V s = Exited 0"

definition opt_d :: "string \<Rightarrow> settings \<Rightarrow> outcome" where
  "opt_d arg s = Returned 0 (upd (\<lambda>x. x\<lparr>s_probe_name := Some arg\<rparr>) s)"

definition opt_D :: "string \<Rightarrow> settings \<Rightarrow> outcome" where
  "opt_D arg s = Returned 0 (upd (\<lambda>x. x\<lparr>s_location_name := arg\<rparr>) s)"

text \<open>The first two tokens of \<^verbatim>\<open>-l\<close> and \<^verbatim>\<open>-L\<close> go to two places, in opposite order.\<close>

definition set_interval :: "(rat \<Rightarrow> rat) \<Rightarrow> string list \<Rightarrow> options \<Rightarrow> options" where
  "set_interval fl toks x = (case toks of
       tok # _ \<Rightarrow> if tok \<noteq> [] \<and> c_isdigit (hd tok) then x\<lparr>export_location_interval := strtod fl tok\<rparr> else x
     | [] \<Rightarrow> x)"

definition set_latitude :: "(rat \<Rightarrow> rat) \<Rightarrow> string \<Rightarrow> options \<Rightarrow> options" where
  "set_latitude fl arg x = (case strtok_all CHR '':'' arg of
       [] \<Rightarrow> x
     | [a] \<Rightarrow> x\<lparr>s_latitude := a\<rparr>
     | a # b # toks \<Rightarrow> set_interval fl toks (x\<lparr>s_latitude := a, s_longitude := b\<rparr>))"

definition set_longitude :: "(rat \<Rightarrow> rat) \<Rightarrow> string \<Rightarrow> options \<Rightarrow> options" where
  "set_longitude fl arg x = (case strtok_all CHR '':'' arg of
       [] \<Rightarrow> x
     | [a] \<Rightarrow> x\<lparr>s_longitude := a\<rparr>
     | a # b # toks \<Rightarrow> set_interval fl toks (x\<lparr>s_longitude := a, s_latitude := b\<rparr>))"

definition opt_l :: "libc \<Rightarrow> string \<Rightarrow> settings \<Rightarrow> outcome" where
  "opt_l lc arg s = Returned 0 (upd (set_latitude (rounding lc) arg) s)"

definition opt_L :: "libc \<Rightarrow> string \<Rightarrow> settings \<Rightarrow> outcome" where
  "opt_L lc arg s = Returned 0 (upd (set_longitude (rounding lc) arg) s)"

definition opt_N :: "string \<Rightarrow> settings \<Rightarrow> outcome" where
  "opt_N arg s = Returned 0 (upd (\<lambda>x. x\<lparr>snapLength := word_of_int (atoi arg)\<rparr>) s)"

definition opt_u :: "settings \<Rightarrow> outcome" where
  "opt_u s = Returned 0 (upd (\<lambda>x. x\<lparr>use_oid_first_interface := 1\<rparr>) s)"

definition opt_n :: "settings \<Rightarrow> outcome" where
  "opt_n s = Returned 0 s"

definition opt_X :: "string \<Rightarrow> settings \<Rightarrow> outcome" where
  "opt_X arg s =
     (let b = \<lparr>b_mem = map of_char arg @ [0], b_len = of_nat (length arg), b_size = of_nat (length arg)\<rparr>
      in case call_hash (hash_function (s_opts s)) b of None \<Rightarrow> Fault | Some _ \<Rightarrow> Exited 0)"

definition opt_y :: "settings \<Rightarrow> outcome" where
  "opt_y s = Returned 0 s"

section \<open>The option table\<close>

datatype opt_fun =
    F_v | F_V | F_h | F_i | F_4 | F_6 | F_O | F_f | F_N | F_I | F_J | F_K | F_G | F_m | F_M | F_r
  | F_s | F_S | F_F | F_p | F_o | F_u | F_C | F_P | F_e | F_t | F_d | F_D | F_l | F_L | F_c | F_n
  | F_X | F_y | F_unknown

definition cfg_opt_list :: "(char \<times> string \<times> opt_fun \<times> string) list" where
  "cfg_opt_list = [
     (CHR ''v'', ''::'', F_v, ''general.verbosity''),
     (CHR ''V'', '''', F_V, ''''),
     (CHR ''h'', '''', F_h, ''general.help''),
     (CHR ''i'', '':'', F_i, ''capture.interface''),
     (CHR ''4'', '''', F_4, ''capture.ipv4''),
     (CHR ''6'', '''', F_6, ''capture.ipv6''),
     (CHR ''O'', '':'', F_O, ''capture.offset''),
     (CHR ''f'', '':'', F_f, ''filter.bpfilter''),
     (CHR ''N'', '':'', F_N, ''filter.snaplength''),
     (CHR ''I'', '':'', F_I, ''interval.data_export''),
     (CHR ''J'', '':'', F_J, ''interval.probe_stats''),
     (CHR ''K'', '':'', F_K, ''interval.interface_stats''),
     (CHR ''G'', '':'', F_G, ''interval.location''),
     (CHR ''m'', '':'', F_m, ''selection.min_hash_range''),
     (CHR ''M'', '':'', F_M, ''selection.max_hash_range''),
     (CHR ''r'', '':'', F_r, ''selection.hash_selection_ratio''),
     (CHR ''s'', '':'', F_s, ''selection.selection_preset''),
     (CHR ''S'', '':'', F_S, ''selection.selection_parts''),
     (CHR ''F'', '':'', F_F, ''selection.hash_function''),
     (CHR ''p'', '':'', F_p, ''selection.pktid_function''),
     (CHR ''o'', '':'', F_o, ''ipfix.observation_domain_id''),
     (CHR ''u'', '''', F_u, ''ipfix.one_odid''),
     (CHR ''C'', '':'', F_C, ''ipfix.collector_ip_address''),
     (CHR ''P'', '':'', F_P, ''ipfix.collector_port''),
     (CHR ''e'', '':'', F_e, ''ipfix.export_flush_count''),
     (CHR ''t'', '':'', F_t, ''template.used_template''),
     (CHR ''d'', '':'', F_d, ''geotags.probe_name''),
     (CHR ''D'', '':'', F_D, ''geotags.location_name''),
     (CHR ''l'', '':'', F_l, ''geotags.latitude''),
     (CHR ''L'', '':'', F_L, ''geotags.longitude''),
     (CHR ''c'', '':'', F_c, ''general.configfile''),
     (CHR ''n'', '''', F_n, ''''),
     (CHR ''X'', '':'', F_X, ''''),
     (CHR ''y'', '''', F_y, '''')]"

fun find_by_letter :: "(char \<times> string \<times> opt_fun \<times> string) list \<Rightarrow> char \<Rightarrow> opt_fun" where
  "find_by_letter [] c = F_unknown"
| "find_by_letter ((l, _, f, _) # opts) c = (if c = l then f else find_by_letter opts c)"

definition find_opt_function_char :: "char \<Rightarrow> opt_fun" where
  "find_opt_function_char c = find_by_letter cfg_opt_list c"

fun find_by_key :: "(char \<times> string \<times> opt_fun \<times> string) list \<Rightarrow> string \<Rightarrow> opt_fun" where
  "find_by_key [] key = F_unknown"
| "find_by_key ((_, _, f, item) # opts) key = (if key = item then f else find_by_key opts key)"

definition find_opt_function_key :: "string \<Rightarrow> opt_fun" where
  "find_opt_function_key key = find_by_key cfg_opt_list key"

fun find_letter :: "(char \<times> string \<times> opt_fun \<times> string) list \<Rightarrow> string \<Rightarrow> char" where
  "find_letter [] key = CHR 0x00"
| "find_letter ((l, _, _, item) # opts) key = (if key = item then l else find_letter opts key)"

definition find_opt_letter :: "string \<Rightarrow> char" where
  "find_opt_letter key = find_letter cfg_opt_list key"

text \<open>
  A call through the table. The argument is absent when \<^verbatim>\<open>optarg\<close> is \<^verbatim>\<open>NULL\<close>: a handler that
  reads it then faults. \<open>rc\<close> is the handler of \<^verbatim>\<open>-c\<close>, given below.
\<close>

definition with_arg :: "(string \<Rightarrow> settings \<Rightarrow> outcome) \<Rightarrow> string option \<Rightarrow> settings \<Rightarrow> outcome" where
  "with_arg f arg s = (case arg of None \<Rightarrow> Fault | Some a \<Rightarrow> f a s)"

definition call_opt :: "libc \<Rightarrow> (string \<Rightarrow> settings \<Rightarrow> outcome) \<Rightarrow> opt_fun \<Rightarrow> string option \<Rightarrow> settings \<Rightarrow> outcome" where
  "call_opt lc rc f arg s = (case f of
       F_v \<Rightarrow> opt_v arg s | F_V \<Rightarrow> opt_V s | F_h \<Rightarrow> opt_h s | F_i \<Rightarrow> with_arg opt_i arg s
     | F_4 \<Rightarrow> opt_4 s | F_6 \<Rightarrow> opt_6 s | F_O \<Rightarrow> with_arg opt_O arg s
     | F_f \<Rightarrow> with_arg opt_f arg s
     | F_N \<Rightarrow> with_arg opt_N arg s | F_I \<Rightarrow> with_arg (opt_I lc) arg s | F_J \<Rightarrow> with_arg (opt_J lc) arg s
     | F_K \<Rightarrow> with_arg (opt_K lc) arg s | F_G \<Rightarrow> with_arg (opt_G lc) arg s
     | F_m \<Rightarrow> with_arg opt_m arg s | F_M \<Rightarrow> with_arg opt_M arg s | F_r \<Rightarrow> with_arg (opt_r lc) arg s
     | F_s \<Rightarrow> with_arg opt_s arg s | F_S \<Rightarrow> with_arg opt_S arg s | F_F \<Rightarrow> with_arg opt_F arg s
     | F_p \<Rightarrow> with_arg opt_p arg s | F_o \<Rightarrow> with_arg opt_o arg s | F_u \<Rightarrow> opt_u s
     | F_C \<Rightarrow> with_arg opt_C arg s | F_P \<Rightarrow> with_arg opt_P arg s | F_e \<Rightarrow> with_arg opt_e arg s
     | F_t \<Rightarrow> with_arg opt_t arg s | F_d \<Rightarrow> with_arg opt_d arg s | F_D \<Rightarrow> with_arg opt_D arg s
     | F_l \<Rightarrow> with_arg (opt_l lc) arg s | F_L \<Rightarrow> with_arg (opt_L lc) arg s
     | F_c \<Rightarrow> with_arg rc arg s
     | F_n \<Rightarrow> opt_n s | F_X \<Rightarrow> with_arg opt_X arg s | F_y \<Rightarrow> opt_y s
     | F_unknown \<Rightarrow> opt_unknown_parameter s)"

section \<open>Configuration files\<close>

definition remove_comment :: "string \<Rightarrow> string" where
  "remove_comment s = takeWhile (\<lambda>c. c \<noteq> CHR ''#'') s"

text \<open>\<^verbatim>\<open>fgets(line, n + 1, file)\<close>: at most \<open>n\<close> characters, up to and with the newline.\<close>

fun fgets :: "nat \<Rightarrow> string \<Rightarrow> string \<times> string" where
  "fgets 0 s = ([], s)"
| "fgets (Suc n) [] = ([], [])"
| "fgets (Suc n) (c # s) =
     (if c = CHR 0x0A then ([c], s) else let (l, r) = fgets n s in (c # l, r))"

lemma fgets_split: "fst (fgets n s) @ snd (fgets n s) = s"
  by (induction n s rule: fgets.induct) (auto split: prod.splits)

lemma fgets_progress: "s \<noteq> [] \<Longrightarrow> 0 < n \<Longrightarrow> length (snd (fgets n s)) < length s"
proof -
  assume "s \<noteq> []" "0 < n"
  then have "fst (fgets n s) \<noteq> []"
    by (cases s; cases n) (auto split: prod.splits)
  with arg_cong [OF fgets_split [of n s], of length] show ?thesis by (cases "fst (fgets n s)") auto
qed

text \<open>The strings in \<^verbatim>\<open>line\<close> after each call; a NUL in the file ends the string.\<close>

function file_lines :: "string \<Rightarrow> string list" where
  "file_lines text = (if text = [] then []
     else let (l, r) = fgets 1999 text in takeWhile (\<lambda>c. c \<noteq> CHR 0x00) l # file_lines r)"
  by pat_completeness auto
termination
proof (relation "measure length", goal_cases)
  case (2 cs p l r)
  then show ?case using fgets_progress [of cs 1999] by (metis in_measure snd_conv zero_less_numeral)
qed simp

declare file_lines.simps [simp del]

text \<open>
  One line. The section heading is read by \<^verbatim>\<open>sscanf(line, "[%[a-zA-Z0-9 _+-]]", heading)\<close> into
  101 bytes; it is an array inside the loop that keeps its bytes from line to line and is
  uninitialised (\<open>None\<close>) until the first heading. \<^verbatim>\<open>fullkey\<close> has 200 bytes.
\<close>

datatype config_item = Skip_line | Heading string | Item string string | Overflow

definition heading_char :: "char \<Rightarrow> bool" where
  "heading_char c \<longleftrightarrow> 97 \<le> (of_char c :: nat) \<and> (of_char c :: nat) \<le> 122
     \<or> 65 \<le> (of_char c :: nat) \<and> (of_char c :: nat) \<le> 90 \<or> c_isdigit c \<or> c \<in> set '' _+-''"

definition scan_heading :: "string \<Rightarrow> string option" where
  "scan_heading line = (case line of
       c # cs \<Rightarrow> if c = CHR ''['' \<and> takeWhile heading_char cs \<noteq> [] then Some (takeWhile heading_char cs) else None
     | [] \<Rightarrow> None)"

definition split_item :: "string \<Rightarrow> string \<times> string" where
  "split_item line =
     (let key = takeWhile (\<lambda>c. c \<noteq> CHR ''='') line;
          value = drop (length key + 1) line
      in (make_lower (l_trim (r_trim key)), l_trim value))"

definition parse_line :: "string option \<Rightarrow> string \<Rightarrow> config_item" where
  "parse_line heading line0 =
     (let line = r_trim (remove_comment line0) in
      if 1 < length line then
        (case scan_heading line of
           Some h \<Rightarrow> if length h \<le> 100 then Heading (make_lower h) else Overflow
         | None \<Rightarrow>
             (case heading of
                None \<Rightarrow> Overflow
              | Some h \<Rightarrow>
                  (let (key, value) = split_item line; fullkey = h @ ''.'' @ key
                   in if length fullkey < 200 then Item fullkey value else Overflow)))
      else Skip_line)"

fun read_lines :: "libc \<Rightarrow> (string \<Rightarrow> settings \<Rightarrow> outcome) \<Rightarrow> string list \<Rightarrow> string option \<Rightarrow> settings \<Rightarrow> outcome" where
  "read_lines lc rc [] heading s = Returned 0 s"
| "read_lines lc rc (line # lines) heading s = (case parse_line heading line of
       Skip_line \<Rightarrow> read_lines lc rc lines heading s
     | Heading h \<Rightarrow> read_lines lc rc lines (Some h) s
     | Overflow \<Rightarrow> Fault
     | Item fullkey value \<Rightarrow>
         (case call_opt lc rc (find_opt_function_key fullkey) (Some value) s of
            Returned _ s' \<Rightarrow> read_lines lc rc lines heading s'
          | out \<Rightarrow> out))"

definition read_options_file_v2 :: "libc \<Rightarrow> (string \<Rightarrow> settings \<Rightarrow> outcome) \<Rightarrow> string \<Rightarrow> settings \<Rightarrow> outcome" where
  "read_options_file_v2 lc rc text s = read_lines lc rc (file_lines text) None s"

text \<open>
  \<^verbatim>\<open>-c\<close> may occur in a configuration file too; the first argument of \<open>opt_c\<close> bounds the nesting.
\<close>

primrec opt_c :: "nat \<Rightarrow> libc \<Rightarrow> string \<Rightarrow> settings \<Rightarrow> outcome" where
  "opt_c 0 lc arg s = Too_deep"
| "opt_c (Suc n) lc arg s = (case fopen_text lc arg of
       None \<Rightarrow> Exited 1
     | Some text \<Rightarrow> (case read_options_file_v2 lc (opt_c n lc) text s of
           Returned _ s' \<Rightarrow> Returned 0 s'
         | out \<Rightarrow> out))"

end
