(* ===== verification/Command_Line.thy ===== *)
theory Command_Line
  imports Options
begin

text \<open>
  The command line (\<^verbatim>\<open>src/settings.c\<close>): \<^verbatim>\<open>getopt\<close> as glibc implements it (operands are skipped,
  a double dash ends the options), \<^verbatim>\<open>parse_cmdline_v2\<close>, which \<^verbatim>\<open>main\<close> calls, and the older
  \<^verbatim>\<open>parse_cmdline\<close> with its configuration reader.
\<close>

section \<open>getopt\<close>

text \<open>What the parameter string says of a letter: the number of colons behind it.\<close>

fun opt_spec :: "string \<Rightarrow> char \<Rightarrow> nat option" where
  "opt_spec [] c = None"
| "opt_spec (p # ps) c =
     (if c = CHR '':'' \<or> c = CHR '';'' then None
      else if p = c then Some (length (takeWhile (\<lambda>x. x = CHR '':'') (take 2 ps)))
      else opt_spec ps c)"

text \<open>
  The options of one argument \<open>-abc\<close> (without its dash): the pairs of return value and
  \<^verbatim>\<open>optarg\<close>, and the arguments left.
\<close>

fun getopt_cluster :: "string \<Rightarrow> string \<Rightarrow> string list \<Rightarrow> (char \<times> string option) list \<times> string list" where
  "getopt_cluster par [] rest = ([], rest)"
| "getopt_cluster par (c # cs) rest = (case opt_spec par c of
       None \<Rightarrow> (let (evs, r) = getopt_cluster par cs rest in ((CHR ''?'', None) # evs, r))
     | Some 0 \<Rightarrow> (let (evs, r) = getopt_cluster par cs rest in ((c, None) # evs, r))
     | Some (Suc 0) \<Rightarrow>
         if cs \<noteq> [] then ([(c, Some cs)], rest)
         else (case rest of [] \<Rightarrow> ([(CHR ''?'', None)], []) | a # r \<Rightarrow> ([(c, Some a)], r))
     | Some _ \<Rightarrow> ([(c, if cs = [] then None else Some cs)], rest))"

lemma getopt_cluster_rest: "length (snd (getopt_cluster par cs rest)) \<le> length rest"
  by (induction par cs rest rule: getopt_cluster.induct)
    (auto split: option.splits nat.splits prod.splits list.splits)

function getopt_all :: "string \<Rightarrow> string list \<Rightarrow> (char \<times> string option) list" where
  "getopt_all par [] = []"
| "getopt_all par (a # rest) =
     (if a = ''--'' then []
      else if 1 < length a \<and> hd a = CHR ''-''
      then let (evs, r) = getopt_cluster par (tl a) rest in evs @ getopt_all par r
      else getopt_all par rest)"
  by pat_completeness auto
termination
proof (relation "measure (\<lambda>(par, args). length args)", goal_cases)
  case (2 par a rest p evs r)
  then show ?case using getopt_cluster_rest [of par "tl a" rest]
    by (metis (mono_tags, lifting) in_measure le_imp_less_Suc length_Cons old.prod.case snd_conv)
qed auto

declare getopt_all.simps [simp del]

section \<open>The command line of the program\<close>

text \<open>The parameter string is printed from the table into \<^verbatim>\<open>par[3*len]\<close>.\<close>

definition par_v2 :: string where
  "par_v2 = concat (map (\<lambda>(letter, need, _, _). letter # need) cfg_opt_list)"

fun run_opts :: "libc \<Rightarrow> (string \<Rightarrow> settings \<Rightarrow> outcome) \<Rightarrow> (char \<times> string option) list \<Rightarrow> settings \<Rightarrow> outcome" where
  "run_opts lc rc [] s = Returned 0 s"
| "run_opts lc rc ((c, optarg) # evs) s =
     (case call_opt lc rc (find_opt_function_char c) optarg s of
        Returned r s' \<Rightarrow> if r = - 1 then Exited (- 1) else run_opts lc rc evs s'
      | out \<Rightarrow> out)"

definition parse_cmdline_v2 :: "nat \<Rightarrow> libc \<Rightarrow> string list \<Rightarrow> settings \<Rightarrow> outcome" where
  "parse_cmdline_v2 depth lc argv s = run_opts lc (opt_c depth lc) (getopt_all par_v2 (tl argv)) s"

section \<open>The older reader\<close>

text \<open>
  \<^verbatim>\<open>read_options_file\<close> collects letters and values in \<^verbatim>\<open>g_config_file_options[200]\<close> and ends the
  table with a zero letter; \<open>None\<close> when something does not fit.
\<close>

fun read_items :: "string list \<Rightarrow> string option \<Rightarrow> (char \<times> string) list \<Rightarrow> (char \<times> string) list option" where
  "read_items [] heading acc = (if length acc < 200 then Some acc else None)"
| "read_items (line # lines) heading acc = (case parse_line heading line of
       Skip_line \<Rightarrow> read_items lines heading acc
     | Heading h \<Rightarrow> read_items lines (Some h) acc
     | Overflow \<Rightarrow> None
     | Item fullkey value \<Rightarrow>
         (let letter = find_opt_letter fullkey in
          if letter \<noteq> CHR 0x00
          then (if length acc < 200 then read_items lines heading (acc @ [(letter, value)]) else None)
          else read_items lines heading acc))"

definition read_options_file :: "string \<Rightarrow> (char \<times> string) list option" where
  "read_options_file cfg = read_items (file_lines cfg) None []"

definition par_v1 :: string where
  "par_v1 = ''c:hv::nyuJ:K:i:I:o:r:t:f:F:m:M:s:S:F:e:P:C:l:L:G:N:p:d:D:''"

text \<open>The first pass over the command line: every file replaces the table of the one before.\<close>

fun read_configs :: "libc \<Rightarrow> (char \<times> string option) list \<Rightarrow> (char \<times> string) list \<Rightarrow> (int option) + (char \<times> string) list" where
  "read_configs lc [] tab = Inr tab"
| "read_configs lc ((c, optarg) # evs) tab =
     (if c = CHR ''c'' then
        (case optarg of
           None \<Rightarrow> Inl None
         | Some name \<Rightarrow>
             (case fopen_text lc name of
                None \<Rightarrow> Inl (Some 1)
              | Some cfg \<Rightarrow>
                  (case read_options_file cfg of None \<Rightarrow> Inl None | Some tab' \<Rightarrow> read_configs lc evs tab')))
      else read_configs lc evs tab)"

text \<open>\<open>-i\<close> and \<open>-t\<close> as the old \<^verbatim>\<open>switch\<close> handles them, and the \<^verbatim>\<open>switch\<close>.\<close>

definition old_i :: "string \<Rightarrow> settings \<Rightarrow> outcome" where
  "old_i arg s = (let if_idx = unat (number_interfaces (s_opts s)) in
     if MAX_INTERFACES = if_idx then Returned 0 s
     else case set_interface arg (if_devices s ! if_idx) of
         None \<Rightarrow> Fault
       | Some dev \<Rightarrow> Returned 0 (upd (\<lambda>x. x\<lparr>number_interfaces := number_interfaces x + 1\<rparr>)
                                  (upd_dev if_idx (\<lambda>_. dev) s)))"

definition old_t :: "string \<Rightarrow> settings \<Rightarrow> outcome" where
  "old_t arg s = Returned 0 (upd (\<lambda>x. x\<lparr>templateID := word_of_int (parse_template arg)\<rparr>) s)"

definition old_switch :: "libc \<Rightarrow> char \<Rightarrow> string option \<Rightarrow> settings \<Rightarrow> outcome" where
  "old_switch lc c arg s =
     (if c = CHR ''c'' then Returned 0 s
      else if c = CHR ''C'' then with_arg opt_C arg s
      else if c = CHR ''e'' then with_arg opt_e arg s
      else if c = CHR ''f'' then with_arg opt_f arg s
      else if c = CHR ''h'' then Exited 0
      else if c = CHR ''i'' then with_arg old_i arg s
      else if c = CHR ''I'' then with_arg (opt_I lc) arg s
      else if c = CHR ''J'' then with_arg (opt_J lc) arg s
      else if c = CHR ''K'' then with_arg (opt_K lc) arg s
      else if c = CHR ''G'' then with_arg (opt_G lc) arg s
      else if c = CHR ''o'' then with_arg opt_o arg s
      else if c = CHR ''t'' then with_arg old_t arg s
      else if c = CHR ''m'' then with_arg opt_m arg s
      else if c = CHR ''M'' then with_arg opt_M arg s
      else if c = CHR ''r'' then with_arg (opt_r lc) arg s
      else if c = CHR ''s'' \<or> c = CHR ''S'' then with_arg opt_S arg s
      else if c = CHR ''F'' then with_arg opt_F arg s
      else if c = CHR ''p'' then with_arg opt_p arg s
      else if c = CHR ''P'' then with_arg opt_P arg s
      else if c = CHR ''v'' then Returned 0 (upd (set_verbosity arg) s)
      else if c = CHR ''d'' then with_arg opt_d arg s
      else if c = CHR ''D'' then with_arg opt_D arg s
      else if c = CHR ''l'' then with_arg (opt_l lc) arg s
      else if c = CHR ''L'' then with_arg (opt_L lc) arg s
      else if c = CHR ''N'' then with_arg opt_N arg s
      else if c = CHR ''u'' then opt_u s
      else Returned 0 s)"

fun old_run :: "libc \<Rightarrow> (char \<times> string option) list \<Rightarrow> settings \<Rightarrow> outcome" where
  "old_run lc [] s = Returned 0 s"
| "old_run lc ((c, arg) # evs) s =
     (case old_switch lc c arg s of Returned _ s' \<Rightarrow> old_run lc evs s' | out \<Rightarrow> out)"

definition parse_cmdline :: "libc \<Rightarrow> string list \<Rightarrow> settings \<Rightarrow> outcome" where
  "parse_cmdline lc argv s =
     (let s = upd (\<lambda>x. x\<lparr>number_interfaces := 0\<rparr>) s; evs = getopt_all par_v1 (tl argv) in
      case read_configs lc evs [] of
        Inl None \<Rightarrow> Fault
      | Inl (Some code) \<Rightarrow> Exited code
      | Inr tab \<Rightarrow> old_run lc (map (\<lambda>(l, v). (l, Some v)) tab @ evs) s)"

end
