(* ===== verification/Packet_Props.thy ===== *)
theory Packet_Props
  imports Packet_Handler
begin

unbundle bit_operations_syntax

text \<open>
  What the packet handler guarantees: the sampling decision depends on the packet only, and not
  on fields that routers change; the counters of the device follow the decision; every data
  record agrees with its template; the exporter is flushed after every \<open>export_packet_count\<close>
  records; complete packets are processed without a memory fault.
\<close>

section \<open>Network byte order\<close>

lemma ntohs_load:
  "ntohs (ucast (a :: byte) + push_bit 8 (ucast (b :: byte))) = push_bit 8 (ucast a) + ucast b"
proof -
  have d: "ucast a + push_bit 8 (ucast b) = ucast a OR (push_bit 8 (ucast b) :: u16)"
    by (rule disjunctive_add) (auto simp: bit_simps dest: bit_imp_le_length)
  have d2: "push_bit 8 (ucast a) + ucast b = push_bit 8 (ucast a) OR (ucast b :: u16)"
    by (rule disjunctive_add) (auto simp: bit_simps dest: bit_imp_le_length)
  show ?thesis unfolding ntohs_def d d2
    by (rule bit_word_eqI) (auto simp: bit_simps dest: bit_imp_le_length)
qed

lemma be16: "load16 m i = Some w \<Longrightarrow> ntohs w = push_bit 8 (ucast (m ! i)) + ucast (m ! (i + 1))"
  by (auto simp: load16_def bind_Some_conv rd8_eq_Some ntohs_load)

lemma pview_advance: "pview (advance p n) = drop (unat n) (pview p)"
  by (simp add: pview_def advance_def add.commute)

section \<open>The hash of a packet\<close>

lemma packet_hash_bsim:
  assumes "buffer_ok b1" "buffer_ok b2" "b_size b1 = b_size b2"
  shows "map_option ph_hash (packet_hash opts rs lvl p b2) = map_option ph_hash (packet_hash opts rs lvl p b1)"
proof (cases "findHeaders (pview p) (ucast (p_len p)) no_offsets no_layers")
  case None
  then show ?thesis by (simp add: packet_hash_def Let_def)
next
  case (Some hl)
  obtain h l where hl: "hl = (h, l)" by force
  let ?c1 = "call_selection (selection_function opts) rs p (b1\<lparr>b_len := 0\<rparr>) h l"
  let ?c2 = "call_selection (selection_function opts) rs p (b2\<lparr>b_len := 0\<rparr>) h l"
  have "rel_option (bsim (b_size b1)) ?c1 ?c2"
    by (rule sel.sel_bsim) (use assms in \<open>simp add: bsim_def buffer_ok_def content_def\<close>)
  then consider "?c1 = None" "?c2 = None"
    | x y where "?c1 = Some x" "?c2 = Some y" "bsim (b_size b1) x y"
    by (cases ?c1; cases ?c2) auto
  then show ?thesis
  proof cases
    case 1
    then show ?thesis by (simp add: packet_hash_def Let_def Some hl)
  next
    case 2
    then have xy: "b_len y = b_len x" "content y = content x" "buffer_ok x" "buffer_ok y"
      by (auto simp: bsim_def)
    then have "call_hash (hash_function opts) y = call_hash (hash_function opts) x"
      by (intro called.calc_content) auto
    with 2 xy called.calc_total [OF xy(3), of "hash_function opts"] show ?thesis
      by (cases "debug_dump (content x)") (auto simp: packet_hash_def Let_def Some hl)
  qed
qed

lemma packet_hash_hop:
  assumes "same_but (pview p) (pview p') (hop_bytes 0 (version (pview p) 0))" and "p_len p' = p_len p"
    and "version (pview p) 0 = N_IP \<and> 3 \<le> unat (pview p ! 0 AND 0x0F) \<or> version (pview p) 0 = N_IP6"
    and "skips_hop_bytes (selection_function opts)"
  shows "packet_hash opts rs lvl p' b = packet_hash opts rs lvl p b"
proof -
  have net0: "unat (L_NET no_offsets) = 0" by (simp add: no_offsets_def)
  have fh: "findHeaders (pview p') (ucast (p_len p)) no_offsets no_layers
      = findHeaders (pview p) (ucast (p_len p)) no_offsets no_layers"
    by (rule findHeaders_hop [of "pview p" "pview p'" no_offsets "version (pview p) 0"])
       (use assms(1,3) net0 in auto)
  show ?thesis
  proof (cases "findHeaders (pview p) (ucast (p_len p)) no_offsets no_layers")
    case None
    with fh assms(2) show ?thesis by (simp add: packet_hash_def Let_def)
  next
    case (Some hl)
    obtain h l where hl: "hl = (h, l)" by force
    from Some hl have run: "findHeaders (pview p) (ucast (p_len p)) no_offsets no_layers = Some (h, l)" by simp
    have net: "unat (L_NET h) = 0" using findHeaders_offsets [OF run] net0 by simp
    have "above_net h" "lay_net l = version (pview p) 0"
      using findHeaders_above_net [OF run] assms(3) net0 by auto
    then have "call_selection (selection_function opts) rs p' c h l
        = call_selection (selection_function opts) rs p c h l" for c
      by (intro selection_hop) (use assms net in auto)
    with run fh assms(2) show ?thesis by (simp add: packet_hash_def Let_def)
  qed
qed

section \<open>Data records\<close>

lemma sample_fields_record:
  assumes "get_template t_id = Some tmpl" "sample_fields (length tmpl) t_id p offs lays t v = Some (Some fs)"
  shows "record_ok tmpl fs"
  using assms
  by (auto simp: sample_fields_def Let_def get_template_ids template_defs record_ok_def bind_Some_conv
        get_ipa_def rd_slice_eq_Some set_value_def split: if_splits)

lemma record_ok_widths:
  "record_ok t fs \<Longrightarrow> length fs = length t \<and> list_all (\<lambda>(v, n). unat n \<le> field_width v) fs"
  unfolding record_ok_def by (induction rule: list_all2_induct) auto

lemma sample_fields_None: "sample_fields nf t_id p offs lays t v = Some None \<Longrightarrow>
    t_id \<notin> {MINT_ID, TS_ID, TS_TTL_PROTO_ID, TS_TTL_PROTO_IP_ID}"
  by (auto simp: sample_fields_def Let_def bind_Some_conv split: if_splits)

lemma sample_fields_hash:
  assumes "sample_fields nf t_id p offs lays t v = Some (Some fs)"
  shows "\<exists>rest. fs = (F64 (get_timestamp t), 8) # (F32 v, 4) # rest"
  using assms
  by (auto simp: sample_fields_def Let_def bind_Some_conv set_value_def split: if_splits)

section \<open>The decision and the counters\<close>

definition in_range :: "options \<Rightarrow> u32 \<Rightarrow> bool" where
  "in_range opts v \<longleftrightarrow> sel_range_min opts \<le> v \<and> v \<le> sel_range_max opts"

text \<open>The ways a run of the handler ends.\<close>

lemma handle_ip_packet_cases:
  assumes "handle_ip_packet opts rs lvl p info dev = Some (dev', evs)"
  obtains (empty) r where "packet_hash opts rs lvl p (hash_buffer dev) = Some r" "ph_hash r = None"
      "dev' = dev\<lparr>hash_buffer := ph_buffer r\<rparr>" "evs = []"
  | (dropped) r v where "packet_hash opts rs lvl p (hash_buffer dev) = Some r" "ph_hash r = Some v" "\<not> in_range opts v"
      "dev' = dev\<lparr>hash_buffer := ph_buffer r, packets_dropped := packets_dropped dev + 1\<rparr>" "evs = []"
  | (counted) r v where "packet_hash opts rs lvl p (hash_buffer dev) = Some r" "ph_hash r = Some v" "in_range opts v"
      "dev' = dev\<lparr>hash_buffer := ph_buffer r, dev_export_packet_count := dev_export_packet_count dev + 1,
                  sampling_size := sampling_size dev + 1\<rparr>" "evs = []"
      "export_pktid_interval opts \<le> 0 \<or> effective_template opts dev \<notin> {MINT_ID, TS_ID, TS_TTL_PROTO_ID, TS_TTL_PROTO_IP_ID}"
  | (exported) r v tmpl fs where "packet_hash opts rs lvl p (hash_buffer dev) = Some r" "ph_hash r = Some v" "in_range opts v"
      "0 < export_pktid_interval opts" "get_template (effective_template opts dev) = Some tmpl" "record_ok tmpl fs"
      "\<exists>tv rest. fs = (F64 tv, 8) # (F32 v, 4) # rest"
      "dev' = dev\<lparr>hash_buffer := ph_buffer r,
         dev_export_packet_count := (if export_packet_count opts \<le> dev_export_packet_count dev + 1 then 0
                                     else dev_export_packet_count dev + 1),
         sampling_size := sampling_size dev + 1, packets_dropped := 0\<rparr>"
      "evs = Export (effective_template opts dev) fs
         # (if export_packet_count opts \<le> dev_export_packet_count dev + 1 then [Flush] else [])"
proof -
  from assms obtain r where r: "packet_hash opts rs lvl p (hash_buffer dev) = Some r"
    by (auto simp: handle_ip_packet_def bind_Some_conv)
  show thesis
  proof (cases "ph_hash r")
    case None
    with assms r show thesis by (intro empty) (auto simp: handle_ip_packet_def)
  next
    case (Some v)
    show thesis
    proof (cases "in_range opts v")
      case False
      with assms r Some show thesis
        by (intro dropped [of r v]) (auto simp: handle_ip_packet_def Let_def in_range_def split: if_splits)
    next
      case True
      let ?dev = "dev\<lparr>hash_buffer := ph_buffer r, dev_export_packet_count := dev_export_packet_count dev + 1,
                  sampling_size := sampling_size dev + 1\<rparr>"
      have eff: "effective_template opts ?dev = effective_template opts dev"
        by (simp add: effective_template_def)
      show thesis
      proof (cases "export_pktid_interval opts \<le> 0")
        case off: True
        with assms r Some True show thesis
          by (intro counted [of r v]) (auto simp: handle_ip_packet_def Let_def in_range_def)
      next
        case on: False
        from assms r Some True on obtain tmpl fso where t: "get_template (effective_template opts dev) = Some tmpl"
          and fso: "sample_fields (length tmpl) (effective_template opts dev) p (ph_offsets r) (ph_layers r) (ts info) v = Some fso"
          and rest: "export_sample opts (effective_template opts dev) (length tmpl) fso ?dev = Some (dev', evs)"
          by (auto simp: handle_ip_packet_def Let_def in_range_def bind_Some_conv eff)
        show thesis
        proof (cases fso)
          case None
          with rest r Some True fso sample_fields_None show thesis
            by (intro counted [of r v]) (auto simp: export_sample_def)
        next
          case (Some fs)
          then have "record_ok tmpl fs" "\<exists>tv rest. fs = (F64 tv, 8) # (F32 v, 4) # rest"
            using sample_fields_record [OF t] sample_fields_hash fso by blast+
          with rest r \<open>ph_hash r = Some v\<close> True on t Some show thesis
            by (intro exported [of r v tmpl fs])
               (auto simp: export_sample_def export_array_def bind_Some_conv split: if_splits)
        qed
      qed
    qed
  qed
qed

definition exports :: "ipfix_event list \<Rightarrow> nat" where
  "exports evs = length (filter (\<lambda>e. e \<noteq> Flush) evs)"

definition flushes :: "ipfix_event list \<Rightarrow> nat" where
  "flushes evs = length (filter (\<lambda>e. e = Flush) evs)"

lemma exports_append [simp]: "exports (xs @ ys) = exports xs + exports ys" "flushes (xs @ ys) = flushes xs + flushes ys"
  by (simp_all add: exports_def flushes_def)

lemma exports_simps [simp]:
  "exports [] = 0" "flushes [] = 0" "exports [Export t fs] = 1" "flushes [Export t fs] = 0"
  "exports [Export t fs, Flush] = 1" "flushes [Export t fs, Flush] = 1"
  by (simp_all add: exports_def flushes_def)

text \<open>The options under which a sampled packet becomes a data record.\<close>

definition exporting :: "options \<Rightarrow> device \<Rightarrow> bool" where
  "exporting opts dev \<longleftrightarrow> 0 < export_pktid_interval opts
     \<and> effective_template opts dev \<in> {MINT_ID, TS_ID, TS_TTL_PROTO_ID, TS_TTL_PROTO_IP_ID}"

lemma exporting_cong: "template_id dev' = template_id dev \<Longrightarrow> exporting opts dev' = exporting opts dev"
  by (simp add: exporting_def effective_template_def)

text \<open>One packet: what every successful run of the entry point establishes.\<close>

definition counters :: "device \<Rightarrow> u64 \<times> u64 \<times> u32 \<times> u32 \<times> u32" where
  "counters dev = (totalpacketcount dev, sampling_delta_count dev, sampling_size dev,
     dev_export_packet_count dev, packets_dropped dev)"

lemma device_frame:
  assumes "handle_ip_packet opts rs lvl p info dev = Some (dev', evs)"
  shows "template_id dev' = template_id dev \<and> device_type dev' = device_type dev
    \<and> link_type dev' = link_type dev \<and> pkt_offset dev' = pkt_offset dev
    \<and> totalpacketcount dev' = totalpacketcount dev \<and> sampling_delta_count dev' = sampling_delta_count dev"
  using assms by (cases rule: handle_ip_packet_cases) auto

lemma packet_hash_buffer:
  assumes "packet_hash opts rs lvl p b = Some r" "buffer_ok b"
  shows "buffer_ok (ph_buffer r) \<and> b_size (ph_buffer r) = b_size b"
proof -
  have "buffer_ok (b\<lparr>b_len := 0\<rparr>)" using assms(2) by (simp add: buffer_ok_def)
  with assms(1) show ?thesis
    using sel.sel_ok [of "b\<lparr>b_len := 0\<rparr>" "selection_function opts" rs p]
    by (auto simp: packet_hash_def Let_def bind_Some_conv split: if_splits)
qed

lemma handle_ip_packet_buffer:
  assumes "handle_ip_packet opts rs lvl p info dev = Some (dev', evs)" "buffer_ok (hash_buffer dev)"
  shows "buffer_ok (hash_buffer dev') \<and> b_size (hash_buffer dev') = b_size (hash_buffer dev)"
  using assms(1) by (cases rule: handle_ip_packet_cases) (use packet_hash_buffer assms(2) in auto)

lemma handle_ip_packet_events:
  assumes "handle_ip_packet opts rs lvl p info dev = Some (dev', evs)"
  shows "list_all event_ok evs"
  using assms
proof (cases rule: handle_ip_packet_cases)
  case (exported r v tmpl fs)
  then show ?thesis by (auto simp: event_ok_def)
qed simp_all

text \<open>The account of exported records and flushes.\<close>

lemma handle_ip_packet_account:
  assumes run: "handle_ip_packet opts rs lvl p info dev = Some (dev', evs)" and ex: "exporting opts dev"
    and cnt: "dev_export_packet_count dev < export_packet_count opts"
  shows "dev_export_packet_count dev' < export_packet_count opts
    \<and> unat (dev_export_packet_count dev') + unat (export_packet_count opts) * flushes evs
        = unat (dev_export_packet_count dev) + exports evs
    \<and> sampling_size dev' = sampling_size dev + of_nat (exports evs)"
  using run
proof (cases rule: handle_ip_packet_cases)
  case (exported r v tmpl fs)
  let ?c = "dev_export_packet_count dev" let ?m = "export_packet_count opts"
  have suc: "unat (?c + 1) = Suc (unat ?c)"
  proof -
    have "unat ?c < unat ?m" using cnt by (simp add: word_less_nat_alt)
    moreover have "unat ?m < 4294967296" using unsigned_less [of ?m, where ?'a = nat] by simp
    ultimately have "unat ?c + 1 < 4294967296" by linarith
    then show ?thesis using unat_add_lem [of ?c 1] by simp
  qed
  show ?thesis
  proof (cases "?m \<le> ?c + 1")
    case True
    then have "unat ?m = Suc (unat ?c)" using cnt suc by (simp add: word_le_nat_alt word_less_nat_alt)
    with exported True cnt show ?thesis by (auto simp: word_less_nat_alt)
  next
    case False
    with exported suc show ?thesis by (simp add: not_le)
  qed
next
  case (counted r v)
  with ex show ?thesis by (auto simp: exporting_def)
qed (use cnt in simp_all)

lemma handle_packet_ip:
  assumes "handle_packet opts rs lvl c dev = Some (dev', evs)"
  shows "let dev1 = dev\<lparr>sampling_delta_count := sampling_delta_count dev + 1, totalpacketcount := totalpacketcount dev + 1\<rparr>
    in dev' = dev1 \<and> evs = [] \<or> (\<exists>p info. handle_ip_packet opts rs lvl p info dev1 = Some (dev', evs))"
  using assms
  by (auto simp: handle_packet_def Let_def bind_Some_conv handle_default_packet_def split: if_splits)

definition handle_inv :: "options \<Rightarrow> device \<Rightarrow> bool" where
  "handle_inv opts dev \<longleftrightarrow> exporting opts dev \<and> dev_export_packet_count dev < export_packet_count opts"

lemma handle_packet_account:
  assumes "handle_packet opts rs lvl c dev = Some (dev', evs)" and "handle_inv opts dev"
  shows "handle_inv opts dev' 
    \<and> unat (dev_export_packet_count dev') + unat (export_packet_count opts) * flushes evs
        = unat (dev_export_packet_count dev) + exports evs
    \<and> sampling_size dev' = sampling_size dev + of_nat (exports evs)
    \<and> totalpacketcount dev' = totalpacketcount dev + 1
    \<and> sampling_delta_count dev' = sampling_delta_count dev + 1"
proof -
  let ?dev1 = "dev\<lparr>sampling_delta_count := sampling_delta_count dev + 1, totalpacketcount := totalpacketcount dev + 1\<rparr>"
  have ex: "exporting opts ?dev1" "dev_export_packet_count ?dev1 < export_packet_count opts"
    using assms(2) exporting_cong [of ?dev1 dev opts] by (simp_all add: handle_inv_def)
  from handle_packet_ip [OF assms(1)] consider "dev' = ?dev1" "evs = []"
    | p info where "handle_ip_packet opts rs lvl p info ?dev1 = Some (dev', evs)" by (auto simp: Let_def)
  then show ?thesis
  proof cases
    case 1
    with ex show ?thesis by (simp add: handle_inv_def)
  next
    case 2
    have "exporting opts dev'" using exporting_cong [of dev' ?dev1 opts] device_frame [OF 2] ex(1) by simp
    with handle_ip_packet_account [OF 2 ex] device_frame [OF 2] show ?thesis
      by (simp add: handle_inv_def)
  qed
qed

lemma handle_packets_account:
  "handle_packets opts rs lvl cs dev = Some (dev', evs) \<Longrightarrow> handle_inv opts dev \<Longrightarrow>
     handle_inv opts dev'
    \<and> unat (dev_export_packet_count dev') + unat (export_packet_count opts) * flushes evs
        = unat (dev_export_packet_count dev) + exports evs
    \<and> sampling_size dev' = sampling_size dev + of_nat (exports evs)
    \<and> totalpacketcount dev' = totalpacketcount dev + of_nat (length cs)
    \<and> sampling_delta_count dev' = sampling_delta_count dev + of_nat (length cs)"
proof (induction cs arbitrary: dev evs)
  case (Cons c cs)
  from Cons.prems(1) obtain dev1 e1 e2 where
    one: "handle_packet opts rs lvl c dev = Some (dev1, e1)"
    and rest: "handle_packets opts rs lvl cs dev1 = Some (dev', e2)" and evs: "evs = e1 @ e2"
    by (auto simp: bind_Some_conv)
  note h1 = handle_packet_account [OF one Cons.prems(2)]
  note h2 = Cons.IH [OF rest conjunct1 [OF h1]]
  from h1 h2 show ?case unfolding evs by (simp add: algebra_simps)
qed simp

lemma handle_packets_events:
  "handle_packets opts rs lvl cs dev = Some (dev', evs) \<Longrightarrow> list_all event_ok evs"
proof (induction cs arbitrary: dev evs)
  case (Cons c cs)
  from Cons.prems obtain dev1 e1 e2 where
    one: "handle_packet opts rs lvl c dev = Some (dev1, e1)"
    and rest: "handle_packets opts rs lvl cs dev1 = Some (dev', e2)" and evs: "evs = e1 @ e2"
    by (auto simp: bind_Some_conv)
  have "list_all event_ok e1"
    using handle_packet_ip [OF one] handle_ip_packet_events by (auto simp: Let_def)
  with Cons.IH [OF rest] show ?case by (simp add: evs)
qed simp

section \<open>The dump at debug level\<close>

lemma dump_loop_overflow:
  "bs \<noteq> [] \<Longrightarrow> length m \<le> p + 3 * length bs \<Longrightarrow> dump_loop m p bs = None"
proof (induction bs arbitrary: m p)
  case (Cons b bs)
  define ws where "ws = [hex_digit (drop_bit 4 b), hex_digit (b AND 0xF), 32, 0]"
  have ws: "length ws = 4" by (simp add: ws_def)
  have step: "dump_loop m p (b # bs) = wr_slice m p ws \<bind> (\<lambda>m. dump_loop m (p + 3) bs)"
    by (simp only: dump_loop.simps ws_def)
  show ?case
  proof (cases "wr_slice m p ws")
    case (Some m')
    then have m': "length m' = length m" "p + 4 \<le> length m"
      using wr_slice_length [OF Some] Some ws by (auto simp: wr_slice_def split: if_splits)
    with Cons.prems have "bs \<noteq> []" by auto
    moreover have "length m' \<le> (p + 3) + 3 * length bs" using Cons.prems(2) m'(1) by simp
    ultimately show ?thesis unfolding step Some using Cons.IH by simp
  next
    case None
    then show ?thesis unfolding step by simp
  qed
qed simp

lemma debug_dump_overflow: "bs \<noteq> [] \<Longrightarrow> debug_dump bs = None"
  by (simp add: debug_dump_def dump_loop_overflow)

section \<open>Complete packets are processed without a fault\<close>

lemma hash_min_u_le: "unat (hash_min_u x y) \<le> unat x" "unat (hash_min_u x y) \<le> unat y"
  by (auto simp: hash_min_u_def word_less_nat_alt not_less)

lemma U_TCP_appends:
  assumes "L_TRANS h \<noteq> no_offset" "lay_trans l \<in> {T_TCP, T_UDP, T_ICMP, T_ICMP6}"
  shows "\<exists>m. unat m \<le> 20 \<and> copyFields_U_TCP_and_Net p b h l = appends b (pview p)
    (net_pieces (unat (L_NET h)) l @ [(unat (L_TRANS h), hash_min_u m (p_len p - L_TRANS h))])"
proof -
  let ?m = "if lay_trans l = T_UDP then 8 else 20 :: u32"
  have "unat ?m \<le> 20 \<and> copyFields_U_TCP_and_Net p b h l = appends b (pview p)
    (net_pieces (unat (L_NET h)) l @ [(unat (L_TRANS h), hash_min_u ?m (p_len p - L_TRANS h))])"
    using assms unfolding bind_appends [symmetric] copyFields_U_TCP_and_Net_def copy_NetFields_appends Let_def
    by auto
  then show ?thesis by blast
qed

lemma select_layer_total:
  assumes "buffer_ok b" "unat (b_size b) < 65536" "ranges_ok rs" "off \<le> p_len p"
    and "unat (p_len p) < 65536" "unat (p_len p) \<le> length (pview p)"
  shows "\<exists>b'. select_layer rs p b off = Some b'"
proof -
  have "unat (p_len p - off) = unat (p_len p) - unat off" using assms(4) by (rule unat_sub)
  then have "unat (p_len p - off) < 65536" "unat (p_len p - off) \<le> length (drop (unat off) (pview p))"
    using assms(5,6) by simp_all
  from select_from_bytes [OF assms(1-3) this] show ?thesis by (auto simp: select_layer_def)
qed

text \<open>A whole packet: header, transport header and payload; its layers as \<open>findHeaders\<close> gives them.\<close>

definition whole_packet :: "packet \<Rightarrow> byte \<Rightarrow> byte \<Rightarrow> byte list \<Rightarrow> byte list \<Rightarrow> byte list \<Rightarrow> bool" where
  "whole_packet p t proto ih th pay \<longleftrightarrow> net_header ih t proto \<and> transport_header proto th \<and> pay \<noteq> []
     \<and> pview p = ih @ th @ pay \<and> unat (p_len p) = length (pview p) \<and> unat (p_len p) < 65536"

definition whole_offsets :: "byte list \<Rightarrow> byte list \<Rightarrow> offsets" where
  "whole_offsets ih th = no_offsets\<lparr>L_TRANS := word_of_nat (length ih), L_PAYLOAD := word_of_nat (length (ih @ th))\<rparr>"

definition whole_layers :: "byte \<Rightarrow> byte \<Rightarrow> layers" where
  "whole_layers t proto = no_layers\<lparr>lay_net := t, lay_trans := proto\<rparr>"

lemma findHeaders_whole:
  assumes "whole_packet p t proto ih th pay"
  shows "findHeaders (pview p) (ucast (p_len p)) no_offsets no_layers = Some (whole_offsets ih th, whole_layers t proto)"
proof -
  have "(ucast (p_len p) :: u16) = word_of_nat (length (pview p))"
  proof -
    have "word_of_nat (unat (p_len p)) = (ucast (p_len p) :: u16)" by simp
    with assms show ?thesis by (simp only: whole_packet_def)
  qed
  moreover have e: "length (pview p) < 65536" using assms unfolding whole_packet_def by metis
  have net: "net_header ih t proto" and tr: "transport_header proto th" and ne: "pay \<noteq> []"
    and view: "pview p = [] @ ih @ th @ pay"
    using assms unfolding whole_packet_def by auto
  have "findHeaders (pview p) (word_of_nat (length (pview p))) no_offsets no_layers =
    Some (no_offsets\<lparr>L_TRANS := word_of_nat (length ([] @ ih)), L_PAYLOAD := word_of_nat (length ([] @ ih @ th))\<rparr>,
          no_layers\<lparr>lay_net := t, lay_trans := proto\<rparr>)"
    by (rule findHeaders_wf [OF net tr ne view e]) (simp add: no_offsets_def)
  ultimately show ?thesis by (simp only: whole_offsets_def whole_layers_def append_Nil)
qed

lemma whole_sizes:
  assumes "whole_packet p t proto ih th pay"
  shows "fst (net_need (whole_layers t proto)) \<le> length ih" and "t = N_IP \<or> t = N_IP6"
    and "proto \<in> {T_TCP, T_UDP, T_ICMP, T_ICMP6}" and "length ih + length th < unat (p_len p)"
    and "length (ih @ th @ pay) = unat (p_len p)"
    and "unat (word_of_nat (length ih) :: u32) = length ih"
    and "unat (word_of_nat (length (ih @ th)) :: u32) = length (ih @ th)"
    and "20 \<le> length ih" and "4 \<le> length th"
proof -
  have len: "length ih + length th + length pay = unat (p_len p)" "unat (p_len p) < 65536" "pay \<noteq> []"
    and net: "net_header ih t proto" and tr: "transport_header proto th"
    using assms unfolding whole_packet_def by auto
  show "fst (net_need (whole_layers t proto)) \<le> length ih" "t = N_IP \<or> t = N_IP6" "20 \<le> length ih"
    using net by (auto simp: net_header_def ip4_header_def ip6_header_def net_need_def whole_layers_def no_layers_def)
  show "proto \<in> {T_TCP, T_UDP, T_ICMP, T_ICMP6}" "4 \<le> length th"
    using tr by (auto simp: transport_header_def)
  have "0 < length pay" using len(3) by simp
  then show "length ih + length th < unat (p_len p)" using len(1) by linarith
  show "length (ih @ th @ pay) = unat (p_len p)" using len(1) by simp
  have small: "length ih < 65536" "length (ih @ th) < 65536" using len(1,2) by simp_all
  show "unat (word_of_nat (length ih) :: u32) = length ih" by (rule unat_word_of_nat32 [OF small(1)])
  show "unat (word_of_nat (length (ih @ th)) :: u32) = length (ih @ th)"
    by (rule unat_word_of_nat32 [OF small(2)])
qed

definition safe_selection :: "sel_fn \<Rightarrow> bool" where
  "safe_selection f \<longleftrightarrow> f \<noteq> Sel_Rec \<and> f \<noteq> Sel_Packet"

lemma selection_total:
  assumes w: "whole_packet p t proto ih th pay" and b: "buffer_ok b" "b_len b = 0" "59 \<le> unat (b_size b)" "unat (b_size b) < 65536"
    and rs: "ranges_ok rs" and f: "safe_selection f"
  shows "\<exists>b'. call_selection f rs p b (whole_offsets ih th) (whole_layers t proto) = Some b'"
proof -
  let ?h = "whole_offsets ih th" and ?l = "whole_layers t proto"
  note sz = whole_sizes [OF w]
  have view: "pview p = ih @ th @ pay" and len: "unat (p_len p) < 65536" "unat (p_len p) \<le> length (pview p)"
    using w unfolding whole_packet_def by auto
  have off: "L_LINK ?h = 0" "L_NET ?h = 0" "unat (L_TRANS ?h) = length ih" "unat (L_PAYLOAD ?h) = length (ih @ th)"
    using sz(6,7) by (simp_all add: whole_offsets_def no_offsets_def del: of_nat_add)
  have lay: "\<exists>b'. select_layer rs p b x = Some b'" if "unat x \<le> unat (p_len p)" for x
    using select_layer_total [OF b(1,4) rs _ len] that by (simp add: word_le_nat_alt)
  have net: "fits b (pview p) (net_pieces 0 ?l)"
    using sz(1,2) b(2,3) view by (auto simp: fits_def net_pieces_def net_need_def)
  have utcp: "\<exists>b'. copyFields_U_TCP_and_Net p b ?h ?l = Some b'"
  proof -
    have "unat (L_TRANS ?h) < 65536" using off(3) sz(4) len(1) by linarith
    moreover have "unat (no_offset :: u32) = 4294967295" by (simp add: unsigned_minus_1_eq_mask mask_eq_exp_minus_1)
    ultimately have "L_TRANS ?h \<noteq> no_offset" by auto
    moreover have "lay_trans ?l \<in> {T_TCP, T_UDP, T_ICMP, T_ICMP6}" using sz(3) by (simp add: whole_layers_def)
    ultimately obtain m where m: "unat m \<le> 20" "copyFields_U_TCP_and_Net p b ?h ?l = appends b (pview p)
        (net_pieces (unat (L_NET ?h)) ?l @ [(unat (L_TRANS ?h), hash_min_u m (p_len p - L_TRANS ?h))])"
      using U_TCP_appends by blast
    let ?k = "hash_min_u m (p_len p - L_TRANS ?h)"
    have "L_TRANS ?h \<le> p_len p" using off(3) sz(4) by (simp add: word_le_nat_alt)
    then have "unat (p_len p - L_TRANS ?h) = unat (p_len p) - length ih" using off(3) by (simp add: unat_sub)
    then have k: "unat ?k \<le> 20" "length ih + unat ?k \<le> length (pview p)"
      using hash_min_u_le [of m "p_len p - L_TRANS ?h"] m(1) sz(4) len(2) by linarith+
    have "fits b (pview p) (net_pieces (unat (L_NET ?h)) ?l @ [(unat (L_TRANS ?h), ?k)])"
      using net k b(2,3) off sz(2) by (auto simp: fits_def net_pieces_def whole_layers_def)
    then show ?thesis using appends_iff [OF b(1)] m(2) by simp
  qed
  have only: "\<exists>b'. copyFields_Only_Net p b ?h ?l = Some b'"
    using appends_iff [OF b(1), of "pview p" "net_pieces 0 ?l"] net off
    by (simp add: copyFields_Only_Net_def copy_NetFields_appends)
  show ?thesis
  proof (cases f)
    case Sel_Raw
    then show ?thesis using select_from_bytes [OF b(1,4) rs len] by (auto simp: copyFields_Raw_def)
  next
    case Sel_Last
    then show ?thesis using copyFields_Last_bytes [OF b(1,4) rs len] by auto
  qed (use f only utcp lay off sz(4) in \<open>auto simp: safe_selection_def layer_functions\<close>)
qed

lemma packet_hash_total:
  assumes w: "whole_packet p t proto ih th pay" and b: "buffer_ok b" "59 \<le> unat (b_size b)" "unat (b_size b) < 65536"
    and rs: "ranges_ok rs" and f: "safe_selection (selection_function opts)" and lvl: "lvl \<noteq> LOGGER_LEVEL_DEBUG"
  shows "\<exists>r. packet_hash opts rs lvl p b = Some r \<and> ph_offsets r = whole_offsets ih th \<and> ph_layers r = whole_layers t proto
    \<and> buffer_ok (ph_buffer r)"
proof -
  have ok: "buffer_ok (b\<lparr>b_len := 0\<rparr>)" using b(1) by (simp add: buffer_ok_def)
  from selection_total [OF w ok _ _ _ rs f] b obtain b' where
    b': "call_selection (selection_function opts) rs p (b\<lparr>b_len := 0\<rparr>) (whole_offsets ih th) (whole_layers t proto) = Some b'"
    by auto
  then have "buffer_ok b'" using sel.sel_ok [OF ok] by blast
  with called.calc_total [of b' "hash_function opts"] b' findHeaders_whole [OF w] lvl show ?thesis
    by (auto simp: packet_hash_def Let_def)
qed

lemma load16_total: "i + 1 < length m \<Longrightarrow> \<exists>v. load16 m i = Some v"
  by (simp add: load16_Some)

lemma sample_fields_total:
  assumes w: "whole_packet p t proto ih th pay" and tid: "t_id \<in> {MINT_ID, TS_ID, TS_TTL_PROTO_ID, TS_TTL_PROTO_IP_ID}"
    and tmpl: "get_template t_id = Some tmpl"
  shows "\<exists>fs. sample_fields (length tmpl) t_id p (whole_offsets ih th) (whole_layers t proto) tv v = Some (Some fs)
    \<and> record_ok tmpl fs"
proof -
  let ?h = "whole_offsets ih th" and ?l = "whole_layers t proto"
  note sz = whole_sizes [OF w]
  have len: "length (pview p) = length ih + length th + length pay" using w by (simp add: whole_packet_def)
  have off: "L_NET ?h = 0" "unat (L_TRANS ?h) = length ih" "lay_net ?l = t" "lay_trans ?l = proto"
    using sz(6) by (simp_all add: whole_offsets_def whole_layers_def no_offsets_def)
  have ttl: "\<exists>x. get_ttl p (L_NET ?h) (lay_net ?l) = Some x"
    using sz(8) len by (auto simp: get_ttl_def off mem_simps)
  have iplen: "\<exists>x. get_ip_length p (L_NET ?h) (lay_net ?l) = Some x"
    using sz(8) len by (auto simp: get_ip_length_def off load16_Some)
  have ipa: "\<exists>x. get_ipa p (L_NET ?h) (lay_net ?l) = Some x" "\<exists>x. get_ipa p (L_NET ?h + 4) (lay_net ?l) = Some x"
    using sz(8) len by (auto simp: get_ipa_def off mem_simps)
  have "unat (L_TRANS ?h + 2) = length ih + 2"
    using sz(4,6) w off(2) unat_add_lem [of "L_TRANS ?h" 2] by (simp add: whole_packet_def)
  moreover have "8 \<le> length th" if "proto = T_UDP \<or> proto = T_TCP"
    using w that by (auto simp: whole_packet_def transport_header_def)
  moreover have "proto \<noteq> T_SCTP" using sz(3) by auto
  ultimately have port: "\<exists>x. get_port p (L_TRANS ?h) (lay_trans ?l) = Some x"
      "\<exists>x. get_port p (L_TRANS ?h + 2) (lay_trans ?l) = Some x"
    using len by (auto simp: get_port_def off load16_Some)
  have "\<exists>fs. sample_fields (length tmpl) t_id p ?h ?l tv v = Some (Some fs)"
    using tid tmpl ttl iplen ipa port
    by (auto simp: sample_fields_def Let_def get_template_ids template_defs set_value_def)
  then show ?thesis using sample_fields_record [OF tmpl] by blast
qed

lemma handle_ip_packet_total:
  assumes w: "whole_packet p t proto ih th pay" and b: "buffer_ok (hash_buffer dev)"
      "59 \<le> unat (b_size (hash_buffer dev))" "unat (b_size (hash_buffer dev)) < 65536"
    and rs: "ranges_ok rs" and f: "safe_selection (selection_function opts)" and lvl: "lvl \<noteq> LOGGER_LEVEL_DEBUG"
    and tid: "effective_template opts dev \<in> {MINT_ID, TS_ID, TS_TTL_PROTO_ID, TS_TTL_PROTO_IP_ID}"
    and pid: "hashAsPacketID opts \<noteq> 0 \<or> pktid_function opts \<noteq> None"
  shows "\<exists>dev' evs. handle_ip_packet opts rs lvl p info dev = Some (dev', evs)"
proof -
  from packet_hash_total [OF w b rs f lvl] obtain r where
    r: "packet_hash opts rs lvl p (hash_buffer dev) = Some r" "ph_offsets r = whole_offsets ih th"
       "ph_layers r = whole_layers t proto" "buffer_ok (ph_buffer r)" by blast
  have pk: "\<exists>x. packet_id opts v (ph_buffer r) = Some x" for v
    using pid called.calc_total [OF r(4)] by (auto simp: packet_id_def)
  from tid obtain tmpl where tmpl: "get_template (effective_template opts dev) = Some tmpl"
    by (auto simp: get_template_ids)
  have ex: "\<exists>x. export_sample opts tt (length tmpl) (Some fs) d = Some x" if "record_ok tmpl fs" for fs tt d
  proof -
    have "length fs = length tmpl" "list_all (\<lambda>(v, n). unat n \<le> field_width v) fs"
      using record_ok_widths [OF that] by auto
    then show ?thesis by (simp add: export_sample_def export_array_def)
  qed
  show ?thesis
  proof (cases "ph_hash r")
    case None
    with r show ?thesis by (simp add: handle_ip_packet_def)
  next
    case (Some v)
    obtain fs where fs: "sample_fields (length tmpl) (effective_template opts dev) p (ph_offsets r) (ph_layers r) (ts info) v
        = Some (Some fs)" "record_ok tmpl fs"
      using sample_fields_total [OF w tid tmpl] r(2,3) by metis
    have eff: "effective_template opts (dev\<lparr>hash_buffer := x, dev_export_packet_count := y, sampling_size := z\<rparr>)
        = effective_template opts dev" for x y z by (simp add: effective_template_def)
    show ?thesis using r(1) Some pk [of v] tmpl fs ex [OF fs(2)]
      by (auto simp: handle_ip_packet_def Let_def eff)
  qed
qed

section \<open>Frames of an Ethernet device\<close>

definition ether_frame :: "byte list \<Rightarrow> byte \<Rightarrow> bool" where
  "ether_frame eth t \<longleftrightarrow> length eth = 14
     \<and> (t = N_IP \<and> eth ! 12 = 0x08 \<and> eth ! 13 = 0 \<or> t = N_IP6 \<and> eth ! 12 = 0x86 \<and> eth ! 13 = 0xDD)"

definition captured :: "capture \<Rightarrow> byte list \<Rightarrow> bool" where
  "captured c bs \<longleftrightarrow> c_data c = bs \<and> unat (c_caplen c) = length bs \<and> length bs < 65536"

lemma ether_nettype:
  assumes "ether_frame eth t" "p_mem p = eth @ rest" "p_ptr p = 0"
  shows "get_nettype p DLT_EN10MB = Some (if t = N_IP then 0x0800 else 0x86DD)"
proof -
  have v: "pview p = eth @ rest" using assms(2,3) by (simp add: pview_def)
  have "12 + 1 < length (pview p)" using assms(1) v by (simp add: ether_frame_def)
  then obtain w where w: "load16 (pview p) 12 = Some w" using load16_total by blast
  from be16 [OF w] v assms(1) have "ntohs w = (if t = N_IP then 0x0800 else 0x86DD)"
    by (auto simp: ether_frame_def nth_append)
  with w show ?thesis by (simp add: get_nettype_def)
qed

lemma apply_offset_zero: "apply_offset p 0 = p" if "p_len p \<noteq> 0"
  using that by (simp add: apply_offset_def advance_def word_gt_0)

definition sampling_ready :: "options \<Rightarrow> range_select list \<Rightarrow> int \<Rightarrow> device \<Rightarrow> bool" where
  "sampling_ready opts rs lvl dev \<longleftrightarrow> buffer_ok (hash_buffer dev) \<and> 59 \<le> unat (b_size (hash_buffer dev))
     \<and> unat (b_size (hash_buffer dev)) < 65536 \<and> ranges_ok rs \<and> safe_selection (selection_function opts)
     \<and> lvl \<noteq> LOGGER_LEVEL_DEBUG \<and> (hashAsPacketID opts \<noteq> 0 \<or> pktid_function opts \<noteq> None)
     \<and> effective_template opts dev \<in> {MINT_ID, TS_ID, TS_TTL_PROTO_ID, TS_TTL_PROTO_IP_ID}"

text \<open>The IP packet in a frame, behind the 14 bytes of the Ethernet header.\<close>

definition frame_packet :: "capture \<Rightarrow> packet" where
  "frame_packet c = \<lparr>p_mem = c_data c, p_ptr = 14, p_len = c_caplen c - 14\<rparr>"

abbreviation (input) seen :: "device \<Rightarrow> device" where
  "seen dev \<equiv> dev\<lparr>sampling_delta_count := sampling_delta_count dev + 1, totalpacketcount := totalpacketcount dev + 1\<rparr>"

definition ethernet_device :: "device \<Rightarrow> bool" where
  "ethernet_device dev \<longleftrightarrow> (device_type dev = TYPE_PCAP \<or> device_type dev = TYPE_PCAP_FILE)
     \<and> link_type dev = DLT_EN10MB \<and> pkt_offset dev = 14"

lemma frame_packet_whole:
  assumes frame: "ether_frame eth t" "net_header ih t proto" "transport_header proto th" "pay \<noteq> []"
    and c: "captured c (eth @ ih @ th @ pay)"
  shows "whole_packet (frame_packet c) t proto ih th pay" "14 < unat (c_caplen c)"
proof -
  have data: "c_data c = eth @ ih @ th @ pay" "unat (c_caplen c) = length (eth @ ih @ th @ pay)"
    and len: "length (eth @ ih @ th @ pay) < 65536" and eth: "length eth = 14"
    using c frame(1) by (auto simp: captured_def ether_frame_def)
  have "length pay \<noteq> 0" using frame(4) by simp
  then show big: "14 < unat (c_caplen c)" using data(2) eth by simp
  then have "unat (c_caplen c - 14) = unat (c_caplen c) - 14"
    by (subst unat_sub) (simp_all add: word_le_nat_alt)
  with frame data len eth show "whole_packet (frame_packet c) t proto ih th pay"
    by (auto simp: whole_packet_def pview_def frame_packet_def)
qed

lemma handle_ethernet_ip:
  assumes dev: "ethernet_device dev" and off: "opt_offset opts = 0"
    and frame: "ether_frame eth t" "net_header ih t proto" "transport_header proto th" "pay \<noteq> []"
    and c: "captured c (eth @ ih @ th @ pay)"
  obtains info where "handle_packet opts rs lvl c dev = handle_ip_packet opts rs lvl (frame_packet c) info (seen dev)"
proof -
  let ?p = "\<lparr>p_mem = c_data c, p_ptr = 0, p_len = c_caplen c\<rparr>"
  note big = frame_packet_whole(2) [OF frame c]
  then have "unat (c_caplen c - 14) = unat (c_caplen c) - 14"
    by (subst unat_sub) (simp_all add: word_le_nat_alt)
  then have nz: "p_len (frame_packet c) \<noteq> 0" using big by (auto simp: frame_packet_def)
  have ap: "apply_offset ?p 14 = frame_packet c"
    using big by (simp add: apply_offset_def advance_def word_less_nat_alt frame_packet_def)
  have nt: "get_nettype ?p DLT_EN10MB = Some (if t = N_IP then 0x0800 else 0x86DD)"
    by (rule ether_nettype [OF frame(1)]) (use c in \<open>simp_all add: captured_def\<close>)
  show thesis
    by (rule that [of "\<lparr>ts = c_ts c, pi_length = c_len c, nettype = (if t = N_IP then 0x0800 else 0x86DD)\<rparr>"])
       (use dev nt ap apply_offset_zero [OF nz] off in \<open>auto simp: handle_packet_def Let_def ethernet_device_def\<close>)
qed

lemma sampling_ready_seen [simp]: "sampling_ready opts rs lvl (seen dev) = sampling_ready opts rs lvl dev"
  by (simp add: sampling_ready_def effective_template_def)

lemma handle_ethernet_total:
  assumes dev: "device_type dev = TYPE_PCAP \<or> device_type dev = TYPE_PCAP_FILE" "link_type dev = DLT_EN10MB"
      "pkt_offset dev = 14" and off: "opt_offset opts = 0"
    and ready: "sampling_ready opts rs lvl dev"
    and frame: "ether_frame eth t" "net_header ih t proto" "transport_header proto th" "pay \<noteq> []"
    and c: "captured c (eth @ ih @ th @ pay)"
  shows "\<exists>dev' evs. handle_packet opts rs lvl c dev = Some (dev', evs)"
proof -
  have eth: "ethernet_device dev" using dev by (simp add: ethernet_device_def)
  obtain info where ip: "handle_packet opts rs lvl c dev = handle_ip_packet opts rs lvl (frame_packet c) info (seen dev)"
    by (rule handle_ethernet_ip [OF eth off frame c])
  have "sampling_ready opts rs lvl (seen dev)" using ready by simp
  then show ?thesis unfolding ip
    by (intro handle_ip_packet_total [OF frame_packet_whole(1) [OF frame c]]) (auto simp: sampling_ready_def)
qed

section \<open>Decoding\<close>

text \<open>A length-prefixed array and its decoding.\<close>

definition encode_array :: "byte list \<Rightarrow> byte list" where
  "encode_array bs = word_of_nat (length bs div 256) # word_of_nat (length bs mod 256) # bs"

lemma decode_array_encoded:
  assumes "pview p = encode_array bs @ rest" "length bs < 65536"
  shows "\<exists>d p'. decode_array p = Some (d, p') \<and> take (unat (p_len d)) (pview d) = bs \<and> pview p' = rest
    \<and> p_len p' = p_len p - (of_nat (length bs) + 2)"
proof -
  let ?n = "length bs"
  let ?hi = "word_of_nat (?n div 256) :: byte" and ?lo = "word_of_nat (?n mod 256) :: byte"
  have v: "pview p = ?hi # ?lo # bs @ rest" using assms(1) by (simp add: encode_array_def)
  have "?n div 256 < 256" "?n mod 256 < 256" using assms(2) by auto
  then have hl: "unat ?hi = ?n div 256" "unat ?lo = ?n mod 256"
    by (simp_all add: unsigned_of_nat take_bit_nat_eq_self)
  obtain w where w: "load16 (pview p) 0 = Some w" using load16_total [of 0 "pview p"] v by auto
  have "ntohs w = push_bit 8 (ucast ?hi) + ucast ?lo" using be16 [OF w] v by simp
  also have "\<dots> = word_of_nat (256 * unat ?hi + unat ?lo)" by (simp add: push_bit_eq_mult)
  also have "\<dots> = word_of_nat ?n" unfolding hl by simp
  finally have n: "ntohs w = word_of_nat ?n" .
  then have u: "unat (ntohs w) = ?n" using assms(2) by (simp add: unsigned_of_nat take_bit_nat_eq_self)
  have uc: "unat (ucast (ntohs w) :: u32) = ?n" by (simp only: unat_ucast_u16 u)
  have "unat (ucast (ntohs w) + 2 :: u32) = ?n + 2"
    using unat_add_lem [of "ucast (ntohs w) :: u32" 2] uc assms(2) by simp
  moreover have "(ucast (ntohs w) :: u32) = of_nat ?n"
    using uc by (metis of_nat_unat ucast_id)
  moreover have "drop (2 + p_ptr p) (p_mem p) = drop 2 (pview p)" by (simp add: pview_def add.commute)
  ultimately show ?thesis
    using w uc v by (auto simp: decode_array_def pview_advance) (simp_all add: pview_def advance_def)
qed

section \<open>Properties\<close>

text \<open>A probe for the witnesses: Bob's hash over the IP header, everything sampled.\<close>

definition demo_options :: options where
  "demo_options = \<lparr>number_interfaces = 1, templateID = MINT_ID, opt_offset = 0, collectorIP = '''',
     collectorPort = 4739, bpf = None, ai_family = 2, observationDomainID = 0, ipAddress = 0,
     hash_function = BOB, pktid_function = Some BOB, selection_function = Sel_Only_Net,
     sel_range_min = 0, sel_range_max = - 1, snapLength = 80, verbosity = 0, verbosity_filter_string = '''',
     export_packet_count = 1, s_latitude = '''', s_longitude = '''', s_probe_name = None, s_location_name = '''',
     export_pktid_interval = 3, export_sampling_interval = 10, export_stats_interval = 30,
     export_location_interval = 60, hashAsPacketID = 0, use_oid_first_interface = 0\<rparr>"

definition demo_device :: device where
  "demo_device = zero_device\<lparr>device_type := TYPE_PCAP, link_type := DLT_EN10MB, template_id := - 1,
     pkt_offset := 14, hash_buffer := \<lparr>b_mem = replicate 80 0, b_len = 0, b_size = 80\<rparr>\<rparr>"

definition demo_ip :: "byte \<Rightarrow> byte list" where
  "demo_ip ttl = [0x45, 0, 0, 0, 0, 0, 0, 0, ttl, 17] @ replicate 10 0"

definition demo_capture :: capture where
  "demo_capture = \<lparr>c_data = (replicate 12 0 @ [8, 0]) @ demo_ip 64 @ replicate 8 0 @ [1, 2],
     c_caplen = 44, c_len = 44, c_ts = \<lparr>tv_sec = 0, tv_usec = 0\<rparr>\<rparr>"

definition demo_packet :: "byte \<Rightarrow> packet" where
  "demo_packet ttl = \<lparr>p_mem = demo_ip ttl @ replicate 8 0 @ [1, 2], p_ptr = 0, p_len = 30\<rparr>"

definition demo_info :: packet_info where
  "demo_info = \<lparr>ts = \<lparr>tv_sec = 0, tv_usec = 0\<rparr>, pi_length = 30, nettype = 0x0800\<rparr>"

lemma demo_ready: "sampling_ready demo_options [] 0 demo_device"
  by (simp add: sampling_ready_def demo_options_def demo_device_def buffer_ok_def ranges_ok_def
      safe_selection_def effective_template_def)

lemma demo_inv: "handle_inv demo_options demo_device"
  by (simp add: handle_inv_def exporting_def demo_options_def demo_device_def effective_template_def zero_device_def)

lemma demo_run: "\<exists>dev' evs. handle_packets demo_options [] 0 [demo_capture] demo_device = Some (dev', evs)"
proof -
  have "\<exists>dev' evs. handle_packet demo_options [] 0 demo_capture demo_device = Some (dev', evs)"
    by (rule handle_ethernet_total [where eth = "replicate 12 0 @ [8, 0]" and ih = "demo_ip 64" and t = N_IP
          and proto = T_UDP and th = "replicate 8 0" and pay = "[1, 2]", OF _ _ _ _ demo_ready])
       (simp_all add: demo_device_def demo_options_def ether_frame_def net_header_def ip4_header_def
          transport_header_def captured_def demo_capture_def demo_ip_def nth_append)
  then show ?thesis by auto
qed

text \<open>C3: All observation points along a path make the same decision: two packets that differ
  only in the fields routers change (TTL and header checksum, or hop limit) have the same hash,
  or both have none, under every hash function and every selection that starts from the
  headers, whatever the hash buffers held before.\<close>

theorem hash_survives_hops:
  assumes "same_but (pview p) (pview p') (hop_bytes 0 (version (pview p) 0))" and "p_len p' = p_len p"
    and "version (pview p) 0 = N_IP \<and> 3 \<le> unat (pview p ! 0 AND 0x0F) \<or> version (pview p) 0 = N_IP6"
    and "skips_hop_bytes (selection_function opts)"
    and "buffer_ok b" "buffer_ok b'" "b_size b = b_size b'"
  shows "map_option ph_hash (packet_hash opts rs lvl p' b') = map_option ph_hash (packet_hash opts rs lvl p b)"
  unfolding packet_hash_hop [OF assms(1-4)] by (rule packet_hash_bsim [OF assms(5-7)])

theorem hash_survives_hops_witness:
  "map_option ph_hash (packet_hash demo_options [] 0 (demo_packet 63) (hash_buffer demo_device))
     = map_option ph_hash (packet_hash demo_options [] 0 (demo_packet 64) (hash_buffer demo_device))"
proof (rule hash_survives_hops)
  have v: "pview (demo_packet 64) = demo_ip 64 @ replicate 8 0 @ [1, 2]" by (simp add: pview_def demo_packet_def)
  have v': "pview (demo_packet 63) = demo_ip 63 @ replicate 8 0 @ [1, 2]" by (simp add: pview_def demo_packet_def)
  have ver: "version (pview (demo_packet 64)) 0 = N_IP" by (simp add: v version_def demo_ip_def)
  show "same_but (pview (demo_packet 64)) (pview (demo_packet 63)) (hop_bytes 0 (version (pview (demo_packet 64)) 0))"
    unfolding ver by (auto simp: v v' same_but_def hop_bytes_def demo_ip_def nth_append nth_Cons split: nat.splits)
  show "version (pview (demo_packet 64)) 0 = N_IP \<and> 3 \<le> unat (pview (demo_packet 64) ! 0 AND 0x0F)
      \<or> version (pview (demo_packet 64)) 0 = N_IP6"
    unfolding ver by (simp add: v demo_ip_def)
qed (simp_all add: demo_packet_def demo_options_def skips_hop_bytes_def demo_device_def buffer_ok_def)

text \<open>C11: A packet that was captured as a whole from an Ethernet (an IPv4 header with options or an
  IPv6 header without extensions, a complete ICMP, UDP or TCP header and a payload, less than
  64 KiB in all) is processed without a memory fault by a pcap device that is ready to sample: the
  link type is Ethernet, the offset of \<open>-O\<close> is 0, the hash buffer has at least 59 and less than
  64 Ki bytes, the selection is neither \<open>REC8\<close> nor \<open>PACKET\<close>, the numbers of the range list are
  not negative, the log level is not debug, a packet id is defined and the template is one of the
  four for data. Hash function, window, flush limit and counters are arbitrary.\<close>

theorem ethernet_packets_safe:
  assumes "device_type dev = TYPE_PCAP \<or> device_type dev = TYPE_PCAP_FILE" "link_type dev = DLT_EN10MB"
    and "pkt_offset dev = 14" "opt_offset opts = 0" "sampling_ready opts rs lvl dev"
    and "ether_frame eth t" "net_header ih t proto" "transport_header proto th" "pay \<noteq> []"
    and "captured c (eth @ ih @ th @ pay)"
  shows "\<exists>dev' evs. handle_packet opts rs lvl c dev = Some (dev', evs)"
  using assms by (rule handle_ethernet_total)

theorem ethernet_packets_safe_witness:
  "\<exists>dev' evs. handle_packet demo_options [] 0 demo_capture demo_device = Some (dev', evs)"
  by (rule ethernet_packets_safe [where eth = "replicate 12 0 @ [8, 0]" and ih = "demo_ip 64" and t = N_IP
        and proto = T_UDP and th = "replicate 8 0" and pay = "[1, 2]", OF _ _ _ _ demo_ready])
     (simp_all add: demo_device_def demo_options_def ether_frame_def net_header_def ip4_header_def
        transport_header_def captured_def demo_capture_def demo_ip_def nth_append)

text \<open>C18: The decision on one packet: after a successful run either the selection was empty and
  no counter moved, or the hash lies in the selection range and the packet is counted as sampled
  once, or it lies outside and the packet is counted as dropped once and nothing is exported.\<close>

theorem sampling_decision:
  assumes "handle_ip_packet opts rs lvl p info dev = Some (dev', evs)"
  shows "\<exists>r. packet_hash opts rs lvl p (hash_buffer dev) = Some r \<and> (case ph_hash r of
      None \<Rightarrow> evs = [] \<and> counters dev' = counters dev
    | Some v \<Rightarrow> if in_range opts v
        then sampling_size dev' = sampling_size dev + 1 \<and> packets_dropped dev' \<in> {0, packets_dropped dev}
        else evs = [] \<and> sampling_size dev' = sampling_size dev \<and> packets_dropped dev' = packets_dropped dev + 1)"
  using assms by (cases rule: handle_ip_packet_cases) (auto simp: counters_def)

text \<open>A packet whose hash lies in the window, and the same packet for a device with an empty window.\<close>

theorem sampling_decision_witness:
  "\<exists>d1 e1 d2 e2. handle_ip_packet demo_options [] 0 (demo_packet 64) demo_info demo_device = Some (d1, e1) \<and> sampling_size d1 = 1
     \<and> handle_ip_packet (demo_options\<lparr>sel_range_min := 1, sel_range_max := 0\<rparr>) [] 0 (demo_packet 64) demo_info demo_device = Some (d2, e2)
     \<and> e2 = [] \<and> packets_dropped d2 = 1"
proof -
  let ?out = "demo_options\<lparr>sel_range_min := 1, sel_range_max := 0\<rparr>"
  have w: "whole_packet (demo_packet 64) N_IP T_UDP (demo_ip 64) (replicate 8 0) [1, 2]"
    by (simp add: whole_packet_def net_header_def ip4_header_def transport_header_def demo_packet_def pview_def demo_ip_def)
  have ready: "sampling_ready ?out [] 0 demo_device" 
    using demo_ready by (simp add: sampling_ready_def effective_template_def split: if_splits)
  obtain d1 e1 where one: "handle_ip_packet demo_options [] 0 (demo_packet 64) demo_info demo_device = Some (d1, e1)"
    using handle_ip_packet_total [OF w] demo_ready by (metis sampling_ready_def)
  obtain d2 e2 where two: "handle_ip_packet ?out [] 0 (demo_packet 64) demo_info demo_device = Some (d2, e2)"
    using handle_ip_packet_total [OF w] ready by (metis sampling_ready_def)
  have sel: "map_option b_len (call_selection Sel_Only_Net [] (demo_packet 64) ((hash_buffer demo_device)\<lparr>b_len := 0\<rparr>)
      (whole_offsets (demo_ip 64) (replicate 8 0)) (whole_layers N_IP T_UDP)) = Some 17" by code_simp
  have hashed: "\<exists>v. ph_hash r = Some v"
    if "packet_hash opts [] 0 (demo_packet 64) (hash_buffer demo_device) = Some r" "selection_function opts = Sel_Only_Net" for opts r
    using that sel by (auto simp: packet_hash_def Let_def bind_Some_conv findHeaders_whole [OF w])
  have f: "selection_function demo_options = Sel_Only_Net" "selection_function ?out = Sel_Only_Net"
    "in_range demo_options v" "\<not> in_range ?out v" "sampling_size demo_device = 0" "packets_dropped demo_device = 0" for v
    by (auto simp: demo_options_def demo_device_def in_range_def zero_device_def)
  obtain r1 where r1: "packet_hash demo_options [] 0 (demo_packet 64) (hash_buffer demo_device) = Some r1"
    "case ph_hash r1 of None \<Rightarrow> e1 = [] \<and> counters d1 = counters demo_device
      | Some v \<Rightarrow> if in_range demo_options v
          then sampling_size d1 = sampling_size demo_device + 1 \<and> packets_dropped d1 \<in> {0, packets_dropped demo_device}
          else e1 = [] \<and> sampling_size d1 = sampling_size demo_device \<and> packets_dropped d1 = packets_dropped demo_device + 1"
    using sampling_decision [OF one] by blast
  obtain r2 where r2: "packet_hash ?out [] 0 (demo_packet 64) (hash_buffer demo_device) = Some r2"
    "case ph_hash r2 of None \<Rightarrow> e2 = [] \<and> counters d2 = counters demo_device
      | Some v \<Rightarrow> if in_range ?out v
          then sampling_size d2 = sampling_size demo_device + 1 \<and> packets_dropped d2 \<in> {0, packets_dropped demo_device}
          else e2 = [] \<and> sampling_size d2 = sampling_size demo_device \<and> packets_dropped d2 = packets_dropped demo_device + 1"
    using sampling_decision [OF two] by blast
  have "sampling_size d1 = 1" "e2 = [] \<and> packets_dropped d2 = 1"
    using hashed [OF r1(1) f(1)] r1(2) hashed [OF r2(1) f(2)] r2(2) f(3-6) by auto
  with one two show ?thesis by blast
qed

text \<open>C7: The account of a stream of packets. While packet-id export is on with a sampling
  template and fewer records than the flush limit are pending, a successful run over any list of
  captured packets keeps that invariant, flushes once per \<open>export_packet_count\<close> records (pending
  records before plus exported records equal pending after plus the limit times the flushes),
  counts every packet as seen and counts as sampled exactly the exported ones.\<close>

theorem packet_stream_account:
  assumes "handle_packets opts rs lvl cs dev = Some (dev', evs)" and "handle_inv opts dev"
  shows "handle_inv opts dev'
    \<and> unat (dev_export_packet_count dev') + unat (export_packet_count opts) * flushes evs
        = unat (dev_export_packet_count dev) + exports evs
    \<and> sampling_size dev' = sampling_size dev + of_nat (exports evs)
    \<and> totalpacketcount dev' = totalpacketcount dev + of_nat (length cs)
    \<and> sampling_delta_count dev' = sampling_delta_count dev + of_nat (length cs)"
  using assms by (rule handle_packets_account)

theorem packet_stream_account_witness:
  "\<exists>dev' evs. handle_packets demo_options [] 0 [demo_capture] demo_device = Some (dev', evs)
     \<and> totalpacketcount dev' = 1 \<and> flushes evs = exports evs"
proof -
  from demo_run obtain dev' evs where run: "handle_packets demo_options [] 0 [demo_capture] demo_device = Some (dev', evs)"
    by blast
  note acc = packet_stream_account [OF run demo_inv]
  have "totalpacketcount demo_device = 0" "dev_export_packet_count demo_device = 0"
    by (simp_all add: demo_device_def zero_device_def)
  moreover have "dev_export_packet_count dev' = 0"
    using acc by (simp add: handle_inv_def demo_options_def word_gt_0 unsigned_word_eqI word_less_nat_alt unat_eq_zero)
  ultimately have "totalpacketcount dev' = 1 \<and> flushes evs = exports evs"
    using acc by (simp add: demo_options_def)
  with run show ?thesis by blast
qed

text \<open>C19: Every data record that a stream of packets produces has exactly the fields of its
  template, each of the announced length, and was read inside its object.\<close>

theorem data_records_fit_templates:
  assumes "handle_packets opts rs lvl cs dev = Some (dev', evs)"
  shows "\<forall>t fs. Export t fs \<in> set evs \<longrightarrow> (\<exists>tmpl. get_template t = Some tmpl \<and> record_ok tmpl fs)"
  using handle_packets_events [OF assms] by (auto simp: list_all_iff event_ok_def)

theorem data_records_fit_templates_witness:
  "\<exists>dev' evs. handle_packets demo_options [] 0 [demo_capture] demo_device = Some (dev', evs)
     \<and> (\<forall>t fs. Export t fs \<in> set evs \<longrightarrow> (\<exists>tmpl. get_template t = Some tmpl \<and> record_ok tmpl fs))"
proof -
  from demo_run obtain dev' evs where run: "handle_packets demo_options [] 0 [demo_capture] demo_device = Some (dev', evs)"
    by blast
  with data_records_fit_templates [OF run] show ?thesis by blast
qed

text \<open>The packet id has no effect: whichever function, or the hash itself, is configured to
  compute it, the device and the exported records are the same, because every template exports
  the hash of the selection.\<close>

theorem packet_id_not_exported:
  assumes "buffer_ok (hash_buffer dev)"
  shows "handle_ip_packet (opts\<lparr>hashAsPacketID := n, pktid_function := Some f\<rparr>) rs lvl p info dev
    = handle_ip_packet (opts\<lparr>hashAsPacketID := m, pktid_function := Some g\<rparr>) rs lvl p info dev"
proof -
  let ?o = "opts\<lparr>hashAsPacketID := n, pktid_function := Some f\<rparr>"
  let ?o' = "opts\<lparr>hashAsPacketID := m, pktid_function := Some g\<rparr>"
  have hash: "packet_hash ?o rs lvl p b = packet_hash ?o' rs lvl p b" for b
    by (simp add: packet_hash_def cong: if_cong)
  show ?thesis
  proof (cases "packet_hash ?o' rs lvl p (hash_buffer dev)")
    case None
    with hash show ?thesis by (simp add: handle_ip_packet_def)
  next
    case (Some r)
    have "buffer_ok (ph_buffer r)" using packet_hash_buffer [OF Some assms] by simp
    then obtain x y where "call_hash f (ph_buffer r) = Some x" "call_hash g (ph_buffer r) = Some y"
      using called.calc_total by metis
    then have "packet_id ?o v (ph_buffer r) = Some (if n \<noteq> 0 then v else x)"
      "packet_id ?o' v (ph_buffer r) = Some (if m \<noteq> 0 then v else y)" for v
      by (simp_all add: packet_id_def)
    moreover have "export_sample ?o t k fs d = export_sample ?o' t k fs d" for t k fs d
      by (cases fs) (simp_all add: export_sample_def)
    moreover have "effective_template ?o d = effective_template ?o' d" for d by (simp add: effective_template_def)
    ultimately show ?thesis using Some hash [of "hash_buffer dev"]
      by (auto simp: handle_ip_packet_def Let_def split: option.splits)
  qed
qed

theorem packet_id_not_exported_witness:
  "handle_ip_packet (demo_options\<lparr>hashAsPacketID := 0, pktid_function := Some TWMX\<rparr>) [] 0 (demo_packet 64)
       \<lparr>ts = \<lparr>tv_sec = 0, tv_usec = 0\<rparr>, pi_length = 30, nettype = 0x0800\<rparr> demo_device
   = handle_ip_packet (demo_options\<lparr>hashAsPacketID := 1, pktid_function := Some BOB\<rparr>) [] 0 (demo_packet 64)
       \<lparr>ts = \<lparr>tv_sec = 0, tv_usec = 0\<rparr>, pi_length = 30, nettype = 0x0800\<rparr> demo_device"
  by (rule packet_id_not_exported) (simp add: demo_device_def buffer_ok_def)

text \<open>With the log level at debug the dump of the hash input writes its last NUL one byte
  behind its buffer, so no packet with a non-empty selection is processed without a fault.\<close>

theorem debug_level_overflow:
  assumes "packet_hash opts rs lvl p (hash_buffer dev) = Some r" "ph_hash r = Some v" "lvl \<noteq> LOGGER_LEVEL_DEBUG"
    and "buffer_ok (hash_buffer dev)"
  shows "handle_ip_packet opts rs LOGGER_LEVEL_DEBUG p info dev = None"
proof -
  have "content b \<noteq> []" if "b_len b \<noteq> 0" "buffer_ok b" for b
    using that by (auto simp: content_def buffer_ok_def unat_eq_zero)
  moreover have "buffer_ok b'" if "call_selection (selection_function opts) rs p ((hash_buffer dev)\<lparr>b_len := 0\<rparr>) h l = Some b'" for b' h l
  proof -
    have "buffer_ok ((hash_buffer dev)\<lparr>b_len := 0\<rparr>)" using assms(4) by (simp add: buffer_ok_def)
    from sel.sel_ok [OF this that] show ?thesis by simp
  qed
  ultimately have "packet_hash opts rs LOGGER_LEVEL_DEBUG p (hash_buffer dev) = None"
    using assms(1-3) debug_dump_overflow
    by (fastforce simp: packet_hash_def Let_def bind_Some_conv split: if_splits)
  then show ?thesis by (simp add: handle_ip_packet_def)
qed

theorem debug_level_overflow_witness:
  "handle_ip_packet (demo_options\<lparr>selection_function := Sel_Raw, hash_function := OAAT\<rparr>)
       [\<lparr>rs_offset = 0, rs_length = 1\<rparr>] LOGGER_LEVEL_DEBUG \<lparr>p_mem = [7], p_ptr = 0, p_len = 1\<rparr>
       \<lparr>ts = \<lparr>tv_sec = 0, tv_usec = 0\<rparr>, pi_length = 1, nettype = 0x0800\<rparr>
       (zero_device\<lparr>hash_buffer := \<lparr>b_mem = [0], b_len = 0, b_size = 1\<rparr>\<rparr>) = None"
proof -
  have "case packet_hash (demo_options\<lparr>selection_function := Sel_Raw, hash_function := OAAT\<rparr>)
       [\<lparr>rs_offset = 0, rs_length = 1\<rparr>] 0 \<lparr>p_mem = [7], p_ptr = 0, p_len = 1\<rparr>
       (hash_buffer (zero_device\<lparr>hash_buffer := \<lparr>b_mem = [0], b_len = 0, b_size = 1\<rparr>\<rparr>)) of
      None \<Rightarrow> False | Some r \<Rightarrow> ph_hash r \<noteq> None"
    by code_simp
  then obtain r v where "packet_hash (demo_options\<lparr>selection_function := Sel_Raw, hash_function := OAAT\<rparr>)
       [\<lparr>rs_offset = 0, rs_length = 1\<rparr>] 0 \<lparr>p_mem = [7], p_ptr = 0, p_len = 1\<rparr>
       (hash_buffer (zero_device\<lparr>hash_buffer := \<lparr>b_mem = [0], b_len = 0, b_size = 1\<rparr>\<rparr>)) = Some r" "ph_hash r = Some v"
    by (auto split: option.splits)
  then show ?thesis
    by (rule debug_level_overflow) (simp_all add: buffer_ok_def)
qed

text \<open>Decoding a length-prefixed array gives back the array and leaves the packet at the
  byte behind it.\<close>

theorem decode_array_roundtrip:
  assumes "pview p = encode_array bs @ rest" and "length bs < 65536"
  shows "\<exists>d p'. decode_array p = Some (d, p') \<and> take (unat (p_len d)) (pview d) = bs \<and> pview p' = rest
    \<and> p_len p' = p_len p - (of_nat (length bs) + 2)"
  using assms by (rule decode_array_encoded)

theorem decode_array_roundtrip_witness:
  "\<exists>d p'. decode_array \<lparr>p_mem = [0, 2, 7, 8, 9], p_ptr = 0, p_len = 5\<rparr> = Some (d, p')
     \<and> take (unat (p_len d)) (pview d) = [7, 8] \<and> pview p' = [9]"
  using decode_array_roundtrip [of "\<lparr>p_mem = [0, 2, 7, 8, 9], p_ptr = 0, p_len = 5\<rparr>" "[7, 8]" "[9]"]
  by (auto simp: pview_def encode_array_def)

end
