(* ===== verification/Options_Props.thy ===== *)
theory Options_Props
  imports Command_Line Packet_Props
begin

text \<open>
  Properties of the option table: an invariant of every way to set options (a locale whose
  assumption is one preservation law per handler, interpreted on the handlers), the agreement
  of configuration files with the command line, nested configuration files, and the setters.
\<close>

section \<open>Invariants of the settings\<close>

text \<open>
  What a handler must keep; \<open>-c\<close> keeps it when the files it reads do. The readers of files and
  of the command line then keep it.
\<close>

locale settings_invariant =
  fixes lc :: libc and inv :: "settings \<Rightarrow> bool"
  assumes call_inv: "call_opt lc rc f arg s = Returned r s' \<Longrightarrow> inv s \<Longrightarrow>
    (\<And>a t k t'. rc a t = Returned k t' \<Longrightarrow> inv t \<Longrightarrow> inv t') \<Longrightarrow> inv s'"
begin

lemma read_lines_inv:
  assumes "read_lines lc rc lines h s = Returned r s'" and "inv s"
    and rc: "\<And>a t k t'. rc a t = Returned k t' \<Longrightarrow> inv t \<Longrightarrow> inv t'"
  shows "inv s'"
  using assms(1,2)
proof (induction lines arbitrary: h s)
  case (Cons line lines)
  then show ?case
    by (auto split: config_item.splits outcome.splits dest: call_inv [OF _ _ rc])
qed simp

lemma opt_c_inv: "opt_c n lc a s = Returned r s' \<Longrightarrow> inv s \<Longrightarrow> inv s'"
proof (induction n arbitrary: a s r s')
  case (Suc n)
  then show ?case
    by (auto simp: read_options_file_v2_def split: option.splits outcome.splits
        dest!: read_lines_inv [OF _ _ Suc.IH])
qed simp

lemma run_opts_inv:
  "run_opts lc (opt_c n lc) evs s = Returned r s' \<Longrightarrow> inv s \<Longrightarrow> inv s'"
proof (induction evs arbitrary: s)
  case (Cons ev evs)
  then show ?case
    by (cases ev) (auto split: outcome.splits if_splits dest: call_inv [OF _ _ opt_c_inv])
qed simp

lemma parse_cmdline_inv:
  "parse_cmdline_v2 n lc argv s = Returned r s' \<Longrightarrow> inv s \<Longrightarrow> inv s'"
  unfolding parse_cmdline_v2_def by (rule run_opts_inv)

end

text \<open>
  The invariant of the settings: the option fields are in their domains, and each of the
  active devices has a hash buffer of its size and a template that exports data records.
\<close>

abbreviation (input) data_template_ids :: "u32 set" where
  "data_template_ids \<equiv> {MINT_ID, TS_ID, TS_TTL_PROTO_ID, TS_TTL_PROTO_IP_ID}"

definition opts_ok :: "options \<Rightarrow> bool" where
  "opts_ok x \<longleftrightarrow> sel_range_min x \<le> sel_range_max x \<and> unat (number_interfaces x) \<le> MAX_INTERFACES
     \<and> templateID x \<in> data_template_ids \<and> 0 \<le> collectorPort x \<and> collectorPort x < 32768
     \<and> length (collectorIP x) < 256 \<and> (hashAsPacketID x \<noteq> 0 \<or> pktid_function x \<noteq> None)"

definition device_ok :: "device \<Rightarrow> bool" where
  "device_ok d \<longleftrightarrow> buffer_ok (hash_buffer d) \<and> unat (b_size (hash_buffer d)) < 65536
     \<and> (template_id d = - 1 \<or> template_id d \<in> data_template_ids)"

definition ranges_wf :: "range_select list \<Rightarrow> bool" where
  "ranges_wf rs \<longleftrightarrow> rs \<noteq> [] \<and> (\<forall>r \<in> set rs. 0 \<le> rs_length r)"

definition settings_ok :: "settings \<Rightarrow> bool" where
  "settings_ok s \<longleftrightarrow> opts_ok (s_opts s) \<and> length (if_devices s) = MAX_INTERFACES \<and> unat (t_idx s) \<le> MAX_INTERFACES
     \<and> (\<forall>i < unat (number_interfaces (s_opts s)). device_ok (if_devices s ! i)) \<and> ranges_wf (s_rSel s)"

section \<open>Every handler keeps the invariant\<close>

lemma upd_simps [simp]:
  "s_opts (upd f s) = f (s_opts s)" "if_devices (upd f s) = if_devices s" "s_rSel (upd f s) = s_rSel s"
  "t_idx (upd f s) = t_idx s" "s_logger (upd f s) = s_logger s"
  by (simp_all add: upd_def)

lemma upd_dev_simps [simp]:
  "s_opts (upd_dev i f s) = s_opts s" "if_devices (upd_dev i f s) = (if_devices s)[i := f (if_devices s ! i)]"
  "s_rSel (upd_dev i f s) = s_rSel s" "t_idx (upd_dev i f s) = t_idx s" "s_logger (upd_dev i f s) = s_logger s"
  by (simp_all add: upd_dev_def)

lemma settings_ok_upd:
  assumes "settings_ok s" and "opts_ok (f (s_opts s))" and "number_interfaces (f (s_opts s)) = number_interfaces (s_opts s)"
  shows "settings_ok (upd f s)"
  using assms by (simp add: settings_ok_def upd_def)

lemma set_bounds_ok:
  assumes "opts_ok x"
  shows "opts_ok (set_sampling_lowerbound x a)" "opts_ok (set_sampling_upperbound x a)"
  using assms by (auto simp: opts_ok_def set_sampling_lowerbound_def set_sampling_upperbound_def Let_def not_less)

lemma u32_le_max: "w \<le> UINT32_MAX" for w :: u32
  using unsigned_less [of w, where ?'a = nat] by (simp add: word_le_nat_alt)

text \<open>The window that a ratio selects has the computed width, on whichever side it is placed.\<close>

lemma set_sampling_ratio_window:
  "sel_range_min (set_sampling_ratio rd x a) \<le> sel_range_max (set_sampling_ratio rd x a)
   \<and> sel_range_max (set_sampling_ratio rd x a) - sel_range_min (set_sampling_ratio rd x a) = ratio_max rd a"
proof (cases "UINT32_MAX - ratio_max rd a > 0x19999999")
  case True
  have "unat (UINT32_MAX - ratio_max rd a) = unat UINT32_MAX - unat (ratio_max rd a)"
    by (rule unat_sub) (rule u32_le_max)
  with True have small: "unat (ratio_max rd a) + 0x19999999 < 2 ^ 32"
    by (simp add: word_less_nat_alt)
  then have "(0x19999999 :: u32) \<le> ratio_max rd a + 0x19999999"
    by (simp add: word_le_nat_alt unat_add_lem [THEN iffD1])
  with True show ?thesis by (simp add: set_sampling_ratio_def Let_def)
next
  case False
  with u32_le_max show ?thesis by (simp add: set_sampling_ratio_def Let_def)
qed

lemma set_sampling_ratio_ok:
  assumes "opts_ok x" shows "opts_ok (set_sampling_ratio rd x a)"
proof -
  have "sel_range_min (set_sampling_ratio rd x a) \<le> sel_range_max (set_sampling_ratio rd x a)"
    using set_sampling_ratio_window by blast
  moreover have "(\<lambda>y. (number_interfaces y, templateID y, collectorPort y, collectorIP y, hashAsPacketID y, pktid_function y))
      (set_sampling_ratio rd x a)
    = (number_interfaces x, templateID x, collectorPort x, collectorIP x, hashAsPacketID x, pktid_function x)"
    by (simp add: set_sampling_ratio_def Let_def)
  ultimately show ?thesis using assms by (simp add: opts_ok_def)
qed

lemma parse_template_range: "parse_template a \<in> {- 1, 4, 5, 6, 7}"
  by (simp add: parse_template_def template_names_def)

lemma parseRange_wf: "ranges_wf (parseRange a)"
  using parseRange_loop_wf [of "[]" None None a] by (simp add: ranges_wf_def parseRange_def)

lemma sel_loop_ok: "settings_ok s \<Longrightarrow> settings_ok (sel_loop fs a s)"
proof (induction fs a s rule: sel_loop.induct)
  case (2 name f fs a s)
  have "settings_ok ((upd (\<lambda>x. x\<lparr>selection_function := f\<rparr>) s)\<lparr>s_rSel := parseRange (drop (length name) a)\<rparr>)"
    using 2(3) parseRange_wf by (simp add: settings_ok_def upd_def opts_ok_def)
  with 2 show ?case by simp
qed simp

lemma set_interface_frame:
  "set_interface a d = Some d' \<Longrightarrow> hash_buffer d' = hash_buffer d \<and> template_id d' = template_id d"
  by (auto simp: set_interface_def split: list.splits if_splits)

lemma device_ok_defaults: "device_ok (set_defaults_device x d)"
proof -
  have "unat (ucast (snapLength x) :: u32) = unat (snapLength x)" by (rule unat_ucast_u16)
  then show ?thesis
    using unsigned_less [of "snapLength x", where ?'a = nat]
    by (simp add: device_ok_def set_defaults_device_def buffer_ok_def)
qed

lemma device_ok_cong: "hash_buffer d = hash_buffer d' \<Longrightarrow> template_id d = template_id d' \<Longrightarrow> device_ok d = device_ok d'"
  by (simp add: device_ok_def)

lemma opt_i_ok:
  assumes "opt_i a s = Returned r s'" and ok: "settings_ok s" shows "settings_ok s'"
proof (cases "unat (number_interfaces (s_opts s)) = MAX_INTERFACES")
  case True
  with assms show ?thesis by (simp add: opt_i_def)
next
  case False
  let ?n = "unat (number_interfaces (s_opts s))"
  have n: "?n < 10" using ok False by (simp add: settings_ok_def opts_ok_def)
  then have Suc: "unat (number_interfaces (s_opts s) + 1) = Suc ?n"
    by (simp add: unat_add_lem [THEN iffD1])
  from assms(1) False obtain d where
    d: "set_interface a (set_defaults_device (s_opts s) (if_devices s ! ?n)) = Some d"
    and s': "s' = upd (\<lambda>x. x\<lparr>number_interfaces := number_interfaces x + 1\<rparr>) (upd_dev ?n (\<lambda>_. d) s)"
    by (auto simp: opt_i_def Let_def split: option.splits if_splits)
  have "device_ok d"
    using set_interface_frame [OF d] device_ok_defaults device_ok_cong by metis
  then show ?thesis
    using ok n Suc unfolding s' settings_ok_def
    by (auto simp: upd_def upd_dev_def opts_ok_def nth_list_update less_Suc_eq)
qed

lemma opt_t_ok:
  assumes "opt_t a s = Returned r s'" and ok: "settings_ok s" shows "settings_ok s'"
proof -
  let ?tid = "word_of_int (parse_template a) :: u32"
  let ?s = "upd (\<lambda>x. x\<lparr>templateID := (if - 1 = ?tid then templateID x else ?tid)\<rparr>) s"
  have tid: "?tid = - 1 \<or> ?tid \<in> data_template_ids" using parse_template_range [of a] by auto
  have s: "settings_ok ?s" by (rule settings_ok_upd [OF ok]) (use ok tid in \<open>auto simp: settings_ok_def opts_ok_def\<close>)
  have bound: "unat (t_idx s) \<le> 10" using ok by (simp add: settings_ok_def)
  show ?thesis
  proof (cases "unat (t_idx s) = 10")
    case True
    with assms(1) s show ?thesis by (simp add: opt_t_def Let_def)
  next
    case False
    with bound have "unat (t_idx s) < 10" by simp
    moreover from this have "unat (t_idx s + 1) \<le> 10" by (simp add: unat_add_lem [THEN iffD1])
    moreover have "s' = (upd_dev (unat (t_idx s)) (\<lambda>d. d\<lparr>template_id := ?tid\<rparr>) ?s)\<lparr>t_idx := t_idx s + 1\<rparr>"
      using assms(1) False \<open>unat (t_idx s) < 10\<close> by (simp add: opt_t_def Let_def upd_def)
    ultimately show ?thesis
      using s tid unfolding settings_ok_def
      by (simp add: upd_dev_def upd_def device_ok_def nth_list_update)
  qed
qed

lemma simple_opts_ok:
  assumes "opts_ok x"
  shows "opts_ok (set_verbosity v x)" "opts_ok (set_latitude rd a x)" "opts_ok (set_longitude rd a x)"
    and "number_interfaces (set_verbosity v x) = number_interfaces x"
    and "number_interfaces (set_latitude rd a x) = number_interfaces x"
    and "number_interfaces (set_longitude rd a x) = number_interfaces x"
  using assms
  by (auto simp: opts_ok_def set_verbosity_def set_latitude_def set_longitude_def set_interval_def
      split: option.splits list.splits)

lemma set_bounds_frame:
  "number_interfaces (set_sampling_lowerbound x a) = number_interfaces x"
  "number_interfaces (set_sampling_upperbound x a) = number_interfaces x"
  "number_interfaces (set_sampling_ratio rd x a) = number_interfaces x"
  by (simp_all add: set_sampling_lowerbound_def set_sampling_upperbound_def set_sampling_ratio_def Let_def)

lemma wrap16_range: "wrap16 v < 32768"
  using signed_take_bit_int_less_exp [of 15 v] by (simp add: wrap16_def)

lemma opt_v_ok: "settings_ok s \<Longrightarrow> opt_v a s = Returned r s' \<Longrightarrow> settings_ok s'"
  using settings_ok_upd [of s "set_verbosity a"] simple_opts_ok [of "s_opts s"]
  by (auto simp: opt_v_def Let_def settings_ok_def)

lemmas plain_handlers = opt_e_def opt_f_def opt_I_def opt_J_def opt_K_def opt_G_def opt_o_def opt_O_def
  opt_4_def opt_6_def opt_F_def opt_p_def opt_d_def opt_D_def opt_N_def opt_u_def

lemma call_opt_simps:
  "call_opt lc rc F_v arg s = opt_v arg s"
  "call_opt lc rc F_V arg s = opt_V s"
  "call_opt lc rc F_h arg s = opt_h s"
  "call_opt lc rc F_i arg s = with_arg opt_i arg s"
  "call_opt lc rc F_4 arg s = opt_4 s"
  "call_opt lc rc F_6 arg s = opt_6 s"
  "call_opt lc rc F_O arg s = with_arg opt_O arg s"
  "call_opt lc rc F_f arg s = with_arg opt_f arg s"
  "call_opt lc rc F_N arg s = with_arg opt_N arg s"
  "call_opt lc rc F_I arg s = with_arg (opt_I lc) arg s"
  "call_opt lc rc F_J arg s = with_arg (opt_J lc) arg s"
  "call_opt lc rc F_K arg s = with_arg (opt_K lc) arg s"
  "call_opt lc rc F_G arg s = with_arg (opt_G lc) arg s"
  "call_opt lc rc F_m arg s = with_arg opt_m arg s"
  "call_opt lc rc F_M arg s = with_arg opt_M arg s"
  "call_opt lc rc F_r arg s = with_arg (opt_r lc) arg s"
  "call_opt lc rc F_s arg s = with_arg opt_s arg s"
  "call_opt lc rc F_S arg s = with_arg opt_S arg s"
  "call_opt lc rc F_F arg s = with_arg opt_F arg s"
  "call_opt lc rc F_p arg s = with_arg opt_p arg s"
  "call_opt lc rc F_o arg s = with_arg opt_o arg s"
  "call_opt lc rc F_u arg s = opt_u s"
  "call_opt lc rc F_C arg s = with_arg opt_C arg s"
  "call_opt lc rc F_P arg s = with_arg opt_P arg s"
  "call_opt lc rc F_e arg s = with_arg opt_e arg s"
  "call_opt lc rc F_t arg s = with_arg opt_t arg s"
  "call_opt lc rc F_d arg s = with_arg opt_d arg s"
  "call_opt lc rc F_D arg s = with_arg opt_D arg s"
  "call_opt lc rc F_l arg s = with_arg (opt_l lc) arg s"
  "call_opt lc rc F_L arg s = with_arg (opt_L lc) arg s"
  "call_opt lc rc F_c arg s = with_arg rc arg s"
  "call_opt lc rc F_n arg s = opt_n s"
  "call_opt lc rc F_X arg s = with_arg opt_X arg s"
  "call_opt lc rc F_y arg s = opt_y s"
  "call_opt lc rc F_unknown arg s = opt_unknown_parameter s"
  by (simp_all add: call_opt_def)

lemma with_arg_Returned: "with_arg f arg s = Returned r s' \<longleftrightarrow> (\<exists>a. arg = Some a \<and> f a s = Returned r s')"
  by (simp add: with_arg_def split: option.split)

text \<open>The handlers that store a value in a field the invariant does not restrict.\<close>

lemma plain_ok:
  assumes "Returned 0 (upd g s) = Returned r s'" and ok: "settings_ok s"
    and "\<And>x. opts_ok x \<Longrightarrow> opts_ok (g x) \<and> number_interfaces (g x) = number_interfaces x"
  shows "settings_ok s'"
proof -
  have "opts_ok (s_opts s)" using ok by (simp add: settings_ok_def)
  with assms(1,3) settings_ok_upd [OF ok] show ?thesis by auto
qed

lemma opt_C_ok:
  assumes ok: "settings_ok s" and "opt_C a s = Returned r s'" shows "settings_ok s'"
proof -
  have "length a < 256" using assms(2) by (simp add: opt_C_def split: if_splits)
  with assms(2) have "Returned 0 (upd (\<lambda>x. x\<lparr>collectorIP := a\<rparr>) s) = Returned r s'" by (simp add: opt_C_def)
  then show ?thesis by (rule plain_ok [OF _ ok]) (use \<open>length a < 256\<close> in \<open>simp add: opts_ok_def\<close>)
qed

lemma plain_handlers_ok:
  assumes ok: "settings_ok s"
  shows "opt_e a s = Returned r s' \<Longrightarrow> settings_ok s'"
    "opt_f a s = Returned r s' \<Longrightarrow> settings_ok s'" "opt_I lc a s = Returned r s' \<Longrightarrow> settings_ok s'"
    "opt_J lc a s = Returned r s' \<Longrightarrow> settings_ok s'" "opt_K lc a s = Returned r s' \<Longrightarrow> settings_ok s'"
    "opt_G lc a s = Returned r s' \<Longrightarrow> settings_ok s'" "opt_o a s = Returned r s' \<Longrightarrow> settings_ok s'"
    "opt_O a s = Returned r s' \<Longrightarrow> settings_ok s'" "opt_4 s = Returned r s' \<Longrightarrow> settings_ok s'"
    "opt_6 s = Returned r s' \<Longrightarrow> settings_ok s'" "opt_F a s = Returned r s' \<Longrightarrow> settings_ok s'"
    "opt_p a s = Returned r s' \<Longrightarrow> settings_ok s'" "opt_d a s = Returned r s' \<Longrightarrow> settings_ok s'"
    "opt_D a s = Returned r s' \<Longrightarrow> settings_ok s'" "opt_N a s = Returned r s' \<Longrightarrow> settings_ok s'"
    "opt_u s = Returned r s' \<Longrightarrow> settings_ok s'"
  unfolding plain_handlers
  by (erule plain_ok [OF _ ok], simp add: opts_ok_def)+

lemma bound_handlers_ok:
  assumes ok: "settings_ok s"
  shows "opt_m a s = Returned r s' \<Longrightarrow> settings_ok s'"
    "opt_M a s = Returned r s' \<Longrightarrow> settings_ok s'" "opt_r lc a s = Returned r s' \<Longrightarrow> settings_ok s'"
    "opt_l lc a s = Returned r s' \<Longrightarrow> settings_ok s'" "opt_L lc a s = Returned r s' \<Longrightarrow> settings_ok s'"
  unfolding opt_m_def opt_M_def opt_r_def opt_l_def opt_L_def
  by (erule plain_ok [OF _ ok], simp add: set_bounds_ok set_sampling_ratio_ok set_bounds_frame simple_opts_ok)+

lemma opt_P_ok:
  assumes ok: "settings_ok s" and "opt_P a s = Returned r s'" shows "settings_ok s'"
proof -
  let ?s = "upd (\<lambda>x. x\<lparr>collectorPort := wrap16 (atoi a)\<rparr>) s"
  have "s' = ?s" "0 \<le> wrap16 (atoi a)"
    using assms(2) by (simp_all add: opt_P_def Let_def split: if_splits)
  then show ?thesis using settings_ok_upd [OF ok] ok wrap16_range by (simp add: settings_ok_def opts_ok_def)
qed

lemma call_opt_ok:
  assumes call: "call_opt lc rc f arg s = Returned r s'" and ok: "settings_ok s"
    and rc: "\<And>a t k t'. rc a t = Returned k t' \<Longrightarrow> settings_ok t \<Longrightarrow> settings_ok t'"
  shows "settings_ok s'"
proof (cases f)
  case F_v
  with call show ?thesis using opt_v_ok [OF ok] by (simp add: call_opt_simps)
next
  case F_X
  with call show ?thesis
    by (auto simp: call_opt_simps with_arg_Returned opt_X_def Let_def split: option.splits)
next
  case F_c
  with call show ?thesis using rc ok by (auto simp: call_opt_simps with_arg_Returned)
qed (use call ok in \<open>auto simp: call_opt_simps with_arg_Returned opt_h_def opt_V_def opt_n_def opt_y_def
      opt_unknown_parameter_def opt_s_def opt_S_def parseSelFunction_def sel_loop_ok
      dest: plain_handlers_ok bound_handlers_ok opt_C_ok opt_i_ok opt_t_ok opt_P_ok\<close>)

interpretation cfg: settings_invariant lc settings_ok for lc
  by unfold_locales (rule call_opt_ok)

section \<open>Configuration files and flags\<close>

text \<open>A file that sets one option, and the values that can be written in it.\<close>

definition item_section :: "string \<Rightarrow> string" where
  "item_section item = takeWhile (\<lambda>c. c \<noteq> CHR ''.'') item"

definition item_key :: "string \<Rightarrow> string" where
  "item_key item = drop (length (item_section item) + 1) item"

definition config_file :: "string \<Rightarrow> string \<Rightarrow> string" where
  "config_file item v = ''['' @ item_section item @ '']'' @ [CHR 0x0A] @ item_key item @ '' = '' @ v @ [CHR 0x0A]"

definition plain_value :: "string \<Rightarrow> bool" where
  "plain_value v \<longleftrightarrow> v \<noteq> [] \<and> \<not> c_isspace (hd v) \<and> \<not> c_isspace (last v) \<and> length v < 1900
     \<and> CHR ''#'' \<notin> set v \<and> CHR 0x0A \<notin> set v \<and> CHR 0x00 \<notin> set v"

text \<open>What the table promises of an entry that has a key, checked entry by entry.\<close>

definition key_chars :: string where
  "key_chars = ''abcdefghijklmnopqrstuvwxyz_46''"

definition key_ok :: "string \<Rightarrow> bool" where
  "key_ok k \<longleftrightarrow> k \<noteq> [] \<and> length k \<le> 50 \<and> set k \<subseteq> set key_chars"

definition entry_ok :: "char \<times> string \<times> opt_fun \<times> string \<Rightarrow> bool" where
  "entry_ok e = (case e of (l, need, f, item) \<Rightarrow>
     find_opt_function_char l = f \<and> opt_spec par_v2 l = Some (length need) \<and> f \<noteq> F_unknown \<and> l \<noteq> CHR ''-''
     \<and> (item \<noteq> [] \<longrightarrow> find_opt_function_key item = f \<and> key_ok (item_section item) \<and> key_ok (item_key item)
        \<and> item = item_section item @ ''.'' @ item_key item))"

lemma par_v2_eq: "par_v2 = ''v::Vhi:46O:f:N:I:J:K:G:m:M:r:s:S:F:p:o:uC:P:e:t:d:D:l:L:c:nX:y''"
  by code_simp

lemma table_ok: "list_all entry_ok cfg_opt_list"
  unfolding entry_ok_def par_v2_eq by code_simp

lemma key_chars_ok:
  "list_all (\<lambda>c. heading_char c \<and> c_tolower c = c \<and> \<not> c_isspace c
     \<and> c \<notin> set [CHR ''#'', CHR ''='', CHR ''['', CHR ''.'', CHR 0x0A, CHR 0x00]) key_chars"
  by code_simp

lemma key_char_facts:
  assumes "key_ok k" "c \<in> set k"
  shows "heading_char c" "c_tolower c = c" "\<not> c_isspace c" "c \<noteq> CHR ''#''" "c \<noteq> CHR ''=''" "c \<noteq> CHR ''[''"
    "c \<noteq> CHR ''.''" "c \<noteq> CHR 0x0A" "c \<noteq> CHR 0x00"
  using key_chars_ok assms by (auto simp: key_ok_def list_all_iff)

lemma entry_facts: "e \<in> set cfg_opt_list \<Longrightarrow> entry_ok e"
  using table_ok by (simp add: list_all_iff)

lemma fgets_line: "CHR 0x0A \<notin> set l \<Longrightarrow> length l < n \<Longrightarrow> fgets n (l @ CHR 0x0A # rest) = (l @ [CHR 0x0A], rest)"
proof (induction l arbitrary: n)
  case Nil
  then show ?case by (cases n) simp_all
next
  case (Cons c l)
  then show ?case by (cases n) auto
qed

lemma file_lines_line:
  assumes "CHR 0x0A \<notin> set l" "CHR 0x00 \<notin> set l" "length l < 1999"
  shows "file_lines (l @ CHR 0x0A # rest) = (l @ [CHR 0x0A]) # file_lines rest"
proof -
  have "takeWhile (\<lambda>c. c \<noteq> CHR 0x00) (l @ [CHR 0x0A]) = l @ [CHR 0x0A]"
    using assms(2) by (auto simp: takeWhile_eq_all_conv)
  then show ?thesis
    by (subst file_lines.simps) (simp add: fgets_line assms)
qed

lemma file_lines_Nil: "file_lines [] = []"
  by (subst file_lines.simps) simp

lemma remove_comment_id: "CHR ''#'' \<notin> set s \<Longrightarrow> remove_comment s = s"
  by (auto simp: remove_comment_def takeWhile_eq_all_conv)

lemma rstrip_snoc: "rstrip (s @ [c]) = (if c_isspace c then rstrip s else s @ [c])"
  by (simp add: rstrip_def)

lemma rstrip_solid: "s \<noteq> [] \<Longrightarrow> \<not> c_isspace (last s) \<Longrightarrow> rstrip s = s"
  by (cases s rule: rev_cases) (simp_all add: rstrip_snoc)

lemma newline_space: "c_isspace (CHR 0x0A)"
  by (simp add: c_isspace_def)

text \<open>A line that begins and ends with visible characters loses its newline only.\<close>

lemma r_trim_newline:
  assumes "1 < length s" "\<not> c_isspace (last s)"
  shows "r_trim (s @ [CHR 0x0A]) = s"
proof -
  obtain c cs where s: "s = c # cs" "cs \<noteq> []" using assms(1) by (cases s) auto
  then show ?thesis using assms(2) by (simp add: r_trim_ref rstrip_snoc newline_space rstrip_solid)
qed

lemma takeWhile_to: "(\<And>c. c \<in> set s \<Longrightarrow> P c) \<Longrightarrow> \<not> P d \<Longrightarrow> takeWhile P (s @ d # rest) = s"
  by (induction s) auto

lemma make_lower_key: "key_ok k \<Longrightarrow> make_lower k = k"
  using key_char_facts(2) by (auto simp: make_lower_def intro: map_idI)

lemma parse_heading_line:
  assumes k: "key_ok sec"
  shows "parse_line h (''['' @ sec @ '']'' @ [CHR 0x0A]) = Heading sec"
proof -
  have comm: "CHR ''#'' \<notin> set (''['' @ sec @ '']'' @ [CHR 0x0A])" using key_char_facts(4) [OF k] by auto
  have "r_trim ((''['' @ sec @ '']'') @ [CHR 0x0A]) = ''['' @ sec @ '']''"
    by (rule r_trim_newline) (use k in \<open>simp_all add: key_ok_def c_isspace_def\<close>)
  moreover have "takeWhile heading_char (sec @ '']'') = sec"
    by (rule takeWhile_to) (use key_char_facts(1) [OF k] in \<open>simp_all add: heading_char_def c_isdigit_def\<close>)
  moreover have "sec \<noteq> []" "length sec \<le> 100" using k by (simp_all add: key_ok_def)
  ultimately show ?thesis
    unfolding parse_line_def remove_comment_id [OF comm] by (simp add: scan_heading_def make_lower_key [OF k])
qed

lemma parse_item_line:
  assumes sec: "key_ok sec" and k: "key_ok key" and v: "plain_value v"
  shows "parse_line (Some sec) (key @ '' = '' @ v @ [CHR 0x0A]) = Item (sec @ ''.'' @ key) v"
proof -
  let ?l = "key @ '' = '' @ v"
  note kc = key_char_facts [OF k]
  have ne: "key \<noteq> []" "v \<noteq> []" using k v by (simp_all add: key_ok_def plain_value_def)
  have comm: "CHR ''#'' \<notin> set (key @ '' = '' @ v @ [CHR 0x0A])" using kc(4) v by (auto simp: plain_value_def)
  have trim: "r_trim (?l @ [CHR 0x0A]) = ?l"
    by (rule r_trim_newline) (use ne v in \<open>simp_all add: plain_value_def\<close>)
  have hd: "hd key \<in> set key" using ne by simp
  obtain c cs where kcs: "key = c # cs" using ne by (cases key) auto
  have noh: "scan_heading ?l = None" using kc(6) [of c] by (simp add: scan_heading_def kcs)
  have key1: "takeWhile (\<lambda>c. c \<noteq> CHR ''='') ?l = key @ '' ''"
    using takeWhile_to [of "key @ '' ''" "\<lambda>c. c \<noteq> CHR ''=''" "CHR ''=''" "CHR '' '' # v"] kc(5) by auto
  have solid: "rstrip cs = cs"
  proof (cases "cs = []")
    case False
    then show ?thesis using kc(3) [of "last cs"] by (intro rstrip_solid) (auto simp: kcs)
  qed (simp add: rstrip_def)
  have space: "c_isspace (CHR '' '')" by (simp add: c_isspace_def)
  have rk: "r_trim (key @ '' '') = key"
    using rstrip_snoc [of cs "CHR '' ''"] space solid by (simp add: r_trim_ref kcs)
  have lk: "l_trim key = key" using kc(3) [of c] by (simp add: kcs)
  have lv: "l_trim (CHR '' '' # v) = v"
    using v ne space by (cases v) (auto simp: plain_value_def)
  have "split_item ?l = (key, v)"
    unfolding split_item_def Let_def key1 rk lk make_lower_key [OF k] using lv by simp
  moreover have "1 < length ?l" "length (sec @ ''.'' @ key) < 200" using sec k by (simp_all add: key_ok_def)
  ultimately show ?thesis
    using trim noh unfolding parse_line_def remove_comment_id [OF comm] by (simp add: Let_def)
qed

text \<open>A handler that returns reports success, and \<open>-c\<close> is the only one that opens files.\<close>

lemma call_opt_returns_0:
  assumes "f \<noteq> F_unknown" "f \<noteq> F_c" shows "call_opt lc rc f arg s = Returned r s' \<Longrightarrow> r = 0"
  by (cases f) (use assms in \<open>auto simp: call_opt_simps with_arg_Returned plain_handlers opt_v_def opt_h_def opt_V_def opt_C_def
      opt_i_def opt_t_def opt_P_def opt_X_def opt_s_def opt_S_def opt_m_def opt_M_def opt_r_def opt_l_def opt_L_def
      opt_n_def opt_y_def Let_def split: if_splits option.splits\<close>)

lemma call_opt_rc: "f \<noteq> F_c \<Longrightarrow> call_opt lc rc f arg s = call_opt lc rc' f arg s"
  by (cases f) (simp_all add: call_opt_simps)

lemma config_file_lines:
  assumes "key_ok (item_section item)" "key_ok (item_key item)" "plain_value v"
  shows "file_lines (config_file item v) =
    [''['' @ item_section item @ '']'' @ [CHR 0x0A], item_key item @ '' = '' @ v @ [CHR 0x0A]]"
proof -
  let ?sec = "item_section item" and ?key = "item_key item"
  note sc = key_char_facts [OF assms(1)] and kc = key_char_facts [OF assms(2)]
  have len: "length ?sec \<le> 50" "length ?key \<le> 50" using assms by (simp_all add: key_ok_def)
  have shape: "config_file item v = (''['' @ ?sec @ '']'') @ CHR 0x0A # ((?key @ '' = '' @ v) @ CHR 0x0A # [])"
    by (simp add: config_file_def)
  show ?thesis
    unfolding shape using sc(8,9) kc(8,9) assms(3) len
    by (subst file_lines_line; (subst file_lines_line)?; auto simp: file_lines_Nil plain_value_def)
qed

lemma read_config_file:
  assumes e: "(l, need, f, item) \<in> set cfg_opt_list" "item \<noteq> []" and v: "plain_value v"
  shows "read_options_file_v2 lc rc (config_file item v) s =
    (case call_opt lc rc f (Some v) s of Returned _ s' \<Rightarrow> Returned 0 s' | out \<Rightarrow> out)"
proof -
  let ?sec = "item_section item" and ?key = "item_key item"
  have ok: "find_opt_function_key item = f" "key_ok ?sec" "key_ok ?key" "item = ?sec @ ''.'' @ ?key"
    using entry_facts [OF e(1)] e(2) by (simp_all add: entry_ok_def)
  note config_file_lines [OF ok(2,3) v]
  moreover have "find_opt_function_key (?sec @ CHR ''.'' # ?key) = f" using ok(1) ok(4) by simp
  ultimately show ?thesis
    using parse_heading_line [OF ok(2)] parse_item_line [OF ok(2,3) v]
    by (simp add: read_options_file_v2_def split: outcome.split)
qed

lemma getopt_flag:
  assumes e: "(l, need, f, item) \<in> set cfg_opt_list" and "need \<noteq> []" "v \<noteq> []"
  shows "getopt_all par_v2 [CHR ''-'' # l # v] = [(l, Some v)]"
proof -
  have ok: "opt_spec par_v2 l = Some (length need)" "l \<noteq> CHR ''-''" using entry_facts [OF e] by (simp_all add: entry_ok_def)
  obtain k where "length need = Suc k" using assms(2) by (cases need) auto
  with ok assms(3) show ?thesis
    by (subst getopt_all.simps) (cases k; simp add: getopt_all.simps)
qed

lemma getopt_config: "getopt_all par_v2 [''-c'', name] = [(CHR ''c'', Some name)]"
  by (simp add: getopt_all.simps par_v2_eq)

section \<open>Nested configuration files\<close>

text \<open>The configuration files that a text names.\<close>

fun nested_lines :: "string list \<Rightarrow> string option \<Rightarrow> string set" where
  "nested_lines [] h = {}"
| "nested_lines (line # lines) h = (case parse_line h line of
       Skip_line \<Rightarrow> nested_lines lines h
     | Heading h' \<Rightarrow> nested_lines lines (Some h')
     | Overflow \<Rightarrow> {}
     | Item k v \<Rightarrow> (if find_opt_function_key k = F_c then {v} else {}) \<union> nested_lines lines h)"

definition nested_files :: "string \<Rightarrow> string set" where
  "nested_files cfg = nested_lines (file_lines cfg) None"

lemma call_opt_deep:
  assumes "call_opt lc rc f arg s = Too_deep"
  shows "\<exists>a. f = F_c \<and> arg = Some a \<and> rc a s = Too_deep"
proof -
  have "with_arg g b t = Too_deep \<longleftrightarrow> (\<exists>a. b = Some a \<and> g a t = Too_deep)" for g b t
    by (simp add: with_arg_def split: option.split)
  then show ?thesis
    using assms by (cases f) (auto simp: call_opt_simps plain_handlers opt_v_def opt_h_def opt_V_def opt_C_def
      opt_i_def opt_t_def opt_P_def opt_X_def opt_s_def opt_S_def opt_m_def opt_M_def opt_r_def opt_l_def opt_L_def
      opt_n_def opt_y_def opt_unknown_parameter_def Let_def split: if_splits option.splits)
qed

lemma read_lines_deep:
  "read_lines lc rc lines h s = Too_deep \<Longrightarrow> \<exists>a \<in> nested_lines lines h. \<exists>t. rc a t = Too_deep"
proof (induction lines arbitrary: h s)
  case (Cons line lines)
  then show ?case
    by (fastforce split: config_item.splits outcome.splits dest: call_opt_deep)
qed simp

text \<open>A rank that decreases along the file names bounds the depth.\<close>

lemma opt_c_not_deep:
  assumes wf: "\<And>a cfg b. fopen_text lc a = Some cfg \<Longrightarrow> b \<in> nested_files cfg \<Longrightarrow> rank b < rank a"
  shows "rank a < n \<Longrightarrow> opt_c n lc a s \<noteq> Too_deep"
proof (induction n arbitrary: a s)
  case (Suc n)
  show ?case
  proof
    assume "opt_c (Suc n) lc a s = Too_deep"
    then obtain cfg where cfg: "fopen_text lc a = Some cfg" "read_lines lc (opt_c n lc) (file_lines cfg) None s = Too_deep"
      by (auto simp: read_options_file_v2_def split: option.splits outcome.splits)
    from read_lines_deep [OF cfg(2)] obtain b t where "b \<in> nested_files cfg" "opt_c n lc b t = Too_deep"
      by (auto simp: nested_files_def)
    with wf [OF cfg(1)] Suc.prems Suc.IH [of b t] show False by fastforce
  qed
qed simp

lemma run_opts_not_deep:
  assumes "\<And>a s. opt_c n lc a s \<noteq> Too_deep"
  shows "run_opts lc (opt_c n lc) evs s \<noteq> Too_deep"
proof (induction evs arbitrary: s)
  case (Cons ev evs)
  then show ?case by (cases ev) (auto split: outcome.splits dest!: call_opt_deep simp: assms)
qed simp

text \<open>A file that names itself before anything that ends the program.\<close>

lemma opt_c_loop:
  assumes "fopen_text lc a = Some (config_file ''general.configfile'' a)" "plain_value a"
  shows "opt_c n lc a s = Too_deep"
proof (induction n arbitrary: s)
  case (Suc n)
  have "(CHR ''c'', '':'', F_c, ''general.configfile'') \<in> set cfg_opt_list" by (simp add: cfg_opt_list_def)
  from read_config_file [OF this _ assms(2)] Suc assms(1) show ?case
    by (simp add: call_opt_simps with_arg_def)
qed simp

section \<open>Setters and value parsers\<close>

lemma card_word_interval:
  fixes a b :: u32
  assumes "a \<le> b" shows "card {h. a \<le> h \<and> h \<le> b} = unat (b - a) + 1"
proof -
  have "unat ` {h. a \<le> h \<and> h \<le> b} = {unat a .. unat b}"
  proof (intro equalityI subsetI)
    fix x assume x: "x \<in> {unat a .. unat b}"
    then have "unat (of_nat x :: u32) = x"
      using unsigned_less [of b, where ?'a = nat] by (simp add: unsigned_of_nat take_bit_nat_eq_self)
    with x have "of_nat x \<in> {h. a \<le> h \<and> h \<le> b} \<and> x = unat (of_nat x :: u32)" by (simp add: word_le_nat_alt)
    then show "x \<in> unat ` {h. a \<le> h \<and> h \<le> b}" by blast
  qed (auto simp: word_le_nat_alt)
  then have "card {h. a \<le> h \<and> h \<le> b} = card {unat a .. unat b}"
    using card_image [of "unat :: u32 \<Rightarrow> nat" "{h. a \<le> h \<and> h \<le> b}"] by (metis inj_onI unsigned_word_eqI)
  also have "\<dots> = unat (b - a) + 1"
    using assms by (simp add: unat_sub Suc_diff_le word_le_nat_alt)
  finally show ?thesis .
qed

lemma double_to_u32_floor:
  assumes "0 \<le> d" "d < 2 ^ 32" shows "unat (double_to_u32 d) = nat \<lfloor>d\<rfloor>"
proof -
  have f: "0 \<le> \<lfloor>d\<rfloor>" "\<lfloor>d\<rfloor> < 2 ^ 32" using assms by (simp_all add: floor_less_iff)
  then have "double_to_u32 d = word_of_int \<lfloor>d\<rfloor>"
    using assms by (simp add: double_to_u32_def trunc_rat_def)
  then show ?thesis using f
    by (simp add: unsigned_of_int take_bit_int_eq_self)
qed

text \<open>A name in any letter case selects its function; only \<open>IP\<close> is a prefix of another name.\<close>

definition any_case :: "string \<Rightarrow> string \<Rightarrow> bool" where
  "any_case nm name \<longleftrightarrow> map c_tolower nm = map c_tolower name"

lemma strncase_eq_append:
  assumes "any_case nm name"
  shows "strncase_eq (nm @ rest) other n \<longleftrightarrow> map c_tolower (take n (name @ rest)) = map c_tolower (take n other)"
proof -
  have "map c_tolower (nm @ rest) = map c_tolower (name @ rest)" using assms by (simp add: any_case_def)
  then have "map c_tolower (take n (nm @ rest)) = map c_tolower (take n (name @ rest))"
    by (simp only: take_map [symmetric])
  then show ?thesis by (simp add: strncase_eq_def)
qed

lemma c_tolower_chars:
  "c_tolower (CHR ''R'') = CHR ''r''" "c_tolower (CHR ''E'') = CHR ''e''" "c_tolower (CHR ''C'') = CHR ''c''"
  "c_tolower (CHR ''I'') = CHR ''i''" "c_tolower (CHR ''P'') = CHR ''p''" "c_tolower (CHR ''T'') = CHR ''t''"
  "c_tolower (CHR ''A'') = CHR ''a''" "c_tolower (CHR ''K'') = CHR ''k''" "c_tolower (CHR ''W'') = CHR ''w''"
  "c_tolower (CHR ''L'') = CHR ''l''" "c_tolower (CHR ''S'') = CHR ''s''" "c_tolower (CHR ''N'') = CHR ''n''"
  "c_tolower (CHR ''Y'') = CHR ''y''" "c_tolower (CHR ''O'') = CHR ''o''" "c_tolower (CHR ''D'') = CHR ''d''"
  "c_tolower (CHR ''B'') = CHR ''b''" "c_tolower (CHR ''M'') = CHR ''m''" "c_tolower (CHR ''X'') = CHR ''x''"
  "c_tolower (CHR ''H'') = CHR ''h''" "c_tolower (CHR ''8'') = CHR ''8''" "c_tolower (CHR ''+'') = CHR ''+''"
  by code_simp+

lemma any_case_length: "any_case nm name \<Longrightarrow> length nm = length name"
  unfolding any_case_def by (metis length_map)

text \<open>Two names that differ before either ends never match the same argument.\<close>

definition clash :: "string \<Rightarrow> string \<Rightarrow> bool" where
  "clash a b = (take (length b) a = take (length a) b)"

lemma no_match:
  assumes "any_case nm name" "\<not> clash (map c_tolower name) (map c_tolower other)"
  shows "\<not> strncase_eq (nm @ rest) other (length other)"
proof
  let ?n = "map c_tolower name" and ?o = "map c_tolower other" and ?r = "map c_tolower rest"
  assume "strncase_eq (nm @ rest) other (length other)"
  then have "take (length ?o) (?n @ ?r) = ?o"
    using strncase_eq_append [OF assms(1)] by (simp add: take_map)
  then have "take (length ?n) ?o = take (length ?o) (take (length ?n) (?n @ ?r))"
    by (metis take_take min.commute)
  with assms(2) show False by (simp add: clash_def)
qed

lemma sel_loop_append: "sel_loop (xs @ ys) a s = sel_loop ys a (sel_loop xs a s)"
  by (induction xs a s rule: sel_loop.induct) auto

lemma sel_loop_miss: "\<forall>(n, f) \<in> set fs. \<not> strncase_eq a n (length n) \<Longrightarrow> sel_loop fs a s = s"
  by (induction fs a s rule: sel_loop.induct) auto

definition low_names :: "string list" where
  "low_names = [''rec8'', ''ip'', ''ip+tp'', ''packet'', ''raw'', ''last'', ''link'', ''net'', ''trans'', ''payload'', ''select'']"

lemma low_names: "map (\<lambda>(n, f). map c_tolower n) selfunctions = low_names"
  by (simp add: selfunctions_def low_names_def c_tolower_chars)

lemma low_names_nth: "i < 11 \<Longrightarrow> map c_tolower (fst (selfunctions ! i)) = low_names ! i"
  using nth_map [of i selfunctions "\<lambda>(n, f). map c_tolower n"] unfolding low_names
  by (simp add: selfunctions_def split_beta)

lemma selfunctions_clash:
  "list_all (\<lambda>i. list_all (\<lambda>j. i = j \<or> i \<in> {1, 2} \<and> j \<in> {1, 2} \<or> \<not> clash (low_names ! i) (low_names ! j)) [0..<11]) [0..<11]"
  by code_simp

lemma parseSelFunction_names:
  assumes "(name, f) \<in> set selfunctions" and nm: "any_case nm name"
    and "name = ''IP'' \<Longrightarrow> \<not> strncase_eq rest ''+TP'' 3"
  shows "parseSelFunction (nm @ rest) s =
    (upd (\<lambda>x. x\<lparr>selection_function := f\<rparr>) s)\<lparr>s_rSel := parseRange rest\<rparr>"
proof -
  have len: "length selfunctions = 11" by (simp add: selfunctions_def)
  obtain i where i: "i < 11" "selfunctions ! i = (name, f)"
    using assms(1) len by (metis in_set_conv_nth)
  have split: "selfunctions = take i selfunctions @ (name, f) # drop (Suc i) selfunctions"
    using i len by (metis id_take_nth_drop)
  have hit: "strncase_eq (nm @ rest) name (length name)" using strncase_eq_append [OF nm] by simp
  have dr: "drop (length name) (nm @ rest) = rest" using any_case_length [OF nm] by simp
  have miss: "\<not> strncase_eq (nm @ rest) (fst (selfunctions ! j)) (length (fst (selfunctions ! j)))"
    if j: "j < 11" "j \<noteq> i" "\<not> (i = 2 \<and> j = 1)" for j
  proof (cases "i \<in> {1, 2} \<and> j \<in> {1, 2}")
    case True
    with j have "i = 1" "j = 2" by auto
    then have "name = ''IP''" "selfunctions ! j = (''IP+TP'', Sel_U_TCP_and_Net)" using i by (auto simp: selfunctions_def)
    then show ?thesis using assms(3)
      using strncase_eq_append [OF nm, of rest "''IP+TP''" 5]
      by (simp add: c_tolower_chars strncase_eq_def eval_nat_numeral)
  next
    case False
    then have "\<not> clash (low_names ! i) (low_names ! j)"
      using selfunctions_clash i(1) j(1,2) unfolding list_all_iff set_upt
      by (metis atLeastLessThan_iff zero_le)
    then have "\<not> clash (map c_tolower name) (map c_tolower (fst (selfunctions ! j)))"
      using low_names_nth [OF i(1)] low_names_nth [OF j(1)] i(2) by simp
    then show ?thesis by (rule no_match [OF nm])
  qed
  have post: "sel_loop (drop (Suc i) selfunctions) (nm @ rest) t = t" for t
  proof (rule sel_loop_miss, clarify)
    fix a b assume "(a, b) \<in> set (drop (Suc i) selfunctions)" and e: "strncase_eq (nm @ rest) a (length a)"
    then obtain k where "k < 11 - Suc i" "selfunctions ! (Suc i + k) = (a, b)"
      using len by (auto simp: in_set_conv_nth)
    with miss [of "Suc i + k"] e show False by (auto simp: less_diff_conv add.commute)
  qed
  let ?sel = "\<lambda>t. (upd (\<lambda>x. x\<lparr>selection_function := f\<rparr>) t)\<lparr>s_rSel := parseRange rest\<rparr>"
  have "?sel (sel_loop (take i selfunctions) (nm @ rest) s) = ?sel s"
  proof (cases "i = 2")
    case False
    have "sel_loop (take i selfunctions) (nm @ rest) s = s"
    proof (rule sel_loop_miss, clarify)
      fix a b assume "(a, b) \<in> set (take i selfunctions)" and e: "strncase_eq (nm @ rest) a (length a)"
      then obtain k where "k < i" "selfunctions ! k = (a, b)" using len i(1) by (auto simp: in_set_conv_nth)
      with miss [of k] e False i(1) show False by simp
    qed
    then show ?thesis by simp
  next
    case True
    have "take 2 selfunctions = [(''REC8'', Sel_Rec), (''IP'', Sel_Only_Net)]" by (simp add: selfunctions_def)
    moreover have "\<not> strncase_eq (nm @ rest) ''REC8'' (length ''REC8'')"
      using miss [of 0] True by (simp add: selfunctions_def)
    ultimately show ?thesis using True by (simp add: upd_def)
  qed
  then show ?thesis
    unfolding parseSelFunction_def using hit dr post
    by (subst split) (simp add: sel_loop_append)
qed

lemma parseFunction_names:
  assumes "(name, f) \<in> set hashfunctions" and "any_case nm name"
  shows "parseFunction (nm @ rest) = f"
  using assms(1) unfolding parseFunction_def hashfunctions_def
  by (simp, elim disjE; simp add: strncase_eq_append [OF assms(2)] c_tolower_chars)

section \<open>Properties\<close>

lemma initial_settings_ok: "settings_ok initial_settings"
  by (simp add: settings_ok_def initial_settings_def opts_ok_def set_defaults_options_def ranges_wf_def
      baseSelection_def)

lemma settings_ok_device:
  assumes "settings_ok s" "i < unat (number_interfaces (s_opts s))"
  shows "i < length (if_devices s)" "device_ok (if_devices s ! i)"
    "effective_template (s_opts s) (if_devices s ! i) \<in> data_template_ids"
proof -
  show dev: "device_ok (if_devices s ! i)" using assms by (simp add: settings_ok_def)
  show "i < length (if_devices s)" using assms by (simp add: settings_ok_def opts_ok_def)
  have "templateID (s_opts s) \<in> data_template_ids" using assms(1) unfolding settings_ok_def opts_ok_def by blast
  then show "effective_template (s_opts s) (if_devices s ! i) \<in> data_template_ids"
    using dev by (auto simp: effective_template_def device_ok_def)
qed

definition demo_libc :: "string \<Rightarrow> libc" where
  "demo_libc cfg = \<lparr>fopen_text = (\<lambda>name. if name = ''x'' then Some cfg else None), rounding = (\<lambda>r. r)\<rparr>"

lemma demo_interface_line:
  "parse_cmdline_v2 0 (demo_libc []) [''impd4e'', ''-i'', ''eth0''] initial_settings = opt_i ''eth0'' initial_settings"
  by (simp add: parse_cmdline_v2_def getopt_all.simps par_v2_eq find_opt_function_char_def cfg_opt_list_def
      call_opt_simps with_arg_def opt_i_def initial_settings_def set_defaults_options_def set_interface_def)

lemma demo_interface: "\<exists>s. opt_i ''eth0'' initial_settings = Returned 0 s \<and> number_interfaces (s_opts s) = 1"
  by (simp add: opt_i_def initial_settings_def set_defaults_options_def set_interface_def)

text \<open>C6: Whatever the command line and the configuration files say, when the parser returns,
  every active device can be sampled: at most ten are active, each has a hash buffer of its
  declared size and a template that exports data records, the hash window is not inverted, a
  packet id is defined, and the selection list is not empty and has no negative length.\<close>

theorem parsed_settings_ready:
  assumes "parse_cmdline_v2 n lc argv initial_settings = Returned r s"
    and "i < unat (number_interfaces (s_opts s))"
  shows "i < MAX_INTERFACES \<and> buffer_ok (hash_buffer (if_devices s ! i))
    \<and> effective_template (s_opts s) (if_devices s ! i) \<in> {MINT_ID, TS_ID, TS_TTL_PROTO_ID, TS_TTL_PROTO_IP_ID}
    \<and> sel_range_min (s_opts s) \<le> sel_range_max (s_opts s)
    \<and> (hashAsPacketID (s_opts s) \<noteq> 0 \<or> pktid_function (s_opts s) \<noteq> None)
    \<and> s_rSel s \<noteq> [] \<and> (\<forall>r \<in> set (s_rSel s). 0 \<le> rs_length r)"
proof -
  have ok: "settings_ok s" by (rule cfg.parse_cmdline_inv [OF assms(1) initial_settings_ok])
  from settings_ok_device [OF this assms(2)] ok assms(2) show ?thesis
    by (simp add: settings_ok_def opts_ok_def device_ok_def ranges_wf_def)
qed

theorem parsed_settings_ready_witness:
  "\<exists>s. parse_cmdline_v2 0 (demo_libc []) [''impd4e'', ''-i'', ''eth0''] initial_settings = Returned 0 s
     \<and> buffer_ok (hash_buffer (if_devices s ! 0))"
proof -
  obtain s where s: "opt_i ''eth0'' initial_settings = Returned 0 s" "number_interfaces (s_opts s) = 1"
    using demo_interface by blast
  have "parse_cmdline_v2 0 (demo_libc []) [''impd4e'', ''-i'', ''eth0''] initial_settings = Returned 0 s"
    using s(1) demo_interface_line by simp
  with parsed_settings_ready [OF this, of 0] s(2) show ?thesis by simp
qed

text \<open>C15: A configuration file and the command line say the same: for every table entry with a
  key and every value that can be written on a line, running the program with a file that sets
  this key has the outcome of running it with the flag and the value.\<close>

theorem config_option_equals_flag:
  assumes "(l, need, f, item) \<in> set cfg_opt_list" and "item \<noteq> []" "need \<noteq> []" "f \<noteq> F_c" and "plain_value v"
    and "fopen_text lc name = Some (config_file item v)"
  shows "parse_cmdline_v2 (Suc n) lc [prog, ''-c'', name] s = parse_cmdline_v2 (Suc n) lc [prog, CHR ''-'' # l # v] s"
proof -
  have ok: "find_opt_function_char l = f" "f \<noteq> F_unknown" using entry_facts [OF assms(1)] by (simp_all add: entry_ok_def)
  have v: "v \<noteq> []" using assms(5) by (simp add: plain_value_def)
  have c: "find_opt_function_char (CHR ''c'') = F_c" by (simp add: find_opt_function_char_def cfg_opt_list_def)
  have rc: "call_opt lc (opt_c n lc) f (Some v) s = call_opt lc (opt_c (Suc n) lc) f (Some v) s"
    by (rule call_opt_rc [OF assms(4)])
  have ret: "call_opt lc (opt_c n lc) f (Some v) s \<noteq> Returned (- 1) t" for t
    using call_opt_returns_0 [OF ok(2) assms(4), of lc "opt_c n lc" "Some v" s "- 1" t] by auto
  show ?thesis
    using getopt_flag [OF assms(1,3) v] getopt_config [of name] ok c rc ret
      read_config_file [OF assms(1,2,5), of lc "opt_c n lc" s]
    by (auto simp: parse_cmdline_v2_def call_opt_simps with_arg_def assms(6) split: outcome.splits)
qed

theorem config_option_equals_flag_witness:
  "parse_cmdline_v2 1 (demo_libc (config_file ''selection.hash_function'' ''TWMX'')) [''impd4e'', ''-c'', ''x''] initial_settings
   = parse_cmdline_v2 1 (demo_libc (config_file ''selection.hash_function'' ''TWMX'')) [''impd4e'', ''-FTWMX''] initial_settings"
  using config_option_equals_flag [of "CHR ''F''" "'':''" F_F "''selection.hash_function''" "''TWMX''"
      "demo_libc (config_file ''selection.hash_function'' ''TWMX'')" "''x''" 0 "''impd4e''" initial_settings]
  by (simp add: cfg_opt_list_def plain_value_def c_isspace_def demo_libc_def)

text \<open>C26: Reading the configuration ends when the files do not name each other in a circle: with
  a rank that falls from every file to the files it names, no command line nests deeper than
  the ranks allow.\<close>

theorem config_nesting_terminates:
  assumes "\<And>a cfg b. fopen_text lc a = Some cfg \<Longrightarrow> b \<in> nested_files cfg \<Longrightarrow> rank b < rank a"
    and "\<And>a. rank a < n"
  shows "parse_cmdline_v2 n lc argv s \<noteq> Too_deep"
  unfolding parse_cmdline_v2_def
  by (rule run_opts_not_deep) (rule opt_c_not_deep [of lc rank, OF assms])

lemma nested_config_file:
  assumes e: "(l, need, f, item) \<in> set cfg_opt_list" "item \<noteq> []" and v: "plain_value v"
  shows "nested_files (config_file item v) \<subseteq> (if f = F_c then {v} else {})"
proof -
  let ?sec = "item_section item" and ?key = "item_key item"
  have ok: "find_opt_function_key item = f" "key_ok ?sec" "key_ok ?key" "item = ?sec @ ''.'' @ ?key"
    using entry_facts [OF e(1)] e(2) by (simp_all add: entry_ok_def)
  have "find_opt_function_key (?sec @ CHR ''.'' # ?key) = f" using ok(1) ok(4) by simp
  then show ?thesis
    using parse_heading_line [OF ok(2)] parse_item_line [OF ok(2,3) v]
    by (simp add: nested_files_def config_file_lines [OF ok(2,3) v])
qed

theorem config_nesting_terminates_witness:
  "parse_cmdline_v2 1 (demo_libc (config_file ''ipfix.one_odid'' ''1'')) [''impd4e'', ''-c'', ''x''] initial_settings \<noteq> Too_deep"
proof (rule config_nesting_terminates [where rank = "\<lambda>_. 0"])
  fix a b cfg assume "fopen_text (demo_libc (config_file ''ipfix.one_odid'' ''1'')) a = Some cfg" "b \<in> nested_files cfg"
  then have "b \<in> nested_files (config_file ''ipfix.one_odid'' ''1'')" by (auto simp: demo_libc_def split: if_splits)
  with nested_config_file [of "CHR ''u''" "''''" F_u "''ipfix.one_odid''" "''1''"] show "(0 :: nat) < 0"
    by (auto simp: cfg_opt_list_def plain_value_def c_isspace_def)
qed simp

text \<open>C39: A configuration file that names itself is read without end, whatever stack there is.\<close>

theorem config_self_inclusion:
  assumes "fopen_text lc name = Some (config_file ''general.configfile'' name)" and "plain_value name"
  shows "parse_cmdline_v2 n lc [prog, ''-c'', name] s = Too_deep"
proof -
  have "find_opt_function_char (CHR ''c'') = F_c" by (simp add: find_opt_function_char_def cfg_opt_list_def)
  then show ?thesis
    using opt_c_loop [OF assms] getopt_config [of name]
    by (simp add: parse_cmdline_v2_def call_opt_simps with_arg_def)
qed

theorem config_self_inclusion_witness:
  "parse_cmdline_v2 100 (demo_libc (config_file ''general.configfile'' ''x'')) [''impd4e'', ''-c'', ''x''] initial_settings = Too_deep"
  by (rule config_self_inclusion) (simp_all add: demo_libc_def plain_value_def c_isspace_def)

text \<open>C27: A selection ratio selects its share: when the computed share \<open>d\<close> of the hash values is in
  the range of \<^verbatim>\<open>uint32_t\<close>, the window accepts exactly \<open>nat \<lfloor>d\<rfloor> + 1\<close> of them, on whichever
  side of the first tenth it is placed.\<close>

theorem ratio_selects_share:
  assumes "d = rd (rd (4294967295 / 100) * strtod rd a)" and "0 \<le> d" "d < 2 ^ 32"
  shows "card {h. sel_range_min (set_sampling_ratio rd x a) \<le> h \<and> h \<le> sel_range_max (set_sampling_ratio rd x a)}
     = nat \<lfloor>d\<rfloor> + 1"
  using set_sampling_ratio_window [of rd x a] double_to_u32_floor [OF assms(2,3)] assms(1)
  by (simp add: card_word_interval ratio_max_def)

theorem ratio_selects_share_witness:
  "card {h. sel_range_min (set_sampling_ratio (\<lambda>r. r) zero_options ''10'') \<le> h
        \<and> h \<le> sel_range_max (set_sampling_ratio (\<lambda>r. r) zero_options ''10'')} = 429496730"
proof -
  have "decimal ''10'' = 10"
    by (simp add: decimal_def split_sign_def c_isspace_def c_isdigit_def dec_value_def digit_val_def exponent_def)
  then have d: "strtod (\<lambda>r. r) ''10'' = 10" by (simp add: strtod_def)
  have "\<lfloor>4294967295 / 100 * 10 :: rat\<rfloor> = 429496729" by (simp add: floor_eq_iff)
  then show ?thesis
    using ratio_selects_share [OF refl, of "\<lambda>r. r" "''10''" zero_options] by (simp add: d)
qed

text \<open>Every documented selection name, in any letter case and with any range list behind it,
  selects its function and the ranges of the list; \<open>IP\<close> must not be followed by \<open>+TP\<close>, which is
  another name.\<close>

theorem selection_option_parsed:
  assumes "(name, f) \<in> set selfunctions" and "map c_tolower nm = map c_tolower name"
    and "name = ''IP'' \<Longrightarrow> \<not> strncase_eq rest ''+TP'' 3"
  shows "opt_S (nm @ rest) s =
    Returned 0 ((upd (\<lambda>x. x\<lparr>selection_function := f\<rparr>) s)\<lparr>s_rSel := parseRange rest\<rparr>)"
  using parseSelFunction_names [of name f nm rest s] assms by (simp add: opt_S_def any_case_def)

theorem selection_option_parsed_witness:
  "opt_S ''raw20+4'' initial_settings =
    Returned 0 ((upd (\<lambda>x. x\<lparr>selection_function := Sel_Raw\<rparr>) initial_settings)\<lparr>s_rSel := parseRange ''20+4''\<rparr>)"
proof -
  have "map c_tolower ''raw'' = ''raw''" by code_simp
  then show ?thesis
    using selection_option_parsed [of "''RAW''" Sel_Raw "''raw''" "''20+4''" initial_settings]
    by (simp add: selfunctions_def c_tolower_chars)
qed

text \<open>The collector port is a signed 16-bit field: ports up to 32767 are stored, and every
  larger legal port ends the program with status 1.\<close>

theorem collector_port_range:
  assumes "n < 65536"
  shows "opt_P (dec_string n) s = (if n < 32768 then Returned 0 (upd (\<lambda>x. x\<lparr>collectorPort := int n\<rparr>) s) else Exited 1)"
proof -
  have a: "atoi (dec_string n) = int n" using atoi_dec_string [of n "[]"] assms by simp
  show ?thesis
  proof (cases "n < 32768")
    case True
    then have "wrap16 (int n) = int n" by (simp add: wrap16_def signed_take_bit_int_eq_self)
    with a True show ?thesis by (simp add: opt_P_def Let_def)
  next
    case False
    have "wrap16 (int n) = wrap16 (int n - 65536)"
      unfolding wrap16_def signed_take_bit_eq_iff_take_bit_eq by (simp add: take_bit_eq_mod)
    also have "\<dots> = int n - 65536"
      unfolding wrap16_def using False assms by (intro signed_take_bit_int_eq_self) auto
    finally have "wrap16 (int n) < 0" using assms by simp
    with a False show ?thesis by (simp add: opt_P_def Let_def)
  qed
qed

theorem collector_port_range_witness:
  "opt_P (dec_string 40000) initial_settings = Exited 1"
  using collector_port_range [of 40000 initial_settings] by simp

text \<open>The two command line readers agree: for every letter the old one handles, except \<open>-c\<close>,
  \<open>-i\<close>, \<open>-t\<close> and \<open>-v\<close>, the old \<^verbatim>\<open>switch\<close> and the table have the same outcome.\<close>

theorem old_switch_agrees:
  assumes "c \<in> set ''CefhIJKGomMrsSFpPdDlLNuny''"
  shows "old_switch lc c arg s = call_opt lc rc (find_opt_function_char c) arg s"
  using assms
  by (simp, elim disjE; simp add: old_switch_def find_opt_function_char_def cfg_opt_list_def call_opt_simps
      opt_h_def opt_n_def opt_y_def opt_s_def [abs_def])

theorem old_switch_agrees_witness:
  "old_switch (demo_libc []) (CHR ''o'') (Some ''7'') initial_settings
    = Returned 0 (upd (\<lambda>x. x\<lparr>observationDomainID := 7\<rparr>) initial_settings)"
  by (subst old_switch_agrees [where rc = "\<lambda>_ _. Fault"])
    (simp_all add: find_opt_function_char_def cfg_opt_list_def call_opt_simps with_arg_def opt_o_def
      atoi_def strtol10_def c_isspace_def c_isdigit_def dec_value_def digit_val_def clamp_long_def wrap_int_id)

end
