(* ===== verification/Sockets.thy ===== *)
theory Sockets
  imports Packet_Props
begin

text \<open>
  Socket devices (\<^verbatim>\<open>src/socket_handler.c\<close>): the address parser, the diagnostic printers, creating
  sockets, and the dispatch loops that turn datagrams into calls of the packet handler. What the
  operating system answers (\<^verbatim>\<open>socket\<close>, \<^verbatim>\<open>bind\<close>, \<^verbatim>\<open>recv\<close>, the clock) is an argument.
\<close>

section \<open>Addresses\<close>

definition parse_ip_port :: "string \<Rightarrow> string \<times> string" where
  "parse_ip_port s = (case strtok_all CHR '':'' s of
       [] \<Rightarrow> ('''', '''')
     | [ip] \<Rightarrow> (ip, '''')
     | ip # port # _ \<Rightarrow> (ip, port))"

text \<open>\<^verbatim>\<open>strtok_r\<close> writes a NUL behind the first token: what is left of the device name.\<close>

definition cut_name :: "string \<Rightarrow> string" where
  "cut_name s = (let l = takeWhile (\<lambda>c. c = CHR '':'') s
                 in l @ takeWhile (\<lambda>c. c \<noteq> CHR '':'') (drop (length l) s))"

section \<open>Diagnostic output\<close>

text \<open>
  \<^verbatim>\<open>sprintf(t, "%02x ", s[i])\<close> prints a signed \<^verbatim>\<open>char\<close> as an \<^verbatim>\<open>unsigned int\<close>: eight digits
  when its top bit is set. The array has \<^verbatim>\<open>3*l + 1\<close> bytes.
\<close>

definition hex_char :: "byte \<Rightarrow> byte list" where
  "hex_char b = (if b < 128 then [] else replicate 6 102) @ [hex_digit (drop_bit 4 b), hex_digit (b AND 0xF), 32, 0]"

fun print_loop :: "byte list \<Rightarrow> nat \<Rightarrow> nat \<Rightarrow> byte list \<Rightarrow> byte list option" where
  "print_loop a t 0 s = Some a"
| "print_loop a t (Suc l) s = do {
     c \<leftarrow> rd8 s 0;
     a \<leftarrow> wr_slice a t (hex_char c);
     print_loop a (t + 3) l (tl s) }"

definition print_array :: "logger_state \<Rightarrow> int \<Rightarrow> byte list \<Rightarrow> nat \<Rightarrow> unit option" where
  "print_array lg lvl s l =
     (if lvl \<le> logger_get_level lg then do {
        let len = 3 * l + 1;
        a \<leftarrow> print_loop (replicate len 0) 0 l s;
        a \<leftarrow> wr_slice a len [0];
        Some () }
      else Some ())"

text \<open>The list \<^verbatim>\<open>ai\<close> with, of each entry, the bytes of the address object and \<^verbatim>\<open>ai_addrlen\<close>.\<close>

fun print_addrinfo :: "logger_state \<Rightarrow> (byte list \<times> nat) list \<Rightarrow> unit option" where
  "print_addrinfo lg [] = Some ()"
| "print_addrinfo lg ((sa_data, ai_addrlen) # ai_next) =
     (if LOGGER_LEVEL_INFO \<le> logger_get_level lg then do {
        _ \<leftarrow> print_array lg LOGGER_LEVEL_INFO sa_data ai_addrlen;
        print_addrinfo lg ai_next }
      else Some ())"

section \<open>Creating sockets\<close>

text \<open>\<open>sock\<close> is the result of \<^verbatim>\<open>socket\<close>, \<open>res\<close> of \<^verbatim>\<open>connect\<close> or \<^verbatim>\<open>bind\<close>.\<close>

definition create_connect :: "int \<Rightarrow> int \<Rightarrow> int" where
  "create_connect sock res = (if - 1 = sock then sock else if - 1 = res then - 1 else sock)"

definition create_bind :: "int \<Rightarrow> int \<Rightarrow> int" where
  "create_bind sock res = (if - 1 = sock then sock else if - 1 = res then - 1 else sock)"

section \<open>Dispatch loops\<close>

text \<open>
  The answers of \<^verbatim>\<open>recv\<close>, in order: the datagram at the head of the queue, \<^verbatim>\<open>EAGAIN\<close>, or another
  error. A list that is used up means that nothing more is queued. A datagram has at most 65535
  bytes.
\<close>

datatype recv_result = Recv "byte list" | Would_block | Recv_error

definition datagram :: "byte list \<Rightarrow> byte list" where
  "datagram d = take 65535 d"

text \<open>The array \<^verbatim>\<open>buffer[g_options.snapLength]\<close> is not initialised.\<close>

definition recv_buffer :: "u16 \<Rightarrow> (nat \<Rightarrow> byte) \<Rightarrow> byte list" where
  "recv_buffer snap junk = map junk [0..<unat snap]"

definition received :: "byte list \<Rightarrow> byte list \<Rightarrow> byte list" where
  "received buf bs = bs @ drop (length bs) buf"

definition loop_goes_on :: "int \<Rightarrow> nat \<Rightarrow> bool" where
  "loop_goes_on max_packets i \<longleftrightarrow> int i < max_packets \<or> 0 = max_packets \<or> - 1 = max_packets"

text \<open>
  \<^verbatim>\<open>socket_dispatch_inet\<close> peeks for the length of the datagram, then takes it; \<open>n\<close> is both \<^verbatim>\<open>i\<close>
  and \<^verbatim>\<open>nPackets\<close>, \<open>buf\<close> the content of \<^verbatim>\<open>buffer\<close>.
\<close>

fun inet_loop :: "(nat \<Rightarrow> timeval) \<Rightarrow> int \<Rightarrow> nat \<Rightarrow> byte list \<Rightarrow> recv_result list \<Rightarrow> capture list \<times> int" where
  "inet_loop clock max_packets n buf [] = ([], int n)"
| "inet_loop clock max_packets n buf (peek # rs) =
     (if \<not> loop_goes_on max_packets n then ([], int n)
      else case peek of
          Would_block \<Rightarrow> ([], int n)
        | Recv_error \<Rightarrow> ([], - 1)
        | Recv d \<Rightarrow>
            if d = [] then ([], - 1)
            else (case rs of
                [] \<Rightarrow> ([], int n)
              | Would_block # _ \<Rightarrow> ([], int n)
              | Recv_error # _ \<Rightarrow> ([], - 1)
              | Recv d' # rs' \<Rightarrow>
                  (let bs = take (length buf) (datagram d'); buf' = received buf bs in
                   if bs = [] then ([], - 1)
                   else let (cs, r) = inet_loop clock max_packets (Suc n) buf' rs'
                        in (\<lparr>c_data = buf', c_caplen = of_nat (length bs), c_len = of_nat (length (datagram d)), c_ts = clock n\<rparr> # cs, r))))"

definition socket_dispatch_inet :: "u16 \<Rightarrow> (nat \<Rightarrow> byte) \<Rightarrow> (nat \<Rightarrow> timeval) \<Rightarrow> recv_result list \<Rightarrow> int \<Rightarrow> capture list \<times> int" where
  "socket_dispatch_inet snap junk clock rs max_packets = inet_loop clock max_packets 0 (recv_buffer snap junk) rs"

text \<open>\<^verbatim>\<open>socket_dispatch_unix\<close> and \<^verbatim>\<open>socket_dispatch\<close> differ in the bytes they ask for.\<close>

fun unix_loop :: "nat \<Rightarrow> (nat \<Rightarrow> timeval) \<Rightarrow> int \<Rightarrow> nat \<Rightarrow> byte list \<Rightarrow> recv_result list \<Rightarrow> capture list \<times> int" where
  "unix_loop cap clock max_packets n buf [] = ([], int n)"
| "unix_loop cap clock max_packets n buf (res # rs) =
     (if \<not> loop_goes_on max_packets n then ([], int n)
      else case res of
          Would_block \<Rightarrow> ([], int n)
        | Recv_error \<Rightarrow> ([], - 1)
        | Recv d \<Rightarrow>
            (let bs = take cap (datagram d); buf' = received buf bs in
             if bs = [] then ([], - 1)
             else let (cs, r) = unix_loop cap clock max_packets (Suc n) buf' rs
                  in (\<lparr>c_data = buf', c_caplen = of_nat (length bs), c_len = of_nat (length bs), c_ts = clock n\<rparr> # cs, r)))"

definition socket_dispatch_unix :: "u16 \<Rightarrow> (nat \<Rightarrow> byte) \<Rightarrow> (nat \<Rightarrow> timeval) \<Rightarrow> recv_result list \<Rightarrow> int \<Rightarrow> capture list \<times> int" where
  "socket_dispatch_unix snap junk clock rs max_packets =
     unix_loop (unat snap) clock max_packets 0 (recv_buffer snap junk) rs"

abbreviation (input) BUFFER_SIZE :: nat where "BUFFER_SIZE \<equiv> 1024"

definition socket_dispatch :: "u16 \<Rightarrow> (nat \<Rightarrow> byte) \<Rightarrow> (nat \<Rightarrow> timeval) \<Rightarrow> recv_result list \<Rightarrow> int \<Rightarrow> capture list \<times> int" where
  "socket_dispatch snap junk clock rs max_packets =
     unix_loop (if BUFFER_SIZE > unat snap then unat snap else BUFFER_SIZE) clock max_packets 0
       (recv_buffer 1024 junk) rs"

section \<open>The contract of a packet source\<close>

text \<open>
  What the packet watcher relies on: at most the packets it asked for, each not empty and inside
  its object.
\<close>

definition capture_ok :: "capture \<Rightarrow> bool" where
  "capture_ok c \<longleftrightarrow> unat (c_caplen c) \<le> length (c_data c) \<and> c_caplen c \<noteq> 0"

locale packet_source =
  fixes dispatch :: "int \<Rightarrow> capture list \<times> int"
  assumes bounded: "0 < n \<Longrightarrow> int (length (fst (dispatch n))) \<le> n"
    and inside: "list_all capture_ok (fst (dispatch n))"
    and result: "0 < n \<Longrightarrow> snd (dispatch n) = int (length (fst (dispatch n))) \<or> snd (dispatch n) = - 1"
begin

text \<open>What one call of the watcher makes of the source.\<close>

lemma watcher_run:
  assumes "packet_watcher_cb opts rs lvl (\<lambda>n. dispatch (int n)) revents dev = Some (dev', evs, act)"
    and "device_type dev \<in> {TYPE_SOCKET_INET, TYPE_SOCKET_UNIX}"
  shows "handle_packets opts rs lvl (fst (dispatch 10)) dev = Some (dev', evs) \<and> length (fst (dispatch 10)) \<le> 10
    \<and> (act = Keep \<longleftrightarrow> snd (dispatch 10) \<noteq> - 1 \<or> EV_READ \<notin> set revents \<and> EV_TIMER \<notin> set revents)"
  using assms bounded [of 10] result [of 10]
  by (auto simp: packet_watcher_cb_def bind_Some_conv split: prod.splits if_splits)

end

lemma received_length: "length bs \<le> length buf \<Longrightarrow> length (received buf bs) = length buf"
  by (simp add: received_def)

lemma unat_len32: "n < 2 ^ 32 \<Longrightarrow> unat (of_nat n :: u32) = n"
  by (simp add: unsigned_of_nat take_bit_nat_eq_self)

lemma capture_okI:
  assumes "0 < m" "m \<le> length b" "m < 65536"
  shows "capture_ok \<lparr>c_data = b, c_caplen = of_nat m, c_len = l, c_ts = t\<rparr>"
proof -
  have "unat (of_nat m :: u32) = m" using assms by (simp add: unat_len32)
  then show ?thesis using assms by (auto simp: capture_ok_def)
qed

lemma recv_buffer_length: "length (recv_buffer snap junk) = unat snap" "length (recv_buffer snap junk) < 65536"
  using unsigned_less [of snap, where ?'a = nat] by (simp_all add: recv_buffer_def)

lemma datagram_length: "length (datagram d) < 65536"
  by (simp add: datagram_def)

text \<open>What both loops keep: the contract, counted from the packets already delivered.\<close>

definition loop_ok :: "int \<Rightarrow> nat \<Rightarrow> capture list \<times> int \<Rightarrow> bool" where
  "loop_ok mx n out \<longleftrightarrow> list_all capture_ok (fst out)
     \<and> (0 < mx \<longrightarrow> int n \<le> mx \<longrightarrow> int (n + length (fst out)) \<le> mx)
     \<and> (snd out = int (n + length (fst out)) \<or> snd out = - 1)"

lemma loop_ok_stop: "loop_ok mx n ([], int n)" "loop_ok mx n ([], - 1)"
  by (simp_all add: loop_ok_def)

lemma loop_ok_deliver:
  assumes "loop_goes_on mx n" "loop_ok mx (Suc n) out" "capture_ok c"
  shows "loop_ok mx n (c # fst out, snd out)"
  using assms by (auto simp: loop_ok_def loop_goes_on_def)

lemma unix_loop_ok: "cap \<le> length buf \<Longrightarrow> loop_ok mx n (unix_loop cap clock mx n buf rs)"
proof (induction cap clock mx n buf rs rule: unix_loop.induct)
  case (2 cap clock mx n buf res rs)
  show ?case
  proof (cases "loop_goes_on mx n \<and> (\<exists>d. res = Recv d \<and> take cap (datagram d) \<noteq> [])")
    case True
    then obtain d where go: "loop_goes_on mx n" "res = Recv d" "take cap (datagram d) \<noteq> []" by auto
    let ?bs = "take cap (datagram d)"
    let ?buf = "received buf ?bs"
    have len: "length ?buf = length buf" using "2.prems" by (intro received_length) simp
    have "capture_ok \<lparr>c_data = ?buf, c_caplen = of_nat (length ?bs), c_len = of_nat (length ?bs), c_ts = clock n\<rparr>"
      by (rule capture_okI) (use go "2.prems" datagram_length [of d] len in auto)
    moreover have "loop_ok mx (Suc n) (unix_loop cap clock mx (Suc n) ?buf rs)"
      using "2.IH" [OF _ go(2) refl refl] go len "2.prems" by simp
    ultimately show ?thesis
      using loop_ok_deliver [OF go(1)] go by (simp add: split_beta Let_def)
  qed (auto simp: loop_ok_stop Let_def split: recv_result.split)
qed (simp add: loop_ok_stop)

lemma inet_loop_ok: "length buf < 65536 \<Longrightarrow> loop_ok mx n (inet_loop clock mx n buf rs)"
proof (induction clock mx n buf rs rule: inet_loop.induct)
  case (2 clock mx n buf peek rs)
  show ?case
  proof (cases "loop_goes_on mx n \<and> (\<exists>d d' rs'. peek = Recv d \<and> d \<noteq> [] \<and> rs = Recv d' # rs' \<and> take (length buf) (datagram d') \<noteq> [])")
    case True
    then obtain d d' rs' where go: "loop_goes_on mx n" "peek = Recv d" "d \<noteq> []" "rs = Recv d' # rs'"
      "take (length buf) (datagram d') \<noteq> []" by auto
    let ?bs = "take (length buf) (datagram d')"
    let ?buf = "received buf ?bs"
    have len: "length ?buf = length buf" by (intro received_length) simp
    have "capture_ok \<lparr>c_data = ?buf, c_caplen = of_nat (length ?bs), c_len = l, c_ts = clock n\<rparr>" for l
      by (rule capture_okI) (use go "2.prems" len in auto)
    moreover have "loop_ok mx (Suc n) (inet_loop clock mx (Suc n) ?buf rs')"
      using "2.IH" [OF _ go(2) _ go(4) refl refl refl] go len "2.prems" by simp
    ultimately show ?thesis
      using loop_ok_deliver [OF go(1)] go by (simp add: split_beta Let_def)
  qed (auto simp: loop_ok_stop Let_def split: recv_result.split list.split)
qed (simp add: loop_ok_stop)

lemma packet_source_loop:
  assumes "\<And>mx. loop_ok mx 0 (dispatch mx)" shows "packet_source dispatch"
  using assms by unfold_locales (auto simp: loop_ok_def)

interpretation inet: packet_source "socket_dispatch_inet snap junk clock rs" for snap junk clock rs
  by (rule packet_source_loop) (simp only: socket_dispatch_inet_def inet_loop_ok [OF recv_buffer_length(2)])

interpretation unix: packet_source "socket_dispatch_unix snap junk clock rs" for snap junk clock rs
  by (rule packet_source_loop) (simp add: socket_dispatch_unix_def unix_loop_ok recv_buffer_length)

interpretation plain: packet_source "socket_dispatch snap junk clock rs" for snap junk clock rs
  by (rule packet_source_loop) (simp add: socket_dispatch_def unix_loop_ok recv_buffer_def)

section \<open>What is delivered\<close>

text \<open>The answers of \<^verbatim>\<open>recv\<close> while the datagrams \<open>ds\<close> are queued: every one is peeked at, then taken.\<close>

definition queued :: "byte list list \<Rightarrow> recv_result list" where
  "queued ds = concat (map (\<lambda>d. [Recv d, Recv d]) ds)"

definition payload :: "capture \<Rightarrow> byte list" where
  "payload c = take (unat (c_caplen c)) (c_data c)"

definition sendable :: "byte list \<Rightarrow> bool" where
  "sendable d \<longleftrightarrow> d \<noteq> [] \<and> length d < 65536"

lemma payload_received:
  assumes "length bs < 65536"
  shows "payload \<lparr>c_data = received buf bs, c_caplen = of_nat (length bs), c_len = l, c_ts = t\<rparr> = bs"
  using assms by (simp add: payload_def received_def unat_len32)

lemma inet_loop_step:
  assumes "sendable d" "buf \<noteq> []" "int n < mx"
  shows "inet_loop clock mx n buf (Recv d # Recv d # rs) =
    (let bs = take (length buf) d; buf' = received buf bs; (cs, r) = inet_loop clock mx (Suc n) buf' rs
     in (\<lparr>c_data = buf', c_caplen = of_nat (length bs), c_len = of_nat (length d), c_ts = clock n\<rparr> # cs, r))"
  using assms by (simp add: sendable_def datagram_def loop_goes_on_def)

lemma inet_loop_queued:
  assumes "\<forall>d \<in> set ds. sendable d" "0 < length buf" "int n + int (length ds) \<le> mx"
  shows "\<exists>cs buf'. length buf' = length buf \<and> map payload cs = map (take (length buf)) ds
    \<and> map (\<lambda>c. unat (c_len c)) cs = map length ds \<and> map c_ts cs = map clock [n..<n + length ds]
    \<and> inet_loop clock mx n buf (queued ds @ rest) =
        (let (cs', r) = inet_loop clock mx (n + length ds) buf' rest in (cs @ cs', r))"
  using assms
proof (induction ds arbitrary: n buf)
  case Nil
  then show ?case by (intro exI [of _ "[]"] exI [of _ buf]) (simp add: queued_def split_beta)
next
  case (Cons d ds)
  let ?bs = "take (length buf) d"
  let ?buf = "received buf ?bs"
  let ?c = "\<lparr>c_data = ?buf, c_caplen = of_nat (length ?bs), c_len = of_nat (length d), c_ts = clock n\<rparr>"
  have d: "sendable d" "length d < 65536" using Cons.prems(1) by (auto simp: sendable_def)
  have len: "length ?buf = length buf" by (intro received_length) simp
  obtain cs buf' where IH: "length buf' = length buf" "map payload cs = map (take (length buf)) ds"
    "map (\<lambda>c. unat (c_len c)) cs = map length ds" "map c_ts cs = map clock [Suc n..<Suc n + length ds]"
    "inet_loop clock mx (Suc n) ?buf (queued ds @ rest) =
        (let (cs', r) = inet_loop clock mx (Suc n + length ds) buf' rest in (cs @ cs', r))"
    using Cons.IH [of ?buf "Suc n"] Cons.prems len by auto
  have "map payload (?c # cs) = map (take (length buf)) (d # ds)"
    using IH(2) payload_received [of ?bs] d(2) by simp
  moreover have "map (\<lambda>c. unat (c_len c)) (?c # cs) = map length (d # ds)"
    using IH(3) d(2) by (simp add: unat_len32)
  moreover have "map c_ts (?c # cs) = map clock [n..<n + length (d # ds)]"
    using IH(4) upt_conv_Cons [of n "Suc (n + length ds)"] by (simp del: upt_Suc)
  moreover have "inet_loop clock mx n buf (queued (d # ds) @ rest) =
      (let (cs', r) = inet_loop clock mx (n + length (d # ds)) buf' rest in ((?c # cs) @ cs', r))"
    using inet_loop_step [OF d(1), of buf n mx clock "queued ds @ rest"] Cons.prems(2,3) IH(5)
    by (simp add: queued_def split_beta Let_def)
  ultimately show ?case using IH(1) by blast
qed

section \<open>Properties\<close>

text \<open>C16: What an inet socket delivers: with no more than the requested number of datagrams
  queued, the watcher gets every one of them, in order, cut at the snap length, with its full
  length and its own time stamp, and the call returns their number.\<close>

theorem inet_delivers_datagrams:
  assumes "\<forall>d \<in> set ds. sendable d" and "0 < snap" and "int (length ds) \<le> mx"
    and "socket_dispatch_inet snap junk clock (queued ds) mx = (cs, r)"
  shows "map payload cs = map (take (unat snap)) ds \<and> map (\<lambda>c. unat (c_len c)) cs = map length ds
    \<and> map c_ts cs = map clock [0..<length ds] \<and> r = int (length ds)"
proof -
  have "0 < length (recv_buffer snap junk)" using assms(2) by (simp add: recv_buffer_length word_gt_0 unat_gt_0)
  from inet_loop_queued [OF assms(1) this, of 0 mx clock "[]"] assms(3,4) show ?thesis
    by (auto simp: socket_dispatch_inet_def recv_buffer_length)
qed

theorem inet_delivers_datagrams_witness:
  "snd (socket_dispatch_inet 2 (\<lambda>_. 0) (\<lambda>_. \<lparr>tv_sec = 0, tv_usec = 0\<rparr>) (queued [[1, 2, 3], [4]]) 10) = 2"
  using inet_delivers_datagrams [of "[[1, 2, 3], [4]]" 2 10 "\<lambda>_. 0" "\<lambda>_. \<lparr>tv_sec = 0, tv_usec = 0\<rparr>"]
  by (simp add: sendable_def) (metis prod.collapse)

text \<open>An empty datagram ends a capture: it delivers the datagrams before it, is taken for the
  end of a connection, and makes the packet watcher deregister the socket, whatever follows it.\<close>

theorem empty_datagram_stops:
  assumes "\<forall>d \<in> set ds. sendable d" and "0 < snap" and "length ds < 10"
    and "device_type dev = TYPE_SOCKET_INET" and "EV_READ \<in> set revents"
    and "packet_watcher_cb opts rs lvl (\<lambda>n. socket_dispatch_inet snap junk clock (queued ds @ Recv [] # rest) (int n))
           revents dev = Some (dev', evs, act)"
  shows "act = Deregister_io \<and> (\<exists>cs. handle_packets opts rs lvl cs dev = Some (dev', evs)
    \<and> map payload cs = map (take (unat snap)) ds)"
proof -
  let ?d = "socket_dispatch_inet snap junk clock (queued ds @ Recv [] # rest)"
  have "0 < length (recv_buffer snap junk)" using assms(2) by (simp add: recv_buffer_length word_gt_0 unat_gt_0)
  from inet_loop_queued [OF assms(1) this, of 0 10 clock "Recv [] # rest"] assms(3) obtain cs where
    cs: "map payload cs = map (take (unat snap)) ds" and d: "?d 10 = (cs, - 1)"
    by (auto simp: socket_dispatch_inet_def recv_buffer_length loop_goes_on_def)
  have "handle_packets opts rs lvl cs dev = Some (dev', evs)"
    using inet.watcher_run [OF assms(6)] assms(4) d by simp
  moreover have "act = Deregister_io"
    using assms(4,5,6) d by (auto simp: packet_watcher_cb_def bind_Some_conv)
  ultimately show ?thesis using cs by blast
qed

theorem empty_datagram_stops_witness:
  "packet_watcher_cb demo_options [] 0
     (\<lambda>n. socket_dispatch_inet 80 (\<lambda>_. 0) (\<lambda>_. \<lparr>tv_sec = 0, tv_usec = 0\<rparr>) (queued [] @ Recv [] # []) (int n))
     [EV_READ] (zero_device\<lparr>device_type := TYPE_SOCKET_INET\<rparr>)
   = Some (zero_device\<lparr>device_type := TYPE_SOCKET_INET\<rparr>, [], Deregister_io)"
proof -
  let ?dev = "zero_device\<lparr>device_type := TYPE_SOCKET_INET\<rparr>"
  let ?run = "packet_watcher_cb demo_options [] 0
     (\<lambda>n. socket_dispatch_inet 80 (\<lambda>_. 0) (\<lambda>_. \<lparr>tv_sec = 0, tv_usec = 0\<rparr>) (queued [] @ Recv [] # []) (int n)) [EV_READ] ?dev"
  have "\<exists>act. ?run = Some (?dev, [], act)"
    by (simp add: packet_watcher_cb_def queued_def socket_dispatch_inet_def loop_goes_on_def)
  with empty_datagram_stops [of "[]" 80 ?dev "[EV_READ]" demo_options "[]" 0 "\<lambda>_. 0" "\<lambda>_. \<lparr>tv_sec = 0, tv_usec = 0\<rparr>" "[]"]
  show ?thesis by auto
qed

end
