(* ===== verification/Number_Text.thy ===== *)
theory Number_Text
  imports Number_Parsing
begin

text \<open>Printed numbers inside a text: what the parsers of the C library find of them.\<close>

definition ends_number :: "string \<Rightarrow> bool" where
  "ends_number s \<longleftrightarrow> (s = [] \<or> \<not> c_isdigit (hd s))"

lemma ends_number_simps [simp]: "ends_number []" "ends_number (CHR '' '' # s)" "ends_number (CHR 0x0A # s)" "ends_number (CHR ''.'' # s)"
  by (simp_all add: ends_number_def c_isdigit_def)

lemma take_digits:
  assumes "ends_number rs"
  shows "takeWhile c_isdigit (dec_string n @ rs) = dec_string n" "dropWhile c_isdigit (dec_string n @ rs) = rs"
proof -
  have "takeWhile c_isdigit rs = []" "dropWhile c_isdigit rs = rs" using assms by (cases rs; simp add: ends_number_def)+
  then show "takeWhile c_isdigit (dec_string n @ rs) = dec_string n" "dropWhile c_isdigit (dec_string n @ rs) = rs"
    using dec_string_digits by (simp_all add: takeWhile_append2 dropWhile_append2)
qed

lemma blank_space [simp]: "c_isspace CHR '' ''" "c_isspace CHR 0x0A"
  by (simp_all add: c_isspace_def)

end
