(* ===== verification/Stats.thy ===== *)
theory Stats
  imports Prelude
begin

text \<open>
  The data of the probe statistics (\<^verbatim>\<open>src/stats.c\<close>): CPU shares between two executions, memory, and
  the size of the process. The page size and the rounding to \<^verbatim>\<open>float\<close> are arguments; the readers of
  \<^verbatim>\<open>/proc\<close> and \<^verbatim>\<open>get_probe_stats\<close> itself are in theory \<open>Proc_Files\<close>.
\<close>

record proc_stat_cpu =
  c_user :: u64
  c_nice :: u64
  c_system :: u64
  c_idle :: u64

record proc_pid_stat =
  pp_utime :: u64
  pp_stime :: u64
  pp_vsize :: u64
  pp_rss :: u64

record probe_stat =
  observationTimeMilliseconds :: u64
  systemCpuIdle :: rat
  systemMemFree :: u64
  systemMemTotal :: u64
  processCpuUser :: rat
  processCpuSys :: rat
  processMemVzs :: u64
  processMemRss :: u64

text \<open>The static variables of \<^verbatim>\<open>get_probe_stats\<close>.\<close>

record stats_state =
  first_execution :: bool
  st_process :: proc_pid_stat
  st_cpu :: proc_stat_cpu
  cpu_total :: u64

definition init_stats :: stats_state where
  "init_stats = \<lparr>first_execution = True, st_process = \<lparr>pp_utime = 0, pp_stime = 0, pp_vsize = 0, pp_rss = 0\<rparr>,
     st_cpu = \<lparr>c_user = 0, c_nice = 0, c_system = 0, c_idle = 0\<rparr>, cpu_total = 0\<rparr>"

definition sum_cpu :: "proc_stat_cpu \<Rightarrow> u64" where
  "sum_cpu c = c_user c + c_nice c + c_system c + c_idle c"

definition missing_stats :: "probe_stat \<Rightarrow> probe_stat" where
  "missing_stats stat = stat\<lparr>systemCpuIdle := - 1, processCpuSys := - 1, processCpuUser := - 1,
     systemMemFree := - 1, processMemVzs := - 1, processMemRss := - 1\<rparr>"

text \<open>The reads of the process and of the CPU, after the previous values were saved.\<close>

definition cpu_shares :: "(rat \<Rightarrow> rat) \<Rightarrow> u64 \<Rightarrow> stats_state \<Rightarrow> proc_pid_stat \<Rightarrow> proc_stat_cpu \<Rightarrow> (u64 \<times> u64) \<Rightarrow>
    probe_stat \<Rightarrow> int \<times> probe_stat" where
  "cpu_shares flo pagesize prev p cpu mem stat =
     (let cpu_total_delta = flo (of_nat (unat (sum_cpu cpu - cpu_total prev)));
          share = (\<lambda>d :: u64. flo (flo (of_nat (unat d)) / cpu_total_delta))
      in if cpu_total_delta \<le> 0 then (- 1, stat)
         else (0, stat\<lparr>systemCpuIdle := share (c_idle cpu - c_idle (st_cpu prev)),
                       processCpuSys := share (pp_stime p - pp_stime (st_process prev)),
                       processCpuUser := share (pp_utime p - pp_utime (st_process prev)),
                       systemMemFree := snd mem, systemMemTotal := fst mem,
                       processMemVzs := pp_vsize p, processMemRss := pp_rss p * pagesize\<rparr>))"

section \<open>Lemmas\<close>

text \<open>Counters that do not overflow and do not run backwards.\<close>

definition cpu_le :: "proc_stat_cpu \<Rightarrow> proc_stat_cpu \<Rightarrow> bool" where
  "cpu_le a b \<longleftrightarrow> c_user a \<le> c_user b \<and> c_nice a \<le> c_nice b \<and> c_system a \<le> c_system b \<and> c_idle a \<le> c_idle b
     \<and> unat (c_user b) + unat (c_nice b) + unat (c_system b) + unat (c_idle b) < 2 ^ 64"

lemma unat_sum_cpu:
  assumes "unat (c_user c) + unat (c_nice c) + unat (c_system c) + unat (c_idle c) < 2 ^ 64"
  shows "unat (sum_cpu c) = unat (c_user c) + unat (c_nice c) + unat (c_system c) + unat (c_idle c)"
proof -
  have "unat (c_user c + c_nice c) = unat (c_user c) + unat (c_nice c)"
    using assms by (intro unat_add_lem [THEN iffD1]) simp
  moreover have "unat (c_user c + c_nice c + c_system c) = unat (c_user c + c_nice c) + unat (c_system c)"
    using assms calculation by (intro unat_add_lem [THEN iffD1]) simp
  moreover have "unat (sum_cpu c) = unat (c_user c + c_nice c + c_system c) + unat (c_idle c)"
    using assms calculation unfolding sum_cpu_def by (intro unat_add_lem [THEN iffD1]) simp
  ultimately show ?thesis by simp
qed

text \<open>No share of a part exceeds the whole.\<close>

lemma idle_delta_le:
  assumes "cpu_le a b"
  shows "unat (c_idle b - c_idle a) \<le> unat (sum_cpu b - sum_cpu a)"
proof -
  have le: "unat (c_user a) \<le> unat (c_user b)" "unat (c_nice a) \<le> unat (c_nice b)"
    "unat (c_system a) \<le> unat (c_system b)" "unat (c_idle a) \<le> unat (c_idle b)"
    using assms by (simp_all add: cpu_le_def word_le_nat_alt)
  have b: "unat (c_user b) + unat (c_nice b) + unat (c_system b) + unat (c_idle b) < 2 ^ 64"
    using assms by (simp add: cpu_le_def)
  then have a: "unat (c_user a) + unat (c_nice a) + unat (c_system a) + unat (c_idle a) < 2 ^ 64"
    using le by linarith
  note s = unat_sum_cpu [OF a] unat_sum_cpu [OF b]
  have "sum_cpu a \<le> sum_cpu b" using s le by (simp add: word_le_nat_alt)
  then have "unat (sum_cpu b - sum_cpu a) = unat (sum_cpu b) - unat (sum_cpu a)" by (rule unat_minus_le)
  moreover have "unat (c_idle b - c_idle a) = unat (c_idle b) - unat (c_idle a)"
    using assms by (intro unat_minus_le) (simp add: cpu_le_def)
  ultimately show ?thesis using s le by simp
qed

text \<open>What the theorems assume of rounding to \<^verbatim>\<open>float\<close>: it is monotone and keeps 0 and 1.\<close>

definition float_ok :: "(rat \<Rightarrow> rat) \<Rightarrow> bool" where
  "float_ok flo \<longleftrightarrow> mono flo \<and> flo 0 = 0 \<and> flo 1 = 1"

lemma share_bounds:
  assumes fl: "float_ok flo" and "m \<le> n" and "0 < flo (of_nat n)"
  shows "0 \<le> flo (flo (of_nat m) / flo (of_nat n)) \<and> flo (flo (of_nat m) / flo (of_nat n)) \<le> 1"
proof -
  have mono: "flo x \<le> flo y" if "x \<le> y" for x y using fl that by (auto simp: float_ok_def dest: monoD)
  have fx: "flo 0 = 0" "flo 1 = 1" using fl by (simp_all add: float_ok_def)
  have "0 \<le> flo (of_nat m)" using mono [of 0 "of_nat m"] by (simp add: fx)
  moreover have "flo (of_nat m) \<le> flo (of_nat n)" using assms(2) by (intro mono) simp
  ultimately have "0 \<le> flo (of_nat m) / flo (of_nat n)" "flo (of_nat m) / flo (of_nat n) \<le> 1"
    using assms(3) by (simp_all add: divide_le_eq)
  from mono [OF this(1)] mono [OF this(2)] show ?thesis by (simp add: fx)
qed

lemma idle_share_bounds:
  assumes fl: "float_ok flo" and "cpu_shares flo pagesize prev p cpu mem stat = (0, stat')"
    and "cpu_le (st_cpu prev) cpu" and "cpu_total prev = sum_cpu (st_cpu prev)"
  shows "0 \<le> systemCpuIdle stat' \<and> systemCpuIdle stat' \<le> 1"
proof -
  have pos: "0 < flo (of_nat (unat (sum_cpu cpu - sum_cpu (st_cpu prev))))"
    using assms(2,4) by (auto simp: cpu_shares_def Let_def not_le split: if_splits)
  have "systemCpuIdle stat' = flo (flo (of_nat (unat (c_idle cpu - c_idle (st_cpu prev))))
      / flo (of_nat (unat (sum_cpu cpu - sum_cpu (st_cpu prev)))))"
    using assms(2,4) by (auto simp: cpu_shares_def Let_def split: if_splits)
  with share_bounds [OF fl idle_delta_le [OF assms(3)] pos] show ?thesis by simp
qed

section \<open>Values for examples\<close>

definition demo_cpu :: "u64 \<Rightarrow> proc_stat_cpu" where
  "demo_cpu n = \<lparr>c_user = n, c_nice = 0, c_system = 0, c_idle = n\<rparr>"

definition demo_proc :: proc_pid_stat where
  "demo_proc = \<lparr>pp_utime = 0, pp_stime = 0, pp_vsize = 0, pp_rss = 0\<rparr>"

definition demo_stats :: stats_state where
  "demo_stats = \<lparr>first_execution = False, st_process = demo_proc, st_cpu = demo_cpu 1, cpu_total = 2\<rparr>"

definition demo_stat :: probe_stat where
  "demo_stat = \<lparr>observationTimeMilliseconds = 0, systemCpuIdle = 0, systemMemFree = 0, systemMemTotal = 0,
     processCpuUser = 0, processCpuSys = 0, processMemVzs = 0, processMemRss = 0\<rparr>"

end
