(* ===== verification/Proc_Files.thy ===== *)
theory Proc_Files
  imports Number_Text Stats
begin

text \<open>
  The readers of \<^verbatim>\<open>/proc\<close> in \<^verbatim>\<open>src/stats.c\<close>. Each opens a file and hands it to \<^verbatim>\<open>fscanf\<close> with a
  constant format. A file is its contents, or \<open>None\<close> when it cannot be opened; \<^verbatim>\<open>fscanf\<close> is modelled
  as the C library documents it, for the directives that the formats use.
\<close>

section \<open>\<^verbatim>\<open>fscanf\<close>\<close>

datatype conversion = Conv_d | Conv_u | Conv_ld | Conv_lu | Conv_s | Conv_c

datatype directive = White | Exactly char | Convert conversion

datatype scanned = Number int | Token string | Letter char

text \<open>The conversion behind a percent sign, and the format behind it.\<close>

definition conv_spec :: "string \<Rightarrow> conversion \<times> string" where
  "conv_spec s =
     (if take 3 s = ''llu'' then (Conv_lu, drop 3 s)
      else if take 2 s = ''lu'' then (Conv_lu, drop 2 s)
      else if take 2 s = ''ld'' then (Conv_ld, drop 2 s)
      else if take 1 s = ''d'' then (Conv_d, drop 1 s)
      else if take 1 s = ''u'' then (Conv_u, drop 1 s)
      else if take 1 s = ''s'' then (Conv_s, drop 1 s)
      else (Conv_c, drop 1 s))"

function directives :: "string \<Rightarrow> directive list" where
  "directives [] = []"
| "directives (c # s) =
     (if c_isspace c then White # directives (dropWhile c_isspace s)
      else if c = CHR ''%'' then Convert (fst (conv_spec s)) # directives (snd (conv_spec s))
      else Exactly c # directives s)"
  by pat_completeness auto
termination
  by (relation "measure length")
    (auto simp: conv_spec_def le_imp_less_Suc length_dropWhile_le)

text \<open>
  A number in the range of its type: \<^verbatim>\<open>strtol\<close> and \<^verbatim>\<open>strtoul\<close> saturate at 64 bits, the assignment to
  \<^verbatim>\<open>int\<close> and \<^verbatim>\<open>unsigned\<close> truncates.
\<close>

definition clamp_ulong :: "bool \<Rightarrow> nat \<Rightarrow> int" where
  "clamp_ulong neg v = (if 2 ^ 64 \<le> v then 2 ^ 64 - 1 else if neg then (- int v) mod 2 ^ 64 else int v)"

fun in_type :: "conversion \<Rightarrow> bool \<Rightarrow> nat \<Rightarrow> int" where
  "in_type Conv_d neg v = wrap_int (clamp_long (if neg then - int v else int v))"
| "in_type Conv_ld neg v = clamp_long (if neg then - int v else int v)"
| "in_type Conv_u neg v = clamp_ulong neg v mod 2 ^ 32"
| "in_type _ neg v = clamp_ulong neg v"

text \<open>The conversion of an input that does not start with a blank, and what is left of it.\<close>

fun convert :: "conversion \<Rightarrow> string \<Rightarrow> (scanned \<times> string) option" where
  "convert Conv_s s = Some (Token (takeWhile (\<lambda>c. \<not> c_isspace c) s), dropWhile (\<lambda>c. \<not> c_isspace c) s)"
| "convert Conv_c s = Some (Letter (hd s), tl s)"
| "convert k s =
     (let (neg, u) = split_sign s; ds = takeWhile c_isdigit u
      in if ds = [] then None else Some (Number (in_type k neg (dec_value ds)), dropWhile c_isdigit u))"

text \<open>The values that are assigned, and whether the end of the input stopped the scan.\<close>

fun scan :: "directive list \<Rightarrow> string \<Rightarrow> scanned list \<times> bool" where
  "scan [] s = ([], False)"
| "scan (White # ds) s = scan ds (dropWhile c_isspace s)"
| "scan (Exactly c # ds) s =
     (case s of [] \<Rightarrow> ([], True) | x # r \<Rightarrow> if x = c then scan ds r else ([], False))"
| "scan (Convert k # ds) s =
     (let s = (if k = Conv_c then s else dropWhile c_isspace s)
      in if s = [] then ([], True)
         else (case convert k s of
                 None \<Rightarrow> ([], False)
               | Some (v, r) \<Rightarrow> (let (vs, e) = scan ds r in (v # vs, e))))"

text \<open>\<^verbatim>\<open>EOF\<close> is returned when the input ends before the first conversion; otherwise the number of
  conversions.\<close>

definition fscanf :: "string \<Rightarrow> string \<Rightarrow> scanned list option" where
  "fscanf s format = (let (vs, e) = scan (directives format) s in if e \<and> vs = [] then None else Some vs)"

section \<open>The readers\<close>

abbreviation NL :: string where "NL \<equiv> [CHR 0x0A]"
abbreviation TAB :: string where "TAB \<equiv> [CHR 0x09]"

definition PROC_PID_STAT_FORMAT :: string where
  "PROC_PID_STAT_FORMAT = ''%d %s %c %d %d %d %d %d %u %lu '' @ TAB @ TAB
     @ ''%lu %lu %lu %lu %lu %ld %ld %ld %ld %d %d %llu %lu %ld %lu %lu %lu %lu %lu '' @ TAB @ TAB
     @ ''%lu %lu %lu %lu %lu %lu %lu %lu %d %d %u %u %llu %lu %ld'' @ NL"

definition PROC_STAT_CPU_FORMAT :: string where
  "PROC_STAT_CPU_FORMAT = ''cpu  %llu %llu %llu %llu %llu %llu %llu %llu %llu'' @ NL"

definition PROC_MEMINFO_FORMAT :: string where
  "PROC_MEMINFO_FORMAT = ''MemTotal: %lu kB'' @ NL @ ''MemFree: %lu kB''"

definition MAX_COMM_LEN :: nat where "MAX_COMM_LEN = 16"

text \<open>Argument \<open>i\<close> of \<^verbatim>\<open>fscanf\<close> after the call: it keeps its old value when the scan stopped before.\<close>

definition got :: "scanned list \<Rightarrow> nat \<Rightarrow> u64 \<Rightarrow> u64" where
  "got vs i old = (if i < length vs then (case vs ! i of Number n \<Rightarrow> word_of_int n | _ \<Rightarrow> old) else old)"

text \<open>\<open>None\<close> is the result -1.\<close>

definition get_mem_usage :: "string option \<Rightarrow> u64 \<times> u64 \<Rightarrow> (u64 \<times> u64) option" where
  "get_mem_usage fp mem =
     (case fp of None \<Rightarrow> None
      | Some s \<Rightarrow> (case fscanf s PROC_MEMINFO_FORMAT of None \<Rightarrow> None
                   | Some vs \<Rightarrow> Some (got vs 0 (fst mem), got vs 1 (snd mem))))"

text \<open>The name is stored with its NUL in \<^verbatim>\<open>comm\<close>; the outer \<open>None\<close> is the write behind that array.\<close>

definition comm_fits :: "scanned list \<Rightarrow> bool" where
  "comm_fits vs \<longleftrightarrow> (\<forall>v \<in> set vs. case v of Token t \<Rightarrow> length t < MAX_COMM_LEN | _ \<Rightarrow> True)"

definition get_proc_pid_stat :: "string option \<Rightarrow> proc_pid_stat \<Rightarrow> proc_pid_stat option option" where
  "get_proc_pid_stat fp process =
     (case fp of None \<Rightarrow> Some None
      | Some s \<Rightarrow>
          (case fscanf s PROC_PID_STAT_FORMAT of None \<Rightarrow> Some None
           | Some vs \<Rightarrow>
               if \<not> comm_fits vs then None
               else Some (Some \<lparr>pp_utime = got vs 13 (pp_utime process), pp_stime = got vs 14 (pp_stime process),
                                pp_vsize = got vs 22 (pp_vsize process), pp_rss = got vs 23 (pp_rss process)\<rparr>)))"

definition get_proc_stat :: "string option \<Rightarrow> proc_stat_cpu \<Rightarrow> proc_stat_cpu option" where
  "get_proc_stat fp cpu =
     (case fp of None \<Rightarrow> None
      | Some s \<Rightarrow> (case fscanf s PROC_STAT_CPU_FORMAT of None \<Rightarrow> None
                   | Some vs \<Rightarrow> Some \<lparr>c_user = got vs 0 (c_user cpu), c_nice = got vs 1 (c_nice cpu),
                                    c_system = got vs 2 (c_system cpu), c_idle = got vs 3 (c_idle cpu)\<rparr>))"

section \<open>The statistics\<close>

text \<open>
  The files as they are at each read of one call of \<^verbatim>\<open>get_probe_stats\<close>; the first two reads happen in the
  first execution. A reader writes into the static variables, so a scan that stops early leaves
  what the execution before has read.
\<close>

record proc_files =
  f_stat0 :: "string option"
  f_pid0 :: "string option"
  f_meminfo :: "string option"
  f_pid :: "string option"
  f_stat :: "string option"

definition first_stats :: "proc_files \<Rightarrow> stats_state \<Rightarrow> (bool \<times> stats_state) option" where
  "first_stats fs st =
     (if first_execution st then
        (case get_proc_stat (f_stat0 fs) (st_cpu st) of
           None \<Rightarrow> Some (False, st)
         | Some cpu \<Rightarrow> do {
             pid \<leftarrow> get_proc_pid_stat (f_pid0 fs) (st_process st);
             Some (case pid of
                 None \<Rightarrow> (False, st\<lparr>st_cpu := cpu\<rparr>)
               | Some p \<Rightarrow>
                   (let cpu = cpu\<lparr>c_idle := c_idle cpu - 1\<rparr>
                    in (True, st\<lparr>st_cpu := cpu, st_process := p, cpu_total := sum_cpu cpu, first_execution := False\<rparr>))) })
      else Some (True, st))"

text \<open>\<open>None\<close> is the write behind the array of the process name; otherwise the result code, the
  structure and the static variables.\<close>

definition get_probe_stats :: "(rat \<Rightarrow> rat) \<Rightarrow> u64 \<Rightarrow> proc_files \<Rightarrow> stats_state \<Rightarrow> probe_stat \<Rightarrow>
    (int \<times> probe_stat \<times> stats_state) option" where
  "get_probe_stats flo pagesize fs st stat0 = do {
     let stat = missing_stats stat0;
     (ok, st) \<leftarrow> first_stats fs st;
     if \<not> ok then Some (- 1, stat, st)
     else (case get_mem_usage (f_meminfo fs) (0, 0) of
         None \<Rightarrow> Some (- 1, stat, st)
       | Some mem \<Rightarrow> do {
           pid \<leftarrow> get_proc_pid_stat (f_pid fs) (st_process st);
           Some (case pid of
               None \<Rightarrow> (- 1, stat, st)
             | Some p \<Rightarrow>
                 (case get_proc_stat (f_stat fs) (st_cpu st) of
                    None \<Rightarrow> (- 1, stat, st\<lparr>st_process := p\<rparr>)
                  | Some cpu \<Rightarrow>
                      (let (code, stat) = cpu_shares flo pagesize st p cpu mem stat
                       in (code, stat, st\<lparr>st_process := p, st_cpu := cpu, cpu_total := sum_cpu cpu\<rparr>)))) }) }"

text \<open>The process name as it is scanned fits in the array for it, at both reads.\<close>

definition name_fits :: "string option \<Rightarrow> bool" where
  "name_fits fp = (case fp of None \<Rightarrow> True | Some s \<Rightarrow>
     (case fscanf s PROC_PID_STAT_FORMAT of None \<Rightarrow> True | Some vs \<Rightarrow> comm_fits vs))"

definition names_fit :: "proc_files \<Rightarrow> bool" where
  "names_fit fs \<longleftrightarrow> name_fits (f_pid0 fs) \<and> name_fits (f_pid fs)"

section \<open>Lemmas\<close>

text \<open>The formats.\<close>

abbreviation numbers :: "conversion list \<Rightarrow> directive list" where
  "numbers ks \<equiv> concat (map (\<lambda>k. [White, Convert k]) ks)"

definition pid_kinds :: "conversion list" where
  "pid_kinds = replicate 5 Conv_d @ [Conv_u] @ replicate 6 Conv_lu @ replicate 4 Conv_ld @ [Conv_d, Conv_d, Conv_lu, Conv_lu, Conv_ld]
     @ replicate 13 Conv_lu @ [Conv_d, Conv_d, Conv_u, Conv_u, Conv_lu, Conv_lu, Conv_ld]"

lemma pid_format:
  "directives PROC_PID_STAT_FORMAT = [Convert Conv_d, White, Convert Conv_s, White, Convert Conv_c] @ numbers pid_kinds @ [White]"
  by code_simp

lemma cpu_format:
  "directives PROC_STAT_CPU_FORMAT = map Exactly ''cpu'' @ numbers (replicate 9 Conv_lu) @ [White]"
  by code_simp

lemma mem_format:
  "directives PROC_MEMINFO_FORMAT = map Exactly ''MemTotal:'' @ [White, Convert Conv_lu, White] @ map Exactly ''kB'' @ [White]
     @ map Exactly ''MemFree:'' @ [White, Convert Conv_lu, White] @ map Exactly ''kB''"
  by code_simp

text \<open>Numbers that are printed and scanned.\<close>

fun holds_in :: "conversion \<Rightarrow> int \<Rightarrow> bool" where
  "holds_in Conv_d v \<longleftrightarrow> - (2 ^ 31) \<le> v \<and> v < 2 ^ 31"
| "holds_in Conv_ld v \<longleftrightarrow> - (2 ^ 63) \<le> v \<and> v < 2 ^ 63"
| "holds_in Conv_u v \<longleftrightarrow> 0 \<le> v \<and> v < 2 ^ 32"
| "holds_in Conv_lu v \<longleftrightarrow> 0 \<le> v \<and> v < 2 ^ 64"
| "holds_in _ v \<longleftrightarrow> False"

lemma split_sign_string:
  "split_sign (int_string v @ rs) = (v < 0, dec_string (nat \<bar>v\<bar>) @ rs)"
proof -
  obtain c cs where c: "dec_string (nat \<bar>v\<bar>) = c # cs" "c_isdigit c" using dec_string_Cons by blast
  then show ?thesis using digit_not_special [OF c(2)] by (auto simp: split_sign_def int_string_def)
qed

lemma int_string_Cons: "\<exists>c cs. int_string v = c # cs \<and> \<not> c_isspace c"
proof -
  obtain c cs where c: "dec_string (nat \<bar>v\<bar>) = c # cs" "c_isdigit c" using dec_string_Cons by blast
  then show ?thesis using digit_not_special [OF c(2)] by (auto simp: int_string_def c_isspace_def)
qed

lemma in_type_holds: "holds_in k v \<Longrightarrow> in_type k (v < 0) (nat \<bar>v\<bar>) = v"
  by (cases k) (auto simp: clamp_long_def clamp_ulong_def wrap_int_id)

lemma convert_int:
  assumes "holds_in k v" "ends_number rs"
  shows "convert k (int_string v @ rs) = Some (Number v, rs)"
proof -
  have "k = Conv_d \<or> k = Conv_u \<or> k = Conv_ld \<or> k = Conv_lu" using assms(1) by (cases k) auto
  moreover have "convert k (int_string v @ rs) = Some (Number (in_type k (v < 0) (nat \<bar>v\<bar>)), rs)" if "k \<noteq> Conv_s" "k \<noteq> Conv_c"
    using that by (cases k) (simp_all add: split_sign_string take_digits [OF assms(2)] Let_def)
  ultimately show ?thesis using in_type_holds [OF assms(1)] by auto
qed

lemma scan_int:
  assumes "holds_in k v" "ends_number rs"
  shows "scan (Convert k # ds) (int_string v @ rs) = (Number v # fst (scan ds rs), snd (scan ds rs))"
proof -
  obtain c cs where c: "int_string v = c # cs" "\<not> c_isspace c" using int_string_Cons by blast
  then have "dropWhile c_isspace (int_string v @ rs) = int_string v @ rs" "int_string v @ rs \<noteq> []" by simp_all
  with convert_int [OF assms] assms(1) show ?thesis by (cases "scan ds rs") (simp del: convert.simps)
qed

lemma scan_blank_int:
  assumes "holds_in k v" "ends_number rs"
  shows "scan (White # Convert k # ds) (CHR '' '' # int_string v @ rs) = (Number v # fst (scan ds rs), snd (scan ds rs))"
proof -
  obtain c cs where c: "int_string v = c # cs" "\<not> c_isspace c" using int_string_Cons by blast
  have "c_isspace CHR '' ''" by (simp add: c_isspace_def)
  with c have "scan (White # Convert k # ds) (CHR '' '' # int_string v @ rs) = scan (Convert k # ds) (int_string v @ rs)" by simp
  with scan_int [OF assms] show ?thesis by simp
qed

text \<open>Numbers, each behind a blank.\<close>

abbreviation blank_ints :: "int list \<Rightarrow> string" where
  "blank_ints vs \<equiv> concat (map (\<lambda>v. CHR '' '' # int_string v) vs)"

lemma ends_number_ints: "ends_number rs \<Longrightarrow> ends_number (blank_ints vs @ rs)"
  by (cases vs) simp_all

lemma scan_numbers:
  "list_all2 holds_in ks vs \<Longrightarrow> ends_number rs \<Longrightarrow>
    scan (numbers ks @ ds) (blank_ints vs @ rs) = (map Number vs @ fst (scan ds rs), snd (scan ds rs))"
proof (induction rule: list_all2_induct)
  case (Cons k ks v vs)
  have "scan (numbers (k # ks) @ ds) (blank_ints (v # vs) @ rs)
      = scan (White # Convert k # (numbers ks @ ds)) (CHR '' '' # int_string v @ (blank_ints vs @ rs))" by simp
  also have "\<dots> = (Number v # fst (scan (numbers ks @ ds) (blank_ints vs @ rs)), snd (scan (numbers ks @ ds) (blank_ints vs @ rs)))"
    by (rule scan_blank_int) (use Cons ends_number_ints in simp_all)
  finally show ?case using Cons by simp
qed simp

lemma scan_exactly: "scan (map Exactly t @ ds) (t @ s) = scan ds s"
  by (induction t) simp_all

lemma scan_white_end [simp]: "snd (scan [White] s) = False" "fst (scan [White] s) = []"
  by simp_all

section \<open>The files of the kernel\<close>

definition cpu_line :: "int list \<Rightarrow> string \<Rightarrow> string" where
  "cpu_line vs rest = ''cpu '' @ blank_ints vs @ NL @ rest"

definition pid_line :: "int \<Rightarrow> string \<Rightarrow> char \<Rightarrow> int list \<Rightarrow> string \<Rightarrow> string" where
  "pid_line pid comm st vs rest = int_string pid @ '' '' @ comm @ '' '' @ [st] @ blank_ints vs @ rest"

definition mem_lines :: "int \<Rightarrow> nat \<Rightarrow> int \<Rightarrow> nat \<Rightarrow> string \<Rightarrow> string" where
  "mem_lines total_kb i free_kb j rest = ''MemTotal:'' @ replicate i CHR '' '' @ int_string total_kb @ '' kB'' @ NL
     @ ''MemFree:'' @ replicate j CHR '' '' @ int_string free_kb @ '' kB'' @ NL @ rest"

text \<open>Enough numbers of the right types for the format, and any more behind them.\<close>

definition fills :: "conversion list \<Rightarrow> int list \<Rightarrow> bool" where
  "fills ks vs \<longleftrightarrow> length ks \<le> length vs \<and> list_all2 holds_in ks (take (length ks) vs)"

lemma scan_filled:
  assumes "fills ks vs" "ends_number rs"
  shows "scan (numbers ks @ [White]) (blank_ints vs @ rs) = (map Number (take (length ks) vs), False)"
proof -
  have "blank_ints vs @ rs = blank_ints (take (length ks) vs) @ (blank_ints (drop (length ks) vs) @ rs)"
    by (metis append.assoc append_take_drop_id concat_append map_append)
  with scan_numbers [of ks "take (length ks) vs" "blank_ints (drop (length ks) vs) @ rs" "[White]"] assms
  show ?thesis by (simp add: fills_def ends_number_ints)
qed

lemma get_proc_stat_line:
  assumes "fills (replicate 9 Conv_lu) vs"
  shows "get_proc_stat (Some (cpu_line vs rs)) cpu = Some \<lparr>c_user = word_of_int (vs ! 0), c_nice = word_of_int (vs ! 1),
    c_system = word_of_int (vs ! 2), c_idle = word_of_int (vs ! 3)\<rparr>"
proof -
  obtain v ws where vs: "vs = v # ws" using assms by (cases vs) (auto simp: fills_def)
  have "scan (numbers (replicate 9 Conv_lu) @ [White]) (CHR '' '' # blank_ints vs @ NL @ rs)
      = scan (numbers (replicate 9 Conv_lu) @ [White]) (blank_ints vs @ NL @ rs)"
    by (simp add: numeral_eq_Suc vs c_isspace_def)
  also have "\<dots> = (map Number (take 9 vs), False)" using scan_filled [OF assms] by simp
  finally have "fscanf (cpu_line vs rs) PROC_STAT_CPU_FORMAT = Some (map Number (take 9 vs))"
    unfolding fscanf_def cpu_format using scan_exactly [of "''cpu''"] by (simp add: cpu_line_def)
  moreover have "9 \<le> length vs" using assms by (simp add: fills_def)
  ultimately show ?thesis by (simp add: get_proc_stat_def got_def)
qed

lemma get_mem_usage_lines:
  assumes "holds_in Conv_lu a" "holds_in Conv_lu b"
  shows "get_mem_usage (Some (mem_lines a i b j rs)) mem = Some (word_of_int a, word_of_int b)"
proof -
  have d: "scan (White # Convert Conv_lu # ds) (replicate n CHR '' '' @ int_string v @ CHR '' '' # r)
      = (Number v # fst (scan ds (CHR '' '' # r)), snd (scan ds (CHR '' '' # r)))" if "holds_in Conv_lu v" for n v r ds
  proof -
    obtain c cs where c: "int_string v = c # cs" "\<not> c_isspace c" using int_string_Cons by blast
    have "dropWhile c_isspace (replicate n CHR '' '' @ int_string v @ CHR '' '' # r) = int_string v @ CHR '' '' # r"
      using c by (induction n) simp_all
    then have "scan (White # Convert Conv_lu # ds) (replicate n CHR '' '' @ int_string v @ CHR '' '' # r)
        = scan (Convert Conv_lu # ds) (int_string v @ CHR '' '' # r)" by (simp only: scan.simps)
    with scan_int [OF that, of "CHR '' '' # r" ds] show ?thesis by simp
  qed
  have "fscanf (mem_lines a i b j rs) PROC_MEMINFO_FORMAT = Some [Number a, Number b]"
    unfolding fscanf_def mem_format mem_lines_def append.assoc scan_exactly
    using d [OF assms(1), of _ i "''kB'' @ NL @ ''MemFree:'' @ replicate j CHR '' '' @ int_string b @ '' kB'' @ NL @ rs"]
      d [OF assms(2), of _ j "''kB'' @ NL @ rs"]
    by (simp add: c_isspace_def Let_def)
  then show ?thesis by (simp add: get_mem_usage_def got_def)
qed

text \<open>What is scanned of the name: up to the first blank.\<close>

abbreviation word_of_name :: "string \<Rightarrow> string" where
  "word_of_name comm \<equiv> takeWhile (\<lambda>c. \<not> c_isspace c) comm"

lemma scan_name:
  assumes "holds_in Conv_d pid" "name \<noteq> []" "list_all (\<lambda>c. \<not> c_isspace c) name" "\<not> c_isspace st"
  shows "scan ([Convert Conv_d, White, Convert Conv_s, White, Convert Conv_c] @ ds) (int_string pid @ '' '' @ name @ '' '' @ st # rs)
    = (Number pid # Token name # Letter st # fst (scan ds rs), snd (scan ds rs))"
proof -
  obtain c cs where n: "name = c # cs" "\<not> c_isspace c" using assms(2,3) by (cases name) auto
  have t: "takeWhile (\<lambda>c. \<not> c_isspace c) (name @ CHR '' '' # st # rs) = name"
    "dropWhile (\<lambda>c. \<not> c_isspace c) (name @ CHR '' '' # st # rs) = CHR '' '' # st # rs"
    using assms(3) by (simp_all add: list_all_iff takeWhile_append2 dropWhile_append2)
  have "scan ([Convert Conv_s, White, Convert Conv_c] @ ds) (name @ CHR '' '' # st # rs)
      = (Token name # Letter st # fst (scan ds rs), snd (scan ds rs))"
    using n t assms(4) by (cases "scan ds rs") simp
  moreover have "dropWhile c_isspace (name @ CHR '' '' # st # rs) = name @ CHR '' '' # st # rs" using n by simp
  ultimately show ?thesis
    using scan_int [OF assms(1), of "CHR '' '' # name @ CHR '' '' # st # rs" "White # [Convert Conv_s, White, Convert Conv_c] @ ds"]
    by simp
qed

lemma get_proc_pid_stat_line:
  assumes "holds_in Conv_d pid" "comm \<noteq> []" "list_all (\<lambda>c. \<not> c_isspace c) comm" "\<not> c_isspace st" "fills pid_kinds vs" "ends_number rs"
  shows "get_proc_pid_stat (Some (pid_line pid comm st vs rs)) p =
    (if length comm < 16 then Some (Some \<lparr>pp_utime = word_of_int (vs ! 10), pp_stime = word_of_int (vs ! 11),
       pp_vsize = word_of_int (vs ! 19), pp_rss = word_of_int (vs ! 20)\<rparr>) else None)"
proof -
  have "fscanf (pid_line pid comm st vs rs) PROC_PID_STAT_FORMAT
      = Some (Number pid # Token comm # Letter st # map Number (take (length pid_kinds) vs))"
    unfolding fscanf_def pid_format pid_line_def
    using scan_name [OF assms(1-4), of "numbers pid_kinds @ [White]" "blank_ints vs @ rs"] scan_filled [OF assms(5,6)] by simp
  moreover have "comm_fits (Number pid # Token comm # Letter st # map Number xs) \<longleftrightarrow> length comm < 16" for xs
    by (auto simp: comm_fits_def MAX_COMM_LEN_def)
  moreover have "length pid_kinds = 41" by (simp add: pid_kinds_def)
  moreover have "41 \<le> length vs" using assms(5) by (simp add: fills_def pid_kinds_def)
  ultimately show ?thesis by (simp add: get_proc_pid_stat_def got_def)
qed

text \<open>Exactly a name that does not fit makes a reader fault, and the statistics with it.\<close>

lemma name_fits_read: "name_fits fp \<longleftrightarrow> get_proc_pid_stat fp p \<noteq> None"
  by (auto simp: name_fits_def get_proc_pid_stat_def split: option.splits)

lemma printed_name_fits:
  assumes "holds_in Conv_d pid" "comm \<noteq> []" "list_all (\<lambda>c. \<not> c_isspace c) comm" "\<not> c_isspace st" "fills pid_kinds vs" "ends_number rs"
  shows "name_fits (Some (pid_line pid comm st vs rs)) \<longleftrightarrow> length comm < 16"
  using get_proc_pid_stat_line [OF assms, of p] name_fits_read [of "Some (pid_line pid comm st vs rs)" p] by (auto split: if_splits)

lemma get_probe_stats_total:
  assumes "names_fit fs" shows "\<exists>c s st'. get_probe_stats flo pagesize fs st stat = Some (c, s, st')"
proof -
  have r: "get_proc_pid_stat (f_pid0 fs) q \<noteq> None" "get_proc_pid_stat (f_pid fs) q \<noteq> None" for q
    using assms name_fits_read unfolding names_fit_def by blast+
  obtain x where "get_proc_pid_stat (f_pid0 fs) (st_process st) = Some x" using r(1) by blast
  then have "first_stats fs st \<noteq> None" by (auto simp: first_stats_def split: option.split)
  then obtain ok st1 where f: "first_stats fs st = Some (ok, st1)" by auto
  obtain y where "get_proc_pid_stat (f_pid fs) (st_process st1) = Some y" using r(2) by blast
  with f have "get_probe_stats flo pagesize fs st stat \<noteq> None"
    by (auto simp: get_probe_stats_def Let_def case_prod_beta split: option.split)
  then show ?thesis by auto
qed

text \<open>A name with a blank: the state is taken from the name, and the first number fails.\<close>

lemma scan_name_blank:
  assumes "holds_in Conv_d pid" "name \<noteq> []" "list_all (\<lambda>c. \<not> c_isspace c) name" "\<not> c_isspace x"
    and "y \<noteq> CHR ''-''" "y \<noteq> CHR ''+''" "\<not> c_isdigit y" "\<not> c_isspace y"
  shows "fscanf (int_string pid @ '' '' @ name @ '' '' @ x # y # rs) PROC_PID_STAT_FORMAT = Some [Number pid, Token name, Letter x]"
proof -
  have k: "numbers pid_kinds @ [White] = White # Convert Conv_d # numbers (tl pid_kinds) @ [White]"
    by (simp add: pid_kinds_def numeral_eq_Suc)
  have "scan (numbers pid_kinds @ [White]) (y # rs) = ([], False)"
    using assms(5-8) by (simp add: k split_sign_def)
  with scan_name [OF assms(1-4), of "numbers pid_kinds @ [White]" "y # rs"]
  show ?thesis unfolding fscanf_def pid_format by simp
qed

section \<open>Properties\<close>

text \<open>C24: The readers read back what the kernel prints: the CPU line, the line of the process and the
  lines of the memory give the numbers that are in them, whatever the structures held before and
  whatever follows; the name of the process must have no blank and with its parentheses at most
  15 characters.\<close>

theorem proc_files_read_back:
  assumes "fills (replicate 9 Conv_lu) cs" "fills pid_kinds ps" "holds_in Conv_lu a" "holds_in Conv_lu b"
    and "holds_in Conv_d pid" "comm \<noteq> []" "list_all (\<lambda>c. \<not> c_isspace c) comm" "length comm < 16" "\<not> c_isspace st" "ends_number rp"
  shows "get_proc_stat (Some (cpu_line cs rc)) cpu = Some \<lparr>c_user = word_of_int (cs ! 0), c_nice = word_of_int (cs ! 1),
      c_system = word_of_int (cs ! 2), c_idle = word_of_int (cs ! 3)\<rparr>
    \<and> get_proc_pid_stat (Some (pid_line pid comm st ps rp)) p = Some (Some \<lparr>pp_utime = word_of_int (ps ! 10),
      pp_stime = word_of_int (ps ! 11), pp_vsize = word_of_int (ps ! 19), pp_rss = word_of_int (ps ! 20)\<rparr>)
    \<and> get_mem_usage (Some (mem_lines a i b j rm)) mem = Some (word_of_int a, word_of_int b)"
  using get_proc_stat_line [OF assms(1)] get_mem_usage_lines [OF assms(3,4)] get_proc_pid_stat_line [OF assms(5-7,9,2,10)] assms(8)
  by simp

definition demo_cpu_numbers :: "int list" where
  "demo_cpu_numbers = [100, 2, 30, 4000, 5, 6, 7, 0, 0, 0]"

definition demo_pid_numbers :: "int list" where
  "demo_pid_numbers = [1, 1, 1, 0, - 1, 4194304, 100, 0, 2, 0, 7, 3, 0, 0, 20, 0, 1, 0, 555, 4096000, 250] @ replicate 31 0"

lemma demo_fills: "fills (replicate 9 Conv_lu) demo_cpu_numbers" "fills pid_kinds demo_pid_numbers"
  by (simp_all add: fills_def demo_cpu_numbers_def demo_pid_numbers_def pid_kinds_def numeral_eq_Suc)

theorem proc_files_read_back_witness:
  "get_proc_pid_stat (Some (pid_line 4711 ''(impd4e)'' CHR ''S'' demo_pid_numbers NL)) demo_proc
     = Some (Some \<lparr>pp_utime = 7, pp_stime = 3, pp_vsize = 4096000, pp_rss = 250\<rparr>)"
  using proc_files_read_back [OF demo_fills, of 10 5 4711 "''(impd4e)''" "CHR ''S''" NL _ _ demo_proc]
  by (simp add: demo_pid_numbers_def c_isspace_def)

text \<open>A process name with a blank is not noticed: the reader returns success, but the scan stops at
  the name, and the times and sizes of the process keep the values from before.\<close>

theorem name_with_blank_stale:
  assumes "holds_in Conv_d pid" "name \<noteq> []" "list_all (\<lambda>c. \<not> c_isspace c) name" "length name < 16" "\<not> c_isspace x"
    and "y \<noteq> CHR ''-''" "y \<noteq> CHR ''+''" "\<not> c_isdigit y" "\<not> c_isspace y"
  shows "get_proc_pid_stat (Some (int_string pid @ '' '' @ name @ '' '' @ x # y # rs)) p = Some (Some p)"
  using assms(4) scan_name_blank [OF assms(1-3,5-9), of rs]
  by (simp add: get_proc_pid_stat_def comm_fits_def MAX_COMM_LEN_def got_def)

theorem name_with_blank_stale_witness:
  "get_proc_pid_stat (Some (int_string 4711 @ '' '' @ ''(my'' @ '' '' @ CHR ''p'' # CHR ''r'' # ''obe) S 1 1 1'')) demo_proc = Some (Some demo_proc)"
  by (rule name_with_blank_stale) (simp_all add: c_isspace_def c_isdigit_def)

text \<open>C35: From the files to the statistics: in every execution but the first, files as the kernel prints
  them give the shares of the time since the last execution, and the memory and the sizes as they
  are in the files.\<close>

theorem probe_stats_of_files:
  assumes "\<not> first_execution st" "f_meminfo fs = Some (mem_lines a i b j rm)" "f_pid fs = Some (pid_line pid comm ch ps rp)"
    and "f_stat fs = Some (cpu_line cs rc)"
    and "fills (replicate 9 Conv_lu) cs" "fills pid_kinds ps" "holds_in Conv_lu a" "holds_in Conv_lu b"
    and "holds_in Conv_d pid" "comm \<noteq> []" "list_all (\<lambda>c. \<not> c_isspace c) comm" "length comm < 16" "\<not> c_isspace ch" "ends_number rp"
    and "cpu = \<lparr>c_user = word_of_int (cs ! 0), c_nice = word_of_int (cs ! 1), c_system = word_of_int (cs ! 2), c_idle = word_of_int (cs ! 3)\<rparr>"
    and "d = flo (of_nat (unat (sum_cpu cpu - cpu_total st)))" "d > 0"
  shows "\<exists>st' s'. get_probe_stats flo pagesize fs st s = Some (0, s', st') \<and> cpu_total st' = sum_cpu cpu
    \<and> systemMemTotal s' = word_of_int a \<and> systemMemFree s' = word_of_int b
    \<and> processMemVzs s' = word_of_int (ps ! 19) \<and> processMemRss s' = word_of_int (ps ! 20) * pagesize
    \<and> systemCpuIdle s' = flo (flo (of_nat (unat (c_idle cpu - c_idle (st_cpu st)))) / d)
    \<and> processCpuUser s' = flo (flo (of_nat (unat (word_of_int (ps ! 10) - pp_utime (st_process st)))) / d)
    \<and> processCpuSys s' = flo (flo (of_nat (unat (word_of_int (ps ! 11) - pp_stime (st_process st)))) / d)"
proof -
  have first: "first_stats fs st = Some (True, st)" using assms(1) by (simp add: first_stats_def)
  show ?thesis
    using get_proc_stat_line [OF assms(5)] get_mem_usage_lines [OF assms(7,8)]
      get_proc_pid_stat_line [OF assms(9-11,13,6,14)] assms(2-4,12,15,16,17)
    by (simp add: get_probe_stats_def first cpu_shares_def Let_def)
qed

definition demo_files :: proc_files where
  "demo_files = \<lparr>f_stat0 = None, f_pid0 = None, f_meminfo = Some (mem_lines 2000 8 500 9 ''Buffers: 1 kB''),
     f_pid = Some (pid_line 4711 ''(impd4e)'' CHR ''S'' demo_pid_numbers NL), f_stat = Some (cpu_line demo_cpu_numbers ''cpu0 100'')\<rparr>"

lemma demo_names_fit: "names_fit demo_files"
  using printed_name_fits [of 4711 "''(impd4e)''" "CHR ''S''", OF _ _ _ _ demo_fills(2), of NL]
  by (simp add: names_fit_def demo_files_def c_isspace_def) (simp add: name_fits_def)

lemma demo_stats_run: "\<exists>st' s'. get_probe_stats (\<lambda>x. x) 4096 demo_files demo_stats demo_stat = Some (0, s', st')"
proof -
  have "get_proc_stat (f_stat demo_files) c = Some \<lparr>c_user = 100, c_nice = 2, c_system = 30, c_idle = 4000\<rparr>"
    "get_mem_usage (f_meminfo demo_files) m = Some (2000, 500)" "\<exists>q. get_proc_pid_stat (f_pid demo_files) d = Some (Some q)" for c m d
    using get_proc_stat_line [OF demo_fills(1)] get_mem_usage_lines [of 2000 500]
      get_proc_pid_stat_line [of 4711 "''(impd4e)''" "CHR ''S''", OF _ _ _ _ demo_fills(2), of NL d]
    by (simp_all add: demo_files_def demo_cpu_numbers_def c_isspace_def)
  moreover from this(3) [of demo_proc] obtain q where "get_proc_pid_stat (f_pid demo_files) demo_proc = Some (Some q)" ..
  ultimately show ?thesis
    by (auto simp: get_probe_stats_def first_stats_def demo_stats_def cpu_shares_def sum_cpu_def Let_def)
qed

theorem probe_stats_of_files_witness:
  "\<exists>st' s'. get_probe_stats (\<lambda>x. x) 4096 demo_files demo_stats demo_stat = Some (0, s', st')
     \<and> systemMemTotal s' = 2000 \<and> processMemRss s' = 1024000 \<and> systemCpuIdle s' = 3999 / 4130"
  using probe_stats_of_files [of demo_stats demo_files 2000 8 500 9 "''Buffers: 1 kB''" 4711 "''(impd4e)''" "CHR ''S''" demo_pid_numbers NL
      demo_cpu_numbers "''cpu0 100''" "\<lparr>c_user = 100, c_nice = 2, c_system = 30, c_idle = 4000\<rparr>" 4130 "\<lambda>x. x" 4096 demo_stat]
    demo_fills
  by (auto simp: demo_stats_def demo_files_def sum_cpu_def demo_cpu_numbers_def demo_pid_numbers_def c_isspace_def demo_cpu_def demo_proc_def)

text \<open>C34: The exported idle share is a share: when two successive reads of the CPU counters did
  not overflow or run backwards, a successful call after the first one exports a value between
  0 and 1, for every rounding to \<^verbatim>\<open>float\<close> that is monotone and keeps 0 and 1.\<close>

theorem idle_share_in_range:
  assumes "float_ok flo" and "get_probe_stats flo pagesize fs st stat = Some (0, stat', st')"
    and "\<not> first_execution st" and "cpu_total st = sum_cpu (st_cpu st)"
    and "get_proc_stat (f_stat fs) (st_cpu st) = Some cpu" and "cpu_le (st_cpu st) cpu"
  shows "0 \<le> systemCpuIdle stat' \<and> systemCpuIdle stat' \<le> 1 \<and> cpu_total st' = sum_cpu (st_cpu st')"
proof -
  from assms(2,3,5) obtain p mem s where sh: "cpu_shares flo pagesize st p cpu mem (missing_stats stat) = (0, stat')"
    and st': "st' = st\<lparr>st_process := p, st_cpu := cpu, cpu_total := sum_cpu cpu\<rparr>"
    by (auto simp: get_probe_stats_def first_stats_def Let_def bind_Some_conv case_prod_beta prod_eq_iff split: option.splits if_splits)
  from idle_share_bounds [OF assms(1) sh assms(6,4)] st' show ?thesis by simp
qed

theorem idle_share_in_range_witness:
  "\<exists>s' st'. get_probe_stats (\<lambda>x. x) 4096 demo_files demo_stats demo_stat = Some (0, s', st') \<and> 0 \<le> systemCpuIdle s' \<and> systemCpuIdle s' \<le> 1"
proof -
  have cpu: "get_proc_stat (f_stat demo_files) (st_cpu demo_stats) = Some \<lparr>c_user = 100, c_nice = 2, c_system = 30, c_idle = 4000\<rparr>"
    using get_proc_stat_line [OF demo_fills(1)] by (simp add: demo_files_def demo_cpu_numbers_def)
  obtain st' s' where r: "get_probe_stats (\<lambda>x. x) 4096 demo_files demo_stats demo_stat = Some (0, s', st')"
    using demo_stats_run by blast
  from idle_share_in_range [OF _ r _ _ cpu] r show ?thesis
    by (auto simp: float_ok_def mono_def demo_stats_def cpu_le_def demo_cpu_def sum_cpu_def)
qed

end
