(* ===== verification/Export.thy ===== *)
theory Export
  imports Packet_Handler Proc_Files
begin

text \<open>
  The periodic exports (\<^verbatim>\<open>src/export_handler.c\<close>, \<^verbatim>\<open>export_flush\<close> of \<^verbatim>\<open>src/ipfix_handler.c\<close>):
  interface and probe statistics, location and synchronisation records, and the timer
  callbacks. Whether libipfix accepts a record is an argument (\<open>sent\<close>), and so is what
  \<^verbatim>\<open>pcap_stats\<close> answers; the result is the device and the accepted calls.
\<close>

section \<open>Records\<close>

text \<open>An entry of \<^verbatim>\<open>fields\<close> and \<^verbatim>\<open>lengths\<close> for a string: \<^verbatim>\<open>lengths\<close> has 16 bits.\<close>

definition str_field :: "string \<Rightarrow> field_value \<times> u16" where
  "str_field s = (FString s, of_nat (length s))"

definition send_record :: "u32 \<Rightarrow> nat \<Rightarrow> fields \<Rightarrow> bool \<Rightarrow> ipfix_event list option" where
  "send_record t_id nf fs sent = do {
     tmpl \<leftarrow> get_template t_id;
     ev \<leftarrow> export_array t_id nf fs;
     Some (if sent then [ev] else []) }"

text \<open>
  \<^verbatim>\<open>struct pcap_stat pcapStat\<close> is not initialised: when \<^verbatim>\<open>pcap_stats\<close> fails its bytes, \<open>junk\<close>, are
  exported.
\<close>

record stat_answer =
  sa_pcap :: "(u32 \<times> u32) option"
  sa_junk :: "u32 \<times> u32"
  sa_sent :: bool

definition pcap_counts :: "device \<Rightarrow> stat_answer \<Rightarrow> u32 \<times> u32" where
  "pcap_counts dev a =
     (if device_type dev = TYPE_PCAP then (case sa_pcap a of Some c \<Rightarrow> c | None \<Rightarrow> sa_junk a) else (0, 0))"

definition interface_stats_fields :: "device \<Rightarrow> u64 \<Rightarrow> u32 \<Rightarrow> u64 \<Rightarrow> u32 \<times> u32 \<Rightarrow> fields" where
  "interface_stats_fields dev time sampled deltaCount counts =
     [(F64 time, 8), (F32 sampled, 4), (F64 deltaCount, 8), (F32 (fst counts), 4), (F32 (snd counts), 4),
      str_field (device_name dev), str_field (take 15 (ntoa (IPv4address dev)))]"

definition export_data_interface_stats :: "stat_answer \<Rightarrow> device \<Rightarrow> u64 \<Rightarrow> u32 \<Rightarrow> u64 \<Rightarrow>
    (device \<times> ipfix_event list) option" where
  "export_data_interface_stats a dev time sampled deltaCount = do {
     evs \<leftarrow> send_record INTF_STATS_ID 7 (interface_stats_fields dev time sampled deltaCount (pcap_counts dev a)) (sa_sent a);
     Some (if sa_sent a then dev\<lparr>sampling_size := 0, sampling_delta_count := 0\<rparr> else dev, evs) }"

text \<open>The other records are followed by a flush when they were accepted.\<close>

definition then_flush :: "ipfix_event list \<Rightarrow> ipfix_event list" where
  "then_flush evs = (if evs = [] then [] else evs @ [Flush])"

definition export_data_sync :: "bool \<Rightarrow> u64 \<Rightarrow> u32 \<Rightarrow> u32 \<Rightarrow> string \<Rightarrow> ipfix_event list option" where
  "export_data_sync sent time messageId messageValue message = do {
     evs \<leftarrow> send_record SYNC_ID 4 [(F64 time, 8), (F32 messageId, 4), (F32 messageValue, 4), str_field message] sent;
     Some (then_flush evs) }"

definition probe_stats_fields :: "probe_stat \<Rightarrow> fields" where
  "probe_stats_fields ps = [(F64 (observationTimeMilliseconds ps), 8), (FFloat (systemCpuIdle ps), 4),
     (F64 (systemMemFree ps), 8), (FFloat (processCpuUser ps), 4), (FFloat (processCpuSys ps), 4),
     (F64 (processMemVzs ps), 8), (F64 (processMemRss ps), 8), (F64 (systemMemTotal ps), 8)]"

text \<open>The result code of \<^verbatim>\<open>get_probe_stats\<close> is not looked at; \<open>junk\<close> is the uninitialised structure.\<close>

definition export_data_probe_stats :: "(rat \<Rightarrow> rat) \<Rightarrow> u64 \<Rightarrow> proc_files \<Rightarrow> probe_stat \<Rightarrow> bool \<Rightarrow> u64 \<Rightarrow> stats_state \<Rightarrow>
    (stats_state \<times> ipfix_event list) option" where
  "export_data_probe_stats flo pagesize fs junk sent time st = do {
     tmpl \<leftarrow> get_template PROBE_STATS_ID;
     (_, ps, st) \<leftarrow> get_probe_stats flo pagesize fs st (junk\<lparr>observationTimeMilliseconds := time\<rparr>);
     evs \<leftarrow> send_record PROBE_STATS_ID (length tmpl) (probe_stats_fields ps) sent;
     Some (st, then_flush evs) }"

definition ip_bytes :: "u32 \<Rightarrow> byte list" where
  "ip_bytes w = map (byte_of w) [0..<4]"

text \<open>\<^verbatim>\<open>strlen\<close> of a probe name that is \<^verbatim>\<open>NULL\<close> faults.\<close>

definition export_data_location :: "options \<Rightarrow> bool \<Rightarrow> u64 \<Rightarrow> ipfix_event list option" where
  "export_data_location opts sent time = do {
     name \<leftarrow> s_probe_name opts;
     evs \<leftarrow> send_record LOCATION_ID 6 [(F64 time, 8), (FBytes (ip_bytes (ipAddress opts)), 4),
       str_field (s_latitude opts), str_field (s_longitude opts), str_field name, str_field (s_location_name opts)] sent;
     Some (then_flush evs) }"

section \<open>Flushing\<close>

definition export_flush :: "ipfix_event list" where
  "export_flush = [Flush]"

definition export_flush_device :: "device option \<Rightarrow> device option \<times> ipfix_event list" where
  "export_flush_device dev = (case dev of
       None \<Rightarrow> (None, [])
     | Some d \<Rightarrow> (Some (d\<lparr>dev_export_packet_count := 0\<rparr>), [Flush]))"

fun export_flush_from :: "nat \<Rightarrow> nat \<Rightarrow> device list \<Rightarrow> device list \<times> ipfix_event list" where
  "export_flush_from i 0 devs = (devs, [])"
| "export_flush_from i (Suc k) devs =
     (let (d, evs) = export_flush_device (Some (devs ! i));
          devs = (case d of None \<Rightarrow> devs | Some d \<Rightarrow> devs[i := d]);
          (devs, evs') = export_flush_from (Suc i) k devs
      in (devs, evs @ evs'))"

definition export_flush_all :: "options \<Rightarrow> device list \<Rightarrow> device list \<times> ipfix_event list" where
  "export_flush_all opts devs = export_flush_from 0 (unat (number_interfaces opts)) devs"

section \<open>Timer callbacks\<close>

text \<open>
  Calls into libipfix with the reason for the call: a data record of a device, a statistics
  report of a device, or neither. The time is \<^verbatim>\<open>ev_now\<close> in whole seconds.
\<close>

datatype probe_out = Data nat ipfix_event | Report nat ipfix_event | Other ipfix_event

definition export_timer_pktid_cb :: "probe_out list" where
  "export_timer_pktid_cb = map Other export_flush"

fun sampling_from :: "(nat \<Rightarrow> stat_answer) \<Rightarrow> u64 \<Rightarrow> nat \<Rightarrow> nat \<Rightarrow> device list \<Rightarrow> (device list \<times> probe_out list) option" where
  "sampling_from ans time i 0 devs = Some (devs, [])"
| "sampling_from ans time i (Suc k) devs =
     (let dev = devs ! i in do {
        (dev', evs) \<leftarrow> export_data_interface_stats (ans i) dev time (sampling_size dev) (sampling_delta_count dev);
        (devs, outs) \<leftarrow> sampling_from ans time (Suc i) k (devs[i := dev']);
        Some (devs, map (Report i) evs @ outs) })"

definition export_timer_sampling_cb :: "options \<Rightarrow> (nat \<Rightarrow> stat_answer) \<Rightarrow> u64 \<Rightarrow> device list \<Rightarrow>
    (device list \<times> probe_out list) option" where
  "export_timer_sampling_cb opts ans now devs = do {
     (devs, outs) \<leftarrow> sampling_from ans (now * 1000) 0 (unat (number_interfaces opts)) devs;
     Some (devs, outs @ map Other export_flush) }"

definition export_timer_stats_cb :: "(rat \<Rightarrow> rat) \<Rightarrow> u64 \<Rightarrow> proc_files \<Rightarrow> probe_stat \<Rightarrow> bool \<Rightarrow> u64 \<Rightarrow> stats_state \<Rightarrow>
    (stats_state \<times> probe_out list) option" where
  "export_timer_stats_cb flo pagesize fs junk sent now st =
     map_option (\<lambda>(st, evs). (st, map Other evs)) (export_data_probe_stats flo pagesize fs junk sent (now * 1000) st)"

definition export_timer_location_cb :: "options \<Rightarrow> bool \<Rightarrow> u64 \<Rightarrow> probe_out list option" where
  "export_timer_location_cb opts sent now = map_option (map Other) (export_data_location opts sent (now * 1000))"

section \<open>The timers\<close>

text \<open>
  A libev timer: the repeat interval and whether it is active. \<^verbatim>\<open>event_register_timer\<close> starts it,
  with a first call at once; \<^verbatim>\<open>event_register_timer_w\<close> and the runtime configuration use
  \<^verbatim>\<open>ev_timer_again\<close>, which stops a timer without a repeat interval.
\<close>

record ev_timer =
  t_repeat :: rat
  t_active :: bool
  t_first :: rat

definition ev_timer_again :: "ev_timer \<Rightarrow> ev_timer" where
  "ev_timer_again w = (if t_repeat w > 0 then w\<lparr>t_active := True, t_first := t_repeat w\<rparr> else w\<lparr>t_active := False\<rparr>)"

definition event_register_timer :: "rat \<Rightarrow> ev_timer" where
  "event_register_timer to = \<lparr>t_repeat = to, t_active = True, t_first = 0\<rparr>"

definition event_register_timer_w :: "rat \<Rightarrow> ev_timer" where
  "event_register_timer_w to = ev_timer_again \<lparr>t_repeat = to, t_active = False, t_first = 0\<rparr>"

record timers =
  export_timer_pkid :: ev_timer
  export_timer_sampling :: ev_timer
  export_timer_stats :: ev_timer
  export_timer_location :: ev_timer

definition export_handler_init :: "options \<Rightarrow> timers" where
  "export_handler_init opts = \<lparr>
     export_timer_pkid = event_register_timer_w (export_pktid_interval opts),
     export_timer_sampling = event_register_timer_w (export_sampling_interval opts),
     export_timer_stats = event_register_timer (export_stats_interval opts),
     export_timer_location = event_register_timer (export_location_interval opts)\<rparr>"

end
