(* ===== verification/Devices.thy ===== *)
theory Devices
  imports Options_Props Sockets Export
begin

unbundle bit_operations_syntax

text \<open>
  Opening the devices: the device helpers of \<^verbatim>\<open>src/helper.c\<close>, \<^verbatim>\<open>src/pcap_handler.c\<close>, the socket
  openers of \<^verbatim>\<open>src/socket_handler.c\<close> and \<^verbatim>\<open>open_device\<close> of \<^verbatim>\<open>src/main.c\<close>. What the operating system
  and libpcap answer is an argument.
\<close>

section \<open>Answers and results\<close>

datatype dispatch_fn = Pcap_dispatch_wrapper | Socket_dispatch_inet | Socket_dispatch_unix

datatype watcher = Io_watcher int | Timer_watcher rat

text \<open>
  What a device gets from the outside: the file descriptor of the pcap handle (\<open>None\<close> for a
  \<^verbatim>\<open>NULL\<close> handle), the link type, the socket that the address of an interface is asked on, the
  addresses of the interfaces, the stack word that stands in for a missing one, \<^verbatim>\<open>getaddrinfo\<close>,
  \<^verbatim>\<open>socket\<close>, \<^verbatim>\<open>bind\<close>, \<^verbatim>\<open>connect\<close>, whether libpcap compiles and installs a filter, the status flags of
  a new descriptor, and whether \<^verbatim>\<open>pcap_setnonblock\<close> and the two calls of \<^verbatim>\<open>fcntl\<close> succeed.
\<close>

record os_answers =
  os_pcap :: "int option"
  os_datalink :: dlt
  os_inet_socket :: int
  os_ifaddr :: "string \<Rightarrow> u32 option"
  os_stack :: u32
  os_gai :: int
  os_addrinfo :: "(byte list \<times> nat) list"
  os_socket :: int
  os_bind :: int
  os_connect :: int
  os_compile :: "string \<Rightarrow> bool"
  os_setfilter :: "string \<Rightarrow> bool"
  os_flags :: u32
  os_nonblock :: bool
  os_getfl :: bool
  os_setfl :: bool

text \<open>
  The filter of a capture handle. \<open>Undefined_filter\<close> is what \<^verbatim>\<open>setFilter\<close> installs after a failed
  compilation: the program it passes on is an uninitialised variable.
\<close>

datatype pcap_filter = No_filter | Filter string | Undefined_filter

text \<open>The capture source behind a device: descriptor, dispatch function, watcher, filter and
  the status flags of the descriptor.\<close>

record source =
  src_fd :: int
  src_dispatch :: dispatch_fn
  src_watcher :: watcher
  src_filter :: pcap_filter
  src_flags :: u32

type_synonym sources = "nat \<Rightarrow> source option"

text \<open>
  Opening a device: the device with its source, when one was opened; the end of the process; or
  a fault.
\<close>

datatype open_result = Open_ok device "source option" | Open_exit int | Open_fault

section \<open>Helpers\<close>

text \<open>
  The address of an interface: a failed \<^verbatim>\<open>socket\<close> ends the process (\<open>Inl\<close>). The name is cut to 15
  characters, and the result of the \<^verbatim>\<open>ioctl\<close> is not looked at: when the interface has no IPv4
  address, what is returned is the uninitialised structure on the stack.
\<close>

definition getIPv4AddressFromDevice :: "os_answers \<Rightarrow> string \<Rightarrow> int + u32" where
  "getIPv4AddressFromDevice os dev_name =
     (if os_inet_socket os = - 1 then Inl 1
      else Inr (case os_ifaddr os (take 15 dev_name) of None \<Rightarrow> os_stack os | Some a \<Rightarrow> a))"

text \<open>
  Non-blocking mode. \<open>flags\<close> are the status flags of the descriptor, for a capture handle those of its
  descriptor. \<^verbatim>\<open>F_SETFL\<close> changes the flags \<^verbatim>\<open>O_APPEND\<close>, \<^verbatim>\<open>O_NONBLOCK\<close>, \<^verbatim>\<open>O_ASYNC\<close>, \<^verbatim>\<open>O_DIRECT\<close> and
  \<^verbatim>\<open>O_NOATIME\<close>. After a failed \<^verbatim>\<open>F_GETFL\<close> the value \<open>- 1\<close> is used; errors are only logged.
\<close>

abbreviation (input) O_NONBLOCK :: u32 where "O_NONBLOCK \<equiv> 0x800"

definition settable_flags :: u32 where
  "settable_flags = 0x400 OR 0x800 OR 0x2000 OR 0x4000 OR 0x40000"

definition fcntl_setfl :: "u32 \<Rightarrow> u32 \<Rightarrow> u32" where
  "fcntl_setfl flags new = (flags AND NOT settable_flags) OR (new AND settable_flags)"

definition setNONBlocking :: "os_answers \<Rightarrow> device \<Rightarrow> u32 \<Rightarrow> u32" where
  "setNONBlocking os pDevice flags = (case device_type pDevice of
       TYPE_PCAP_FILE \<Rightarrow> if os_nonblock os then fcntl_setfl flags (flags OR O_NONBLOCK) else flags
     | TYPE_PCAP \<Rightarrow> if os_nonblock os then fcntl_setfl flags (flags OR O_NONBLOCK) else flags
     | TYPE_SOCKET_INET \<Rightarrow>
         (let fl = (if os_getfl os then flags else - 1)
          in if os_setfl os then fcntl_setfl flags (fl OR O_NONBLOCK) else flags)
     | TYPE_SOCKET_UNIX \<Rightarrow>
         (let fl = (if os_getfl os then flags else - 1)
          in if os_setfl os then fcntl_setfl flags (fl OR O_NONBLOCK) else flags)
     | _ \<Rightarrow> flags)"

definition get_file_desc :: "device \<Rightarrow> int \<Rightarrow> int" where
  "get_file_desc dev handle = (case device_type dev of
       TYPE_testtype \<Rightarrow> handle | TYPE_PCAP_FILE \<Rightarrow> handle | TYPE_PCAP \<Rightarrow> handle
     | TYPE_SOCKET_INET \<Rightarrow> handle | TYPE_SOCKET_UNIX \<Rightarrow> handle | _ \<Rightarrow> 0)"

text \<open>
  The filter functions use the device's handle as a \<^verbatim>\<open>pcap_t*\<close>; for a socket device the union
  holds a descriptor and the access faults, as it does for a device that was not opened.
\<close>

definition set_filter :: "os_answers \<Rightarrow> device \<Rightarrow> source option \<Rightarrow> string option \<Rightarrow> (int \<times> source option) option" where
  "set_filter os pd src e = (case e of
       None \<Rightarrow> Some (0, src)
     | Some x \<Rightarrow>
         (case src of
           None \<Rightarrow> None
         | Some h \<Rightarrow>
             if device_type pd \<in> {TYPE_PCAP, TYPE_PCAP_FILE} then
               (if \<not> os_compile os x then Some (- 1, src)
                else if \<not> os_setfilter os x then Some (- 1, src)
                else Some (0, Some (h\<lparr>src_filter := Filter x\<rparr>)))
             else None))"

text \<open>The loop drops the result of every call.\<close>

fun set_filter_from :: "(nat \<Rightarrow> os_answers) \<Rightarrow> device list \<Rightarrow> string option \<Rightarrow> nat \<Rightarrow> nat \<Rightarrow> sources \<Rightarrow> (int \<times> sources) option" where
  "set_filter_from os devs e i 0 srcs = Some (0, srcs)"
| "set_filter_from os devs e i (Suc k) srcs = do {
     (_, src) \<leftarrow> set_filter (os i) (devs ! i) (srcs i) e;
     set_filter_from os devs e (Suc i) k (srcs(i := src)) }"

definition set_all_filter :: "(nat \<Rightarrow> os_answers) \<Rightarrow> options \<Rightarrow> device list \<Rightarrow> string \<Rightarrow> sources \<Rightarrow> (int \<times> sources) option" where
  "set_all_filter os opts devs e srcs = set_filter_from os devs (Some e) 0 (unat (number_interfaces opts)) srcs"

text \<open>\<^verbatim>\<open>setFilter\<close> installs the filter of the options on a fresh handle and goes on after errors.\<close>

definition setFilter :: "os_answers \<Rightarrow> options \<Rightarrow> pcap_filter" where
  "setFilter os opts = (case bpf opts of
       None \<Rightarrow> No_filter
     | Some x \<Rightarrow> if \<not> os_compile os x then Undefined_filter
                else if os_setfilter os x then Filter x else No_filter)"

section \<open>Opening pcap devices\<close>

definition determineLinkType :: "dlt \<Rightarrow> device \<Rightarrow> device" where
  "determineLinkType dl dev =
     (let dev = dev\<lparr>link_type := dl\<rparr> in
      case dl of
        DLT_EN10MB \<Rightarrow> dev\<lparr>pkt_offset := 14\<rparr>
      | DLT_ATM_RFC1483 \<Rightarrow> dev\<lparr>pkt_offset := 8\<rparr>
      | DLT_LINUX_SLL \<Rightarrow> dev\<lparr>pkt_offset := 16\<rparr>
      | DLT_RAW \<Rightarrow> dev\<lparr>pkt_offset := 0\<rparr>
      | DLT_other _ \<Rightarrow> dev\<lparr>pkt_offset := 0\<rparr>)"

text \<open>A file that cannot be opened leaves a \<^verbatim>\<open>NULL\<close> handle, which \<^verbatim>\<open>pcap_datalink\<close> dereferences.\<close>

definition open_pcap_file :: "os_answers \<Rightarrow> options \<Rightarrow> device \<Rightarrow> open_result" where
  "open_pcap_file os opts dev = (case os_pcap os of
       None \<Rightarrow> Open_fault
     | Some h \<Rightarrow> 
         Open_ok (determineLinkType (os_datalink os) dev)
           (Some \<lparr>src_fd = h, src_dispatch = Pcap_dispatch_wrapper, src_watcher = Timer_watcher 1, src_filter = setFilter os opts,
              src_flags = setNONBlocking os dev (os_flags os)\<rparr>))"

definition open_pcap :: "os_answers \<Rightarrow> options \<Rightarrow> device \<Rightarrow> open_result" where
  "open_pcap os opts dev = (case os_pcap os of
       None \<Rightarrow> Open_exit 1
     | Some h \<Rightarrow>
         (case getIPv4AddressFromDevice os (device_name dev) of
            Inl code \<Rightarrow> Open_exit code
          | Inr addr \<Rightarrow>
              (let dev = dev\<lparr>IPv4address := addr\<rparr>;
                   dev = determineLinkType (os_datalink os) dev
               in Open_ok dev (Some
                 \<lparr>src_fd = h, src_dispatch = Pcap_dispatch_wrapper, src_watcher = Io_watcher (get_file_desc dev h),
                  src_filter = setFilter os opts, src_flags = setNONBlocking os dev (os_flags os)\<rparr>))))"

section \<open>Opening sockets\<close>

definition open_socket_inet :: "logger_state \<Rightarrow> os_answers \<Rightarrow> device \<Rightarrow> open_result" where
  "open_socket_inet lg os dev =
     (let dev = dev\<lparr>device_name := cut_name (device_name dev)\<rparr> in
      if os_gai os \<noteq> 0 then Open_exit 1
      else case print_addrinfo lg (os_addrinfo os) of
          None \<Rightarrow> Open_fault
        | Some _ \<Rightarrow>
            if os_addrinfo os = [] then Open_ok dev None
            else (let sock = create_bind (os_socket os) (os_bind os) in
                  if - 1 = sock then Open_exit 1
                  else Open_ok dev (Some
                    \<lparr>src_fd = sock, src_dispatch = Socket_dispatch_inet, src_watcher = Io_watcher (get_file_desc dev sock), src_filter = No_filter,
                      src_flags = setNONBlocking os dev (os_flags os)\<rparr>)))"

text \<open>\<^verbatim>\<open>sun_path\<close> has 108 bytes.\<close>

definition open_socket_unix :: "os_answers \<Rightarrow> device \<Rightarrow> open_result" where
  "open_socket_unix os dev =
     (let s = os_socket os in
      if 0 > s then Open_exit 1
      else if 108 \<le> length (device_name dev) then Open_fault
      else if 0 > os_connect os then Open_exit 2
      else Open_ok dev (Some
          \<lparr>src_fd = s, src_dispatch = Socket_dispatch_unix, src_watcher = Io_watcher (get_file_desc dev s), src_filter = No_filter,
                      src_flags = setNONBlocking os dev (os_flags os)\<rparr>))"

definition open_device :: "logger_state \<Rightarrow> os_answers \<Rightarrow> options \<Rightarrow> device \<Rightarrow> open_result" where
  "open_device lg os opts dev = (case device_type dev of
       TYPE_FILE \<Rightarrow> Open_ok dev None
     | TYPE_PCAP_FILE \<Rightarrow> open_pcap_file os opts dev
     | TYPE_PCAP \<Rightarrow> open_pcap os opts dev
     | TYPE_SOCKET_INET \<Rightarrow> open_socket_inet lg os dev
     | TYPE_SOCKET_UNIX \<Rightarrow> open_socket_unix os dev
     | TYPE_UNKNOWN \<Rightarrow> Open_ok dev None
     | TYPE_testtype \<Rightarrow> Open_ok dev None)"

section \<open>Opening the devices of the command line\<close>

fun open_from :: "logger_state \<Rightarrow> (nat \<Rightarrow> os_answers) \<Rightarrow> options \<Rightarrow> nat \<Rightarrow> nat \<Rightarrow> device list \<Rightarrow> sources \<Rightarrow>
    (int option) + (device list \<times> sources)" where
  "open_from lg os opts i 0 devs srcs = Inr (devs, srcs)"
| "open_from lg os opts i (Suc k) devs srcs = (case open_device lg (os i) opts (devs ! i) of
       Open_exit code \<Rightarrow> Inl (Some code)
     | Open_fault \<Rightarrow> Inl None
     | Open_ok d src \<Rightarrow> open_from lg os opts (Suc i) k (devs[i := d]) (srcs(i := src)))"

section \<open>What opening leaves alone\<close>

lemma open_device_frame:
  assumes "open_device lg os opts dev = Open_ok d src"
  shows "hash_buffer d = hash_buffer dev \<and> template_id d = template_id dev \<and> device_type d = device_type dev
    \<and> dev_export_packet_count d = dev_export_packet_count dev"
  using assms by (auto simp: open_device_def open_pcap_file_def open_pcap_def open_socket_inet_def open_socket_unix_def
      determineLinkType_def getIPv4AddressFromDevice_def Let_def split: device_type.splits option.splits dlt.splits if_splits)

lemma open_device_pcap:
  assumes "open_device lg os opts dev = Open_ok d src" and "device_type dev = TYPE_PCAP \<or> device_type dev = TYPE_PCAP_FILE"
    and "os_datalink os = DLT_EN10MB"
  shows "link_type d = DLT_EN10MB \<and> pkt_offset d = 14"
  using assms by (auto simp: open_device_def open_pcap_file_def open_pcap_def determineLinkType_def getIPv4AddressFromDevice_def Let_def
      split: option.splits if_splits)

text \<open>The loop over the interfaces opens each device once, from the state the parser left.\<close>

lemma open_from_nth:
  "open_from lg os opts i k devs srcs = Inr (devs', srcs') \<Longrightarrow> i + k \<le> length devs \<Longrightarrow>
     length devs' = length devs
     \<and> (\<forall>j. if i \<le> j \<and> j < i + k then open_device lg (os j) opts (devs ! j) = Open_ok (devs' ! j) (srcs' j)
             else devs' ! j = devs ! j \<and> srcs' j = srcs j)"
proof (induction lg os opts i k devs srcs rule: open_from.induct)
  case (2 lg os opts i k devs srcs)
  then obtain d src where one: "open_device lg (os i) opts (devs ! i) = Open_ok d src"
    and rest: "open_from lg os opts (Suc i) k (devs[i := d]) (srcs(i := src)) = Inr (devs', srcs')"
    by (auto split: open_result.splits)
  have IH: "length devs' = length devs
    \<and> (\<forall>j. if Suc i \<le> j \<and> j < Suc i + k then open_device lg (os j) opts (devs[i := d] ! j) = Open_ok (devs' ! j) (srcs' j)
           else devs' ! j = devs[i := d] ! j \<and> srcs' j = (srcs(i := src)) j)"
    by (rule "2.IH" [OF one rest, unfolded length_list_update]) (use "2.prems"(2) in simp)
  have "if i \<le> j \<and> j < i + Suc k then open_device lg (os j) opts (devs ! j) = Open_ok (devs' ! j) (srcs' j)
      else devs' ! j = devs ! j \<and> srcs' j = srcs j" for j
  proof (cases "j = i")
    case True
    with IH have "devs' ! i = d \<and> srcs' i = src" using "2.prems"(2) by (auto dest: spec [of _ i])
    with True one show ?thesis by auto
  next
    case False
    then have "devs[i := d] ! j = devs ! j" by simp
    with IH False show ?thesis by (cases "Suc i \<le> j \<and> j < Suc i + k") (auto dest!: conjunct2 [THEN spec [of _ j]])
  qed
  with IH show ?case by blast
qed auto

text \<open>Only pcap and socket devices get a source.\<close>

lemma open_device_source:
  "open_device lg os opts dev = Open_ok d (Some src) \<Longrightarrow>
    device_type d \<in> {TYPE_PCAP, TYPE_PCAP_FILE, TYPE_SOCKET_INET, TYPE_SOCKET_UNIX}"
  by (auto simp: open_device_def open_pcap_file_def open_pcap_def open_socket_inet_def open_socket_unix_def
      determineLinkType_def getIPv4AddressFromDevice_def Let_def split: device_type.splits option.splits dlt.splits if_splits)

section \<open>Non-blocking sources\<close>

lemma bit_flag: "k < 32 \<Longrightarrow> bit (push_bit k 1 :: u32) n \<longleftrightarrow> n = k"
  unfolding bit_push_bit_iff bit_1_iff by auto

lemma O_NONBLOCK_bit: "bit (0x800 :: u32) n \<longleftrightarrow> n = 11"
  using bit_flag [of 11 n] by simp

lemma settable_bit: "bit settable_flags n \<longleftrightarrow> n \<in> {10, 11, 13, 14, 18}"
  unfolding settable_flags_def bit_or_iff
  using bit_flag [of 10 n] bit_flag [of 11 n] bit_flag [of 13 n] bit_flag [of 14 n] bit_flag [of 18 n] by simp

lemma fcntl_setfl_nonblock: "fcntl_setfl flags (flags OR O_NONBLOCK) = flags OR O_NONBLOCK"
  by (rule bit_word_eqI) (auto simp: fcntl_setfl_def bit_or_iff bit_and_iff bit_not_iff settable_bit O_NONBLOCK_bit simp del: bit_numeral_word_iff)

text \<open>The flags of the source of a freshly opened device.\<close>

lemma open_device_flags:
  assumes "open_device lg os opts dev = Open_ok d (Some src)"
  shows "src_flags src = setNONBlocking os d (os_flags os)"
  using assms
  by (auto simp: open_device_def open_pcap_file_def open_pcap_def open_socket_inet_def open_socket_unix_def
      determineLinkType_def getIPv4AddressFromDevice_def setNONBlocking_def Let_def
      split: device_type.splits option.splits dlt.splits if_splits)

lemma setNONBlocking_type: "device_type d' = device_type d \<Longrightarrow> setNONBlocking os d' flags = setNONBlocking os d flags"
  by (simp add: setNONBlocking_def)

text \<open>Every source that is opened while the system answers is non-blocking, and nothing else of its
  flags changes; when reading the flags of a socket fails and setting them does not, the socket
  gets all the other flags too.\<close>

theorem sources_non_blocking:
  assumes "open_device lg os opts dev = Open_ok d (Some src)" "os_nonblock os" "os_setfl os"
  shows "bit (src_flags src) 11
    \<and> (os_getfl os \<or> device_type dev \<in> {TYPE_PCAP, TYPE_PCAP_FILE} \<longrightarrow> src_flags src = os_flags os OR O_NONBLOCK)
    \<and> (\<not> os_getfl os \<and> device_type dev \<in> {TYPE_SOCKET_INET, TYPE_SOCKET_UNIX} \<longrightarrow> src_flags src = os_flags os OR settable_flags)"
proof -
  have fl: "src_flags src = setNONBlocking os dev (os_flags os)"
    using open_device_flags [OF assms(1)] open_device_frame [OF assms(1)] setNONBlocking_type by metis
  have all: "fcntl_setfl flags (- 1 OR O_NONBLOCK) = flags OR settable_flags" for flags
    by (rule bit_word_eqI) (auto simp: fcntl_setfl_def bit_simps settable_bit)
  have "device_type dev \<in> {TYPE_PCAP, TYPE_PCAP_FILE, TYPE_SOCKET_INET, TYPE_SOCKET_UNIX}"
    using open_device_source [OF assms(1)] open_device_frame [OF assms(1)] by simp
  moreover have "bit (flags OR O_NONBLOCK) 11" "bit (flags OR settable_flags) 11" for flags :: u32
    by (simp_all add: bit_or_iff O_NONBLOCK_bit settable_bit del: bit_numeral_word_iff)
  ultimately show ?thesis
    using assms(2,3) all by (auto simp: fl setNONBlocking_def fcntl_setfl_nonblock Let_def)
qed

text \<open>An interface without an IPv4 address, which is common for one that only captures, is given what was
  on the stack: nothing of the interface determines its address.\<close>

theorem missing_address_undefined:
  assumes "os_pcap os = Some h" "os_inet_socket os \<noteq> - 1" "os_ifaddr os (take 15 (device_name dev)) = None"
  shows "\<exists>d src. open_pcap (os\<lparr>os_stack := a\<rparr>) opts dev = Open_ok d src \<and> IPv4address d = a"
  using assms by (auto simp: open_pcap_def getIPv4AddressFromDevice_def determineLinkType_def Let_def split: dlt.splits)

end
