(* ===== verification/Export_Props.thy ===== *)
theory Export_Props
  imports Export Options_Props
begin

text \<open>
  Properties of the periodic exports: every record fits its template, and the statistics reports
  account for every packet and every sample, in any order of packets, timers and failures.
\<close>

section \<open>Records fit their templates\<close>

lemma unat_length16: "length s < 65536 \<Longrightarrow> unat (of_nat (length s) :: u16) = length s"
  by (simp add: unsigned_of_nat take_bit_nat_eq_self)

lemma str_field_ok: "length s < 65536 \<Longrightarrow> snd (str_field s) = of_nat (length s) \<and> unat (snd (str_field s)) = field_width (fst (str_field s))"
  by (simp add: str_field_def unat_length16)

lemma send_record_Some:
  assumes "get_template t = Some tmpl" "nf = length fs" "record_ok tmpl fs"
  shows "send_record t nf fs sent = Some (if sent then [Export t fs] else [])"
proof -
  have "list_all (\<lambda>(v, n). unat n \<le> field_width v) fs"
    using assms(3) record_ok_widths by blast
  with assms(1,2) show ?thesis by (simp add: send_record_def export_array_def)
qed

lemma ntoa_length: "length (ntoa w) \<le> 15"
proof -
  have d: "length (dec_string n) \<le> 3" if "n < 1000" for n
    using that by (subst dec_string.simps, subst dec_string.simps, subst dec_string.simps) simp
  have "length (dec_string (unat (byte_of w i))) \<le> 3" for i
    using unat_byte [of "byte_of w i"] by (intro d) simp
  from this [of 0] this [of 1] this [of 2] this [of 3] show ?thesis by (simp add: ntoa_def dotted_def)
qed

lemma interface_stats_record:
  assumes "length (device_name dev) < 65536"
  shows "record_ok export_fields_interface_stats (interface_stats_fields dev time n d c)"
  using unat_length16 [OF assms] unat_length16 [of "take 15 (ntoa (IPv4address dev))"] ntoa_length [of "IPv4address dev"]
  by (simp add: record_ok_def interface_stats_fields_def template_defs str_field_def)

lemma interface_stats_run:
  assumes "length (device_name dev) < 65536"
  shows "export_data_interface_stats a dev time n d =
    Some (if sa_sent a then dev\<lparr>sampling_size := 0, sampling_delta_count := 0\<rparr> else dev,
          if sa_sent a then [Export INTF_STATS_ID (interface_stats_fields dev time n d (pcap_counts dev a))] else [])"
  using send_record_Some [OF get_template_ids(4) _ interface_stats_record [OF assms], of 7 time n d "pcap_counts dev a" "sa_sent a"]
  by (simp add: export_data_interface_stats_def interface_stats_fields_def)

section \<open>Runs of packets and timers\<close>

text \<open>
  What the event loop interleaves: packets on a device, ticks of the sampling timer with the
  answers it gets, and ticks of the packet-id timer.
\<close>

datatype loop_event = Packets nat "capture list" | Sampling_tick "nat \<Rightarrow> stat_answer" u64 | Pktid_tick

fun loop_step :: "options \<Rightarrow> range_select list \<Rightarrow> int \<Rightarrow> loop_event \<Rightarrow> device list \<Rightarrow> (device list \<times> probe_out list) option" where
  "loop_step opts rs lvl (Packets i cs) devs =
     (if i < unat (number_interfaces opts) then do {
        (dev, evs) \<leftarrow> handle_packets opts rs lvl cs (devs ! i);
        Some (devs[i := dev], map (Data i) evs) }
      else Some (devs, []))"
| "loop_step opts rs lvl (Sampling_tick ans now) devs = export_timer_sampling_cb opts ans now devs"
| "loop_step opts rs lvl Pktid_tick devs = Some (devs, export_timer_pktid_cb)"

fun loop_run :: "options \<Rightarrow> range_select list \<Rightarrow> int \<Rightarrow> loop_event list \<Rightarrow> device list \<Rightarrow> (device list \<times> probe_out list) option" where
  "loop_run opts rs lvl [] devs = Some (devs, [])"
| "loop_run opts rs lvl (e # es) devs = do {
     (devs, o1) \<leftarrow> loop_step opts rs lvl e devs;
     (devs, o2) \<leftarrow> loop_run opts rs lvl es devs;
     Some (devs, o1 @ o2) }"

text \<open>What the outputs say of device \<open>i\<close>: data records, and the sums of the reported counters.\<close>

fun data_of :: "nat \<Rightarrow> probe_out list \<Rightarrow> ipfix_event list" where
  "data_of i [] = []"
| "data_of i (Data j e # outs) = (if j = i then e # data_of i outs else data_of i outs)"
| "data_of i (Report j e # outs) = data_of i outs"
| "data_of i (Other e # outs) = data_of i outs"

fun reports :: "nat \<Rightarrow> probe_out list \<Rightarrow> ipfix_event list" where
  "reports i [] = []"
| "reports i (Report j e # outs) = (if j = i then e # reports i outs else reports i outs)"
| "reports i (Data j e # outs) = reports i outs"
| "reports i (Other e # outs) = reports i outs"

definition data_records :: "nat \<Rightarrow> probe_out list \<Rightarrow> nat" where
  "data_records i outs = exports (data_of i outs)"

definition report_counts :: "ipfix_event \<Rightarrow> u32 \<times> u64" where
  "report_counts e = (case e of Export _ (_ # (F32 n, _) # (F64 d, _) # _) \<Rightarrow> (n, d) | _ \<Rightarrow> (0, 0))"

definition reported_size :: "nat \<Rightarrow> probe_out list \<Rightarrow> u32" where
  "reported_size i outs = sum_list (map (fst \<circ> report_counts) (reports i outs))"

definition reported_delta :: "nat \<Rightarrow> probe_out list \<Rightarrow> u64" where
  "reported_delta i outs = sum_list (map (snd \<circ> report_counts) (reports i outs))"

lemma data_of_append: "data_of i (xs @ ys) = data_of i xs @ data_of i ys"
  by (induction i xs rule: data_of.induct) auto

lemma reports_append: "reports i (xs @ ys) = reports i xs @ reports i ys"
  by (induction i xs rule: reports.induct) auto

lemma data_of_map:
  "data_of i (map (Data j) evs) = (if j = i then evs else [])"
  "data_of i (map (Report j) evs) = []" "data_of i (map Other evs) = []"
  by (induction evs) auto

lemma reports_map:
  "reports i (map (Report j) evs) = (if j = i then evs else [])"
  "reports i (map (Data j) evs) = []" "reports i (map Other evs) = []"
  by (induction evs) auto

lemma outs_simps [simp]:
  "data_records i [] = 0" "reported_size i [] = 0" "reported_delta i [] = 0"
  "data_records i (xs @ ys) = data_records i xs + data_records i ys"
  "reported_size i (xs @ ys) = reported_size i xs + reported_size i ys"
  "reported_delta i (xs @ ys) = reported_delta i xs + reported_delta i ys"
  "data_records i (map (Data j) evs) = (if j = i then exports evs else 0)"
  "data_records i (map (Report j) evs) = 0" "data_records i (map Other evs) = 0"
  "reported_size i (map (Data j) evs) = 0" "reported_size i (map Other evs) = 0"
  "reported_delta i (map (Data j) evs) = 0" "reported_delta i (map Other evs) = 0"
  by (simp_all add: data_records_def reported_size_def reported_delta_def data_of_append reports_append data_of_map reports_map)

section \<open>The account of one device\<close>

text \<open>
  What is kept of a device: its pending counters plus what was reported, against the packets it
  captured and the data records it produced; and the export invariant and the device's name.
\<close>

definition device_inv :: "options \<Rightarrow> device \<Rightarrow> bool" where
  "device_inv opts dev \<longleftrightarrow> handle_inv opts dev \<and> length (device_name dev) < 65536"

definition accounted :: "options \<Rightarrow> nat \<Rightarrow> device list \<Rightarrow> device list \<Rightarrow> probe_out list \<Rightarrow> nat \<Rightarrow> bool" where
  "accounted opts i devs devs' outs n \<longleftrightarrow>
     sampling_size (devs' ! i) + reported_size i outs = sampling_size (devs ! i) + of_nat (data_records i outs)
   \<and> sampling_delta_count (devs' ! i) + reported_delta i outs = sampling_delta_count (devs ! i) + of_nat n"

lemma accounted_trans:
  assumes "accounted opts i a b o1 m" "accounted opts i b c o2 n"
  shows "accounted opts i a c (o1 @ o2) (m + n)"
proof -
  have "sampling_size (c ! i) + (reported_size i o1 + reported_size i o2)
      = (sampling_size (b ! i) + reported_size i o1) + of_nat (data_records i o2)"
    using assms(2) by (simp add: accounted_def algebra_simps)
  moreover have "sampling_delta_count (c ! i) + (reported_delta i o1 + reported_delta i o2)
      = (sampling_delta_count (b ! i) + reported_delta i o1) + of_nat n"
    using assms(2) by (simp add: accounted_def algebra_simps)
  ultimately show ?thesis using assms(1) by (simp add: accounted_def algebra_simps)
qed

lemma accounted_same:
  "devs' ! i = devs ! i \<Longrightarrow> data_records i outs = 0 \<Longrightarrow> reported_size i outs = 0 \<Longrightarrow> reported_delta i outs = 0
    \<Longrightarrow> accounted opts i devs devs' outs 0"
  by (simp add: accounted_def)

lemma device_inv_reset:
  "device_inv opts (dev\<lparr>sampling_size := n, sampling_delta_count := d\<rparr>) = device_inv opts dev"
  by (simp add: device_inv_def handle_inv_def exporting_def effective_template_def)

lemma handle_packets_name: "handle_packets opts rs lvl cs dev = Some (dev', evs) \<Longrightarrow> device_name dev' = device_name dev"
proof (induction cs arbitrary: dev evs)
  case (Cons c cs)
  then obtain dev1 e1 e2 where
    one: "handle_packet opts rs lvl c dev = Some (dev1, e1)" and rest: "handle_packets opts rs lvl cs dev1 = Some (dev', e2)"
    by (auto simp: bind_Some_conv)
  have "device_name dev1 = device_name dev"
    using handle_packet_ip [OF one] by (auto simp: Let_def elim: handle_ip_packet_cases)
  with Cons.IH [OF rest] show ?case by simp
qed simp

text \<open>The report of one device moves its counters into the report, or leaves both alone.\<close>

lemma sampling_report:
  assumes "device_inv opts (devs ! i)" and "i < length devs"
    and "export_data_interface_stats a (devs ! i) time (sampling_size (devs ! i)) (sampling_delta_count (devs ! i)) = Some (dev', evs)"
  shows "accounted opts i devs (devs[i := dev']) (map (Report i) evs) 0 \<and> device_inv opts dev'"
  using assms interface_stats_run [of "devs ! i" a time "sampling_size (devs ! i)" "sampling_delta_count (devs ! i)"]
  by (auto simp: device_inv_reset accounted_def reported_size_def reported_delta_def reports_map report_counts_def
      interface_stats_fields_def device_inv_def [of opts "devs ! i"] split: if_splits)

lemma accounted_other:
  assumes "j \<noteq> i"
  shows "accounted opts i devs (devs[j := d]) (map (Report j) evs) 0" "accounted opts i devs (devs[j := d]) (map (Data j) evs) 0"
  using assms by (simp_all add: accounted_def reported_size_def reported_delta_def reports_map)

definition devices_inv :: "options \<Rightarrow> device list \<Rightarrow> bool" where
  "devices_inv opts devs \<longleftrightarrow> unat (number_interfaces opts) \<le> length devs
     \<and> (\<forall>i < unat (number_interfaces opts). device_inv opts (devs ! i))"

lemma devices_inv_update:
  "devices_inv opts devs \<Longrightarrow> device_inv opts d \<Longrightarrow> devices_inv opts (devs[j := d])"
  by (cases "j < length devs") (auto simp: devices_inv_def nth_list_update)

lemma sampling_from_account:
  "sampling_from ans time j k devs = Some (devs', outs) \<Longrightarrow> devices_inv opts devs \<Longrightarrow>
     j + k \<le> unat (number_interfaces opts) \<Longrightarrow> devices_inv opts devs' \<and> accounted opts i devs devs' outs 0"
proof (induction ans time j k devs arbitrary: outs rule: sampling_from.induct)
  case (1 ans time j devs)
  then show ?case by (simp add: accounted_def)
next
  case (2 ans time j k devs)
  let ?dev = "devs ! j"
  from 2(2) obtain d evs rest where
    one: "export_data_interface_stats (ans j) ?dev time (sampling_size ?dev) (sampling_delta_count ?dev) = Some (d, evs)"
    and more: "sampling_from ans time (Suc j) k (devs[j := d]) = Some (devs', rest)"
    and outs: "outs = map (Report j) evs @ rest"
    by (auto simp: Let_def bind_Some_conv)
  have j: "j < length devs" "device_inv opts ?dev" using 2(3,4) by (auto simp: devices_inv_def)
  from sampling_report [OF j(2,1) one] have rep: "accounted opts j devs (devs[j := d]) (map (Report j) evs) 0" "device_inv opts d"
    by simp_all
  have step: "accounted opts i devs (devs[j := d]) (map (Report j) evs) 0"
    using rep(1) accounted_other(1) [of j i opts devs d evs] by (cases "j = i") auto
  have "devices_inv opts devs' \<and> accounted opts i (devs[j := d]) devs' rest 0"
    by (rule 2(1) [OF refl one]) (use more devices_inv_update [OF 2(3) rep(2)] 2(4) in auto)
  with accounted_trans [OF step, of devs' rest 0] show ?case by (simp add: outs)
qed

definition packets_of :: "options \<Rightarrow> nat \<Rightarrow> loop_event \<Rightarrow> nat" where
  "packets_of opts i e = (case e of Packets j cs \<Rightarrow> if j = i \<and> i < unat (number_interfaces opts) then length cs else 0 | _ \<Rightarrow> 0)"

lemma loop_step_account:
  assumes "loop_step opts rs lvl e devs = Some (devs', outs)" and inv: "devices_inv opts devs"
  shows "devices_inv opts devs' \<and> accounted opts i devs devs' outs (packets_of opts i e)"
proof (cases e)
  case (Packets j cs)
  show ?thesis
  proof (cases "j < unat (number_interfaces opts)")
    case True
    with assms(1) Packets obtain d evs where run: "handle_packets opts rs lvl cs (devs ! j) = Some (d, evs)"
      and res: "devs' = devs[j := d]" "outs = map (Data j) evs" by (auto simp: bind_Some_conv)
    have j: "j < length devs" "device_inv opts (devs ! j)" using inv True by (auto simp: devices_inv_def)
    from handle_packets_account [OF run] j(2) handle_packets_name [OF run]
    have d: "device_inv opts d" "sampling_size d = sampling_size (devs ! j) + of_nat (exports evs)"
      "sampling_delta_count d = sampling_delta_count (devs ! j) + of_nat (length cs)"
      by (auto simp: device_inv_def)
    have "accounted opts i devs devs' outs (packets_of opts i e)"
    proof (cases "j = i")
      case eq: True
      then show ?thesis using d j True by (simp add: accounted_def res packets_of_def Packets)
    next
      case False
      with accounted_other(2) [OF this] show ?thesis by (simp add: res packets_of_def Packets)
    qed
    with devices_inv_update [OF inv d(1)] show ?thesis by (simp add: res)
  next
    case False
    then have "packets_of opts i e = 0" by (auto simp: packets_of_def Packets)
    with False assms show ?thesis by (simp add: Packets accounted_def)
  qed
next
  case (Sampling_tick ans now)
  with assms(1) obtain o1 where run: "sampling_from ans (now * 1000) 0 (unat (number_interfaces opts)) devs = Some (devs', o1)"
    and outs: "outs = o1 @ map Other export_flush"
    by (auto simp: export_timer_sampling_cb_def bind_Some_conv)
  have "accounted opts i devs' devs' (map Other export_flush) 0" by (simp add: accounted_def)
  with sampling_from_account [OF run inv, of i] accounted_trans [of opts i devs devs' o1 0 devs' "map Other export_flush" 0]
  show ?thesis by (simp add: outs packets_of_def Sampling_tick)
next
  case Pktid_tick
  with assms show ?thesis by (auto simp: accounted_def packets_of_def export_timer_pktid_cb_def)
qed

lemma loop_run_account:
  "loop_run opts rs lvl es devs = Some (devs', outs) \<Longrightarrow> devices_inv opts devs \<Longrightarrow>
     devices_inv opts devs' \<and> accounted opts i devs devs' outs (sum_list (map (packets_of opts i) es))"
proof (induction es arbitrary: devs outs)
  case Nil
  then show ?case by (simp add: accounted_def)
next
  case (Cons e es)
  from Cons.prems(1) obtain devs1 o1 o2 where one: "loop_step opts rs lvl e devs = Some (devs1, o1)"
    and rest: "loop_run opts rs lvl es devs1 = Some (devs', o2)" and outs: "outs = o1 @ o2"
    by (auto simp: bind_Some_conv)
  from loop_step_account [OF one Cons.prems(2)] Cons.IH [OF rest] show ?case
    by (auto simp: outs intro: accounted_trans)
qed

section \<open>Properties\<close>

lemma location_record:
  assumes "\<forall>s \<in> {s_latitude opts, s_longitude opts, name, s_location_name opts}. length s < 65536"
  shows "record_ok export_fields_location [(F64 time, 8), (FBytes (ip_bytes (ipAddress opts)), 4),
       str_field (s_latitude opts), str_field (s_longitude opts), str_field name, str_field (s_location_name opts)]"
  using assms by (simp add: record_ok_def template_defs str_field_def unat_length16 ip_bytes_def)

lemma probe_stats_record: "record_ok export_fields_probe_stats (probe_stats_fields ps)"
  by (simp add: record_ok_def template_defs probe_stats_fields_def)

lemma sync_record:
  assumes "length msg < 65536"
  shows "record_ok export_fields_sync [(F64 time, 8), (F32 i, 4), (F32 v, 4), str_field msg]"
  using assms by (simp add: record_ok_def template_defs str_field_def unat_length16)

lemma event_ok_Export: "get_template t = Some tmpl \<Longrightarrow> record_ok tmpl fs \<Longrightarrow> event_ok (Export t fs)"
  by (simp add: event_ok_def)

lemma event_ok_Flush: "event_ok Flush"
  by (simp add: event_ok_def)

lemma then_flush_ok: "list_all event_ok evs \<Longrightarrow> list_all event_ok (then_flush evs)"
  by (simp add: then_flush_def event_ok_Flush)

lemma send_ok:
  assumes "get_template t = Some tmpl" "nf = length fs" "record_ok tmpl fs"
  shows "\<exists>evs. send_record t nf fs sent = Some evs \<and> list_all event_ok evs"
  using send_record_Some [OF assms, of sent] event_ok_Export [OF assms(1,3)] by simp

lemma export_location_run:
  assumes "\<forall>s \<in> {s_latitude opts, s_longitude opts, name, s_location_name opts}. length s < 65536" "s_probe_name opts = Some name"
  shows "\<exists>evs. export_data_location opts sent time = Some evs \<and> list_all event_ok evs"
proof -
  have "\<exists>evs. send_record LOCATION_ID 6 [(F64 time, 8), (FBytes (ip_bytes (ipAddress opts)), 4),
       str_field (s_latitude opts), str_field (s_longitude opts), str_field name, str_field (s_location_name opts)] sent
     = Some evs \<and> list_all event_ok evs"
    by (rule send_ok [OF get_template_ids(1) _ location_record]) (use assms(1) in auto)
  then show ?thesis using then_flush_ok by (auto simp: export_data_location_def assms(2))
qed

lemma export_probe_stats_run:
  assumes "names_fit fs"
  shows "\<exists>st' evs. export_data_probe_stats flo pagesize fs junk sent time st = Some (st', evs) \<and> list_all event_ok evs"
proof -
  obtain c ps st' where g: "get_probe_stats flo pagesize fs st (junk\<lparr>observationTimeMilliseconds := time\<rparr>) = Some (c, ps, st')"
    using get_probe_stats_total [OF assms] by blast
  have "length export_fields_probe_stats = length (probe_stats_fields ps)"
    by (simp add: template_defs probe_stats_fields_def)
  from send_ok [OF get_template_ids(3) this probe_stats_record, of sent] then_flush_ok g show ?thesis
    by (auto simp: export_data_probe_stats_def get_template_ids(3))
qed

text \<open>Whatever the files hold, a record that is built fits.\<close>

lemma export_probe_stats_ok:
  assumes "export_data_probe_stats flo pagesize fs junk sent time st = Some (st', evs)"
  shows "list_all event_ok evs"
proof -
  from assms obtain c ps where r: "send_record PROBE_STATS_ID (length export_fields_probe_stats) (probe_stats_fields ps) sent = Some c"
    and evs: "evs = then_flush c"
    by (auto simp: export_data_probe_stats_def get_template_ids(3) bind_Some_conv)
  have "length export_fields_probe_stats = length (probe_stats_fields ps)"
    by (simp add: template_defs probe_stats_fields_def)
  from send_ok [OF get_template_ids(3) this probe_stats_record, of sent] r evs then_flush_ok show ?thesis by auto
qed

text \<open>C8: The statistics reports account for everything: whatever the order of captured packets,
  sampling timer ticks and packet-id ticks, and whichever reports libipfix rejects, for every
  device the reported plus the pending samples are the data records it produced, and the
  reported plus the pending packet counts are the packets it captured.\<close>

theorem reports_account_for_packets:
  assumes "loop_run opts rs lvl es devs = Some (devs', outs)" and "devices_inv opts devs"
  shows "sampling_size (devs' ! i) + reported_size i outs = sampling_size (devs ! i) + of_nat (data_records i outs)
    \<and> sampling_delta_count (devs' ! i) + reported_delta i outs
        = sampling_delta_count (devs ! i) + of_nat (sum_list (map (packets_of opts i) es))
    \<and> devices_inv opts devs'"
  using loop_run_account [OF assms, of i] by (simp add: accounted_def)

text \<open>C20: Every record of the periodic exports is complete: with strings below 64 KiB, an
  interface report, a location record of a named probe and a synchronisation record is built
  without a fault and has the fields and lengths of its template; so is a probe statistics record,
  whatever \<^verbatim>\<open>/proc\<close> delivers or fails to deliver, as long as the name of the process, as it is scanned
  with its opening parenthesis, fits into the 16 bytes that the code has for it.\<close>

theorem periodic_records_fit_templates:
  assumes "\<forall>s \<in> {device_name dev, s_latitude opts, s_longitude opts, name, s_location_name opts, msg}. length s < 65536"
    and "s_probe_name opts = Some name"
  shows "(\<exists>dev' evs. export_data_interface_stats a dev time n d = Some (dev', evs) \<and> list_all event_ok evs)
    \<and> (\<exists>evs. export_data_location opts sent time = Some evs \<and> list_all event_ok evs)
    \<and> (\<exists>evs. export_data_sync sent time i v msg = Some evs \<and> list_all event_ok evs)
    \<and> (names_fit fs \<longrightarrow> (\<exists>st' evs. export_data_probe_stats flo pagesize fs junk sent time st = Some (st', evs) \<and> list_all event_ok evs))"
proof (intro conjI impI)
  have nm: "length (device_name dev) < 65536" and msg: "length msg < 65536" using assms(1) by simp_all
  show "\<exists>dev' evs. export_data_interface_stats a dev time n d = Some (dev', evs) \<and> list_all event_ok evs"
    using interface_stats_run [OF nm] event_ok_Export [OF get_template_ids(4) interface_stats_record [OF nm]] by simp
  show "\<exists>evs. export_data_location opts sent time = Some evs \<and> list_all event_ok evs"
    by (rule export_location_run [OF _ assms(2)]) (use assms(1) in auto)
  show "\<exists>evs. export_data_sync sent time i v msg = Some evs \<and> list_all event_ok evs"
    using send_ok [OF get_template_ids(2) _ sync_record [OF msg], of 4 time i v sent] then_flush_ok
    by (auto simp: export_data_sync_def)
qed (rule export_probe_stats_run)

definition demo_answer :: stat_answer where
  "demo_answer = \<lparr>sa_pcap = None, sa_junk = (0, 0), sa_sent = True\<rparr>"

theorem reports_account_for_packets_witness:
  "\<exists>devs' outs. loop_run demo_options [] 0 [Packets 0 [demo_capture], Sampling_tick (\<lambda>_. demo_answer) 0] [demo_device]
       = Some (devs', outs) \<and> sampling_delta_count (devs' ! 0) + reported_delta 0 outs = 1"
proof -
  have inv: "devices_inv demo_options [demo_device]"
    using demo_inv by (simp add: devices_inv_def device_inv_def demo_options_def demo_device_def zero_device_def)
  from demo_run obtain d evs where run: "handle_packets demo_options [] 0 [demo_capture] demo_device = Some (d, evs)" by blast
  have n: "unat (number_interfaces demo_options) = 1" by (simp add: demo_options_def)
  have nm: "length (device_name d) < 65536"
    using handle_packets_name [OF run] by (simp add: demo_device_def zero_device_def)
  obtain devs' outs where
    "loop_run demo_options [] 0 [Packets 0 [demo_capture], Sampling_tick (\<lambda>_. demo_answer) 0] [demo_device] = Some (devs', outs)"
    using run interface_stats_run [OF nm, of demo_answer]
    by (auto simp: n export_timer_sampling_cb_def Let_def simp del: handle_packets.simps)
  with reports_account_for_packets [OF this inv, of 0] show ?thesis
    by (auto simp: packets_of_def n demo_device_def zero_device_def)
qed

theorem periodic_records_fit_templates_witness:
  "(\<exists>evs. export_data_location (demo_options\<lparr>s_probe_name := Some ''probe''\<rparr>) True 0 = Some evs \<and> list_all event_ok evs)
    \<and> (\<exists>st evs. export_data_probe_stats (\<lambda>x. x) 4096 demo_files demo_stat True 0 demo_stats = Some (st, evs) \<and> list_all event_ok evs)"
  using periodic_records_fit_templates [where dev = demo_device and opts = "demo_options\<lparr>s_probe_name := Some ''probe''\<rparr>"
      and name = "''probe''" and msg = "''''" and sent = True and time = 0 and fs = demo_files and flo = "\<lambda>x. x" and pagesize = 4096
      and junk = demo_stat and st = demo_stats] demo_names_fit
  by (simp add: demo_options_def demo_device_def zero_device_def)

end
