(* ===== verification/Runtime_Config.thy ===== *)
theory Runtime_Config
  imports Netcon Devices Export_Props
begin

text \<open>
  The runtime configuration (\<^verbatim>\<open>src/config_handler.c\<close>): the commands that change the options,
  filters and timers of the running probe, the message format of the network console, and the
  user's input. Logging, which changes nothing, is left out.
\<close>

section \<open>State and environment\<close>

record runtime =
  rt_settings :: settings
  rt_sources :: sources
  rt_timers :: timers

text \<open>The C library, libpcap, whether libipfix accepts a record of an interface, and libev's time in
  seconds, a double.\<close>

record command_env =
  ce_libc :: libc
  ce_os :: "nat \<Rightarrow> os_answers"
  ce_sent :: "nat \<Rightarrow> bool"
  ce_now :: rat

definition set_rt_options :: "(options \<Rightarrow> options) \<Rightarrow> runtime \<Rightarrow> runtime" where
  "set_rt_options f rt = rt\<lparr>rt_settings := upd f (rt_settings rt)\<rparr>"

abbreviation (input) rt_opts :: "runtime \<Rightarrow> options" where "rt_opts rt \<equiv> s_opts (rt_settings rt)"
abbreviation (input) rt_devices :: "runtime \<Rightarrow> device list" where "rt_devices rt \<equiv> if_devices (rt_settings rt)"

section \<open>The command table\<close>

datatype cfg_fun = Cfg_help | Cfg_ratio | Cfg_min_selection | Cfg_max_selection | Cfg_filter | Cfg_template
  | Cfg_to_pktid | Cfg_to_probestats | Cfg_to_ifstats | Cfg_unknown

definition configuration_fct :: "(char \<times> cfg_fun \<times> string) list" where
  "configuration_fct = [
    (CHR ''?'', Cfg_help, ''INFO: -? this help'' @ NL),
    (CHR ''h'', Cfg_help, ''INFO: -h this help'' @ NL),
    (CHR ''r'', Cfg_ratio, ''INFO: -r capturing ratio in %'' @ NL),
    (CHR ''m'', Cfg_min_selection, ''INFO: -m capturing selection range min (hex|int)'' @ NL),
    (CHR ''M'', Cfg_max_selection, ''INFO: -M capturing selection range max (hex|int)'' @ NL),
    (CHR ''f'', Cfg_filter, ''INFO: -f bpf filter expression'' @ NL),
    (CHR ''t'', Cfg_template, ''INFO: -t template (ts|min|lp)'' @ NL),
    (CHR ''I'', Cfg_to_pktid, ''INFO: -I pktid export interval (s)'' @ NL),
    (CHR ''J'', Cfg_to_probestats, ''INFO: -J porbe stats export interval (s)'' @ NL),
    (CHR ''K'', Cfg_to_ifstats, ''INFO: -K interface stats export interval (s)'' @ NL)]"

definition get_cfg_fct :: "char \<Rightarrow> (char \<times> cfg_fun \<times> string) option" where
  "get_cfg_fct cmd = find (\<lambda>(c, _). cmd = c) configuration_fct"

definition getFunction :: "char \<Rightarrow> cfg_fun" where
  "getFunction cmd = (case get_cfg_fct cmd of Some (_, f, _) \<Rightarrow> f | None \<Rightarrow> Cfg_unknown)"

section \<open>Commands\<close>

text \<open>\<^verbatim>\<open>snprintf\<close> into \<^verbatim>\<open>cfg_response[256]\<close>.\<close>

definition SET_CFG_RESPONSE :: "string \<Rightarrow> string" where
  "SET_CFG_RESPONSE s = take 255 s"

definition unknown_cmd_fct :: string where
  "unknown_cmd_fct = ''unknown command received''"

definition configuration_help :: "string \<Rightarrow> string" where
  "configuration_help msg = (case get_cfg_fct (case msg of [] \<Rightarrow> NUL | c # _ \<Rightarrow> c) of
       Some (_, _, desc) \<Rightarrow> desc
     | None \<Rightarrow> concat (map (\<lambda>(_, _, desc). desc) configuration_fct))"

fun reset_templates :: "nat \<Rightarrow> device list \<Rightarrow> device list" where
  "reset_templates 0 devs = devs"
| "reset_templates (Suc n) devs = (reset_templates n devs)[n := (reset_templates n devs ! n)\<lparr>template_id := - 1\<rparr>]"

definition configuration_set_template :: "string \<Rightarrow> runtime \<Rightarrow> string \<times> runtime" where
  "configuration_set_template msg rt =
     (let t_id = word_of_int (parse_template msg) :: u32 in
      if - 1 = t_id then (SET_CFG_RESPONSE (''INFO: unknown template: '' @ msg), rt)
      else
        (let n = unat (number_interfaces (rt_opts rt));
             rt = rt\<lparr>rt_settings := (rt_settings rt)\<lparr>if_devices := reset_templates n (rt_devices rt)\<rparr>\<rparr>;
             rt = set_rt_options (\<lambda>x. x\<lparr>templateID := t_id\<rparr>) rt
         in (SET_CFG_RESPONSE (''INFO: new template set: '' @ msg), rt)))"

definition configuration_set_filter :: "command_env \<Rightarrow> string \<Rightarrow> runtime \<Rightarrow> (string \<times> runtime) option" where
  "configuration_set_filter env msg rt = do {
     (r, srcs) \<leftarrow> set_all_filter (ce_os env) (rt_opts rt) (rt_devices rt) msg (rt_sources rt);
     let rt = rt\<lparr>rt_sources := srcs\<rparr>;
     Some (if - 1 = r then (SET_CFG_RESPONSE (''INFO: error setting filter: '' @ msg), rt)
           else (SET_CFG_RESPONSE (''INFO: new filter expression set: '' @ msg), rt)) }"

text \<open>\<^verbatim>\<open>strtol\<close> yields a \<^verbatim>\<open>long\<close>, which is stored in an \<^verbatim>\<open>int\<close>.\<close>

definition new_timeout :: "string \<Rightarrow> int" where
  "new_timeout msg = wrap_int (strtoll0 msg)"

definition set_repeat :: "int \<Rightarrow> ev_timer \<Rightarrow> ev_timer" where
  "set_repeat n w = ev_timer_again (w\<lparr>t_repeat := of_int n\<rparr>)"

definition configuration_set_export_to_probestats :: "string \<Rightarrow> runtime \<Rightarrow> string \<times> runtime" where
  "configuration_set_export_to_probestats msg rt =
     (if 0 \<le> new_timeout msg
      then (SET_CFG_RESPONSE (''INFO: new probestats export timeout set: '' @ msg),
            rt\<lparr>rt_timers := (rt_timers rt)\<lparr>export_timer_stats := set_repeat (new_timeout msg) (export_timer_stats (rt_timers rt))\<rparr>\<rparr>)
      else (SET_CFG_RESPONSE ''INFO: probestats export timeout NOT changed'', rt))"

definition configuration_set_export_to_ifstats :: "string \<Rightarrow> runtime \<Rightarrow> string \<times> runtime" where
  "configuration_set_export_to_ifstats msg rt =
     (if 0 \<le> new_timeout msg
      then (SET_CFG_RESPONSE (''INFO: new ifstats export timeout set: '' @ msg),
            rt\<lparr>rt_timers := (rt_timers rt)\<lparr>export_timer_sampling := set_repeat (new_timeout msg) (export_timer_sampling (rt_timers rt))\<rparr>\<rparr>)
      else (SET_CFG_RESPONSE ''INFO: ifstats export timeout NOT changed'', rt))"

definition configuration_set_export_to_pktid :: "string \<Rightarrow> runtime \<Rightarrow> string \<times> runtime" where
  "configuration_set_export_to_pktid msg rt =
     (if 0 \<le> new_timeout msg
      then (SET_CFG_RESPONSE (''INFO: new packet export timeout set: '' @ msg),
            rt\<lparr>rt_timers := (rt_timers rt)\<lparr>export_timer_pkid := set_repeat (new_timeout msg) (export_timer_pkid (rt_timers rt))\<rparr>\<rparr>)
      else (SET_CFG_RESPONSE ''INFO: packet export timeout NOT changed'', rt))"

text \<open>The bounds are printed with \<^verbatim>\<open>%d\<close>, as signed numbers.\<close>

definition configuration_set_min_selection :: "string \<Rightarrow> runtime \<Rightarrow> string \<times> runtime" where
  "configuration_set_min_selection msg rt =
     (let rt = set_rt_options (\<lambda>x. set_sampling_lowerbound x msg) rt
      in (SET_CFG_RESPONSE (''INFO: minimum selection range set: '' @ int_string (sint (sel_range_min (rt_opts rt)))), rt))"

definition configuration_set_max_selection :: "string \<Rightarrow> runtime \<Rightarrow> string \<times> runtime" where
  "configuration_set_max_selection msg rt =
     (let rt = set_rt_options (\<lambda>x. set_sampling_upperbound x msg) rt
      in (SET_CFG_RESPONSE (''INFO: maximum selection range set: '' @ int_string (sint (sel_range_max (rt_opts rt)))), rt))"

text \<open>\<^verbatim>\<open>set_sampling_ratio\<close> always returns 0.\<close>

definition configuration_set_ratio :: "command_env \<Rightarrow> string \<Rightarrow> runtime \<Rightarrow> string \<times> runtime" where
  "configuration_set_ratio env msg rt =
     (SET_CFG_RESPONSE (''INFO: new sampling ratio set: '' @ msg),
      set_rt_options (\<lambda>x. set_sampling_ratio (rounding (ce_libc env)) x msg) rt)"

fun run_cfg :: "command_env \<Rightarrow> cfg_fun \<Rightarrow> string \<Rightarrow> runtime \<Rightarrow> (string \<times> runtime) option" where
  "run_cfg env Cfg_help msg rt = Some (configuration_help msg, rt)"
| "run_cfg env Cfg_ratio msg rt = Some (configuration_set_ratio env msg rt)"
| "run_cfg env Cfg_min_selection msg rt = Some (configuration_set_min_selection msg rt)"
| "run_cfg env Cfg_max_selection msg rt = Some (configuration_set_max_selection msg rt)"
| "run_cfg env Cfg_filter msg rt = configuration_set_filter env msg rt"
| "run_cfg env Cfg_template msg rt = Some (configuration_set_template msg rt)"
| "run_cfg env Cfg_to_pktid msg rt = Some (configuration_set_export_to_pktid msg rt)"
| "run_cfg env Cfg_to_probestats msg rt = Some (configuration_set_export_to_probestats msg rt)"
| "run_cfg env Cfg_to_ifstats msg rt = Some (configuration_set_export_to_ifstats msg rt)"
| "run_cfg env Cfg_unknown msg rt = Some (unknown_cmd_fct, rt)"

section \<open>Messages of the console\<close>

text \<open>
  \<^verbatim>\<open>sscanf(conf_msg, "mid: %lu ", &mID)\<close>: the literal, white space, a decimal number with an
  optional sign, which is reduced or saturated to 64 bits.
\<close>

definition sscanf_mid :: "string \<Rightarrow> u64 option" where
  "sscanf_mid s =
     (if take 4 s \<noteq> ''mid:'' then None
      else (let (neg, u) = split_sign (dropWhile c_isspace (drop 4 s)); ds = takeWhile c_isdigit u; v = dec_value ds in
        if ds = [] then None
        else if 2 ^ 64 \<le> v then Some (- 1)
        else Some (if neg then - of_nat v else of_nat v)))"

text \<open>The C string at a position of the message array, which has to end inside it.\<close>

definition string_at :: "string \<Rightarrow> nat \<Rightarrow> string option" where
  "string_at arr k = (if NUL \<in> set (drop k arr) then Some (cstr (drop k arr)) else None)"

fun sync_from :: "(nat \<Rightarrow> bool) \<Rightarrow> u64 \<Rightarrow> u32 \<Rightarrow> string \<Rightarrow> nat \<Rightarrow> nat \<Rightarrow> ipfix_event list option" where
  "sync_from sent time mid rsp i 0 = Some []"
| "sync_from sent time mid rsp i (Suc k) = do {
     evs \<leftarrow> export_data_sync (sent i) time mid 0 rsp;
     rest \<leftarrow> sync_from sent time mid rsp (Suc i) k;
     Some (evs @ rest) }"

text \<open>
  The time of the record: the product of doubles, converted to an \<^verbatim>\<open>int64_t\<close>. What does not fit
  becomes the least number, as on x86-64.
\<close>

definition double_to_i64 :: "rat \<Rightarrow> u64" where
  "double_to_i64 x = (let v = trunc_rat x in if - (2 ^ 63) \<le> v \<and> v < 2 ^ 63 then word_of_int v else word_of_int (- (2 ^ 63)))"

definition sync_time :: "command_env \<Rightarrow> u64" where
  "sync_time env = double_to_i64 (rounding (ce_libc env) (ce_now env * 1000))"

text \<open>
  The command follows the first hyphen of the whole message, also when that is the sign of the
  number. A hyphen at the end makes the character behind the NUL the argument.
\<close>

definition runtime_configuration_cb :: "command_env \<Rightarrow> string \<Rightarrow> runtime \<Rightarrow> (int \<times> runtime \<times> ipfix_event list) option" where
  "runtime_configuration_cb env arr rt = do {
     conf_msg \<leftarrow> string_at arr 0;
     case sscanf_mid conf_msg of
       None \<Rightarrow> Some (NETCON_CMD_UNKNOWN, rt, [])
     | Some mID \<Rightarrow>
         (let i = length (takeWhile (\<lambda>c. c \<noteq> CHR ''-'') conf_msg) in
          if i < length conf_msg then do {
            let cmd = arr ! (i + 1);
            arg \<leftarrow> string_at arr (i + 2);
            (rsp_msg, rt) \<leftarrow> run_cfg env (getFunction cmd) (dropWhile c_isspace arg) rt;
            evs \<leftarrow> sync_from (ce_sent env) (sync_time env) (ucast mID) rsp_msg 0 (unat (number_interfaces (rt_opts rt)));
            Some (NETCON_CMD_MATCHED, rt, evs) }
          else Some (NETCON_CMD_UNKNOWN, rt, [])) }"

text \<open>The functions that are registered with the console, and what the exporter was given so far.\<close>

datatype cmd_fn = Runtime_configuration_cb

fun call_cmd :: "command_env \<Rightarrow> cmd_fn \<Rightarrow> string \<Rightarrow> runtime \<times> ipfix_event list \<Rightarrow>
    (int \<times> runtime \<times> ipfix_event list) option" where
  "call_cmd env Runtime_configuration_cb msg (rt, evs) =
     map_option (\<lambda>(r, rt, new). (r, rt, evs @ new)) (runtime_configuration_cb env msg rt)"

definition config_handler_init :: "bool \<Rightarrow> cmd_fn netcon \<Rightarrow> cmd_fn netcon" where
  "config_handler_init alloc nc = netcon_register alloc (Some Runtime_configuration_cb) nc"

section \<open>User input\<close>

definition c_isalpha :: "char \<Rightarrow> bool" where
  "c_isalpha c \<longleftrightarrow> 97 \<le> (of_char (c_tolower c) :: nat) \<and> (of_char (c_tolower c) :: nat) \<le> 122"

text \<open>What the program calls of libipfix when it ends.\<close>

datatype lib_call = Export_flush | Close | Cleanup

text \<open>\<open>Quit\<close>: the process exits from within the callback, with the calls made until then.\<close>

datatype input_result = Quit int "lib_call list" | Stay runtime string | Broken

text \<open>\<open>line\<close> is what \<^verbatim>\<open>fgets\<close> stored: up to 128 characters, the line end among them, or nothing.\<close>

definition user_input_cb :: "command_env \<Rightarrow> string option \<Rightarrow> runtime \<Rightarrow> input_result" where
  "user_input_cb env line rt = (case line of
       None \<Rightarrow> Stay rt []
     | Some l \<Rightarrow>
         (let buffer = cstr l in
          if strn_eq buffer ''exit'' 4 \<or> strn_eq buffer ''quit'' 4 then Quit 0 []
          else (case dropWhile (\<lambda>c. \<not> c_isalpha c) buffer of
              [] \<Rightarrow> Stay rt []
            | cmd # b \<Rightarrow>
                (case run_cfg env (getFunction cmd) (dropWhile c_isspace b) rt of
                   None \<Rightarrow> Broken
                 | Some (rsp_msg, rt) \<Rightarrow> Stay rt rsp_msg))))"

section \<open>Commands keep the invariant of the settings\<close>

lemma reset_templates_length [simp]: "length (reset_templates n devs) = length devs"
  by (induction n) auto

lemma reset_templates_nth:
  "i < length devs \<Longrightarrow> reset_templates n devs ! i = (if i < n then (devs ! i)\<lparr>template_id := - 1\<rparr> else devs ! i)"
  by (induction n) (auto simp: nth_list_update less_Suc_eq)

lemma set_template_ok:
  assumes "configuration_set_template msg rt = (rsp, rt')" and "settings_ok (rt_settings rt)"
  shows "settings_ok (rt_settings rt')"
proof (cases "word_of_int (parse_template msg) = (- 1 :: u32)")
  case True
  with assms show ?thesis by (simp add: configuration_set_template_def)
next
  case False
  then have t: "(word_of_int (parse_template msg) :: u32) \<in> data_template_ids"
    using parse_template_range [of msg] by auto
  let ?s = "(rt_settings rt)\<lparr>if_devices := reset_templates (unat (number_interfaces (rt_opts rt))) (rt_devices rt)\<rparr>"
  have "settings_ok ?s"
    using assms(2) by (auto simp: settings_ok_def opts_ok_def reset_templates_nth device_ok_def)
  then have "settings_ok (upd (\<lambda>x. x\<lparr>templateID := word_of_int (parse_template msg)\<rparr>) ?s)"
    by (rule settings_ok_upd) (use t assms(2) in \<open>simp_all add: settings_ok_def opts_ok_def\<close>)
  with False assms(1) show ?thesis
    by (auto simp: configuration_set_template_def set_rt_options_def Let_def)
qed

lemma set_bounds_interfaces:
  "number_interfaces (set_sampling_lowerbound x a) = number_interfaces x"
  "number_interfaces (set_sampling_upperbound x a) = number_interfaces x"
  "number_interfaces (set_sampling_ratio rd x a) = number_interfaces x"
  by (simp_all add: set_sampling_lowerbound_def set_sampling_upperbound_def set_sampling_ratio_def Let_def)

lemma set_rt_options_ok:
  assumes "settings_ok (rt_settings rt)" "\<And>x. opts_ok x \<Longrightarrow> opts_ok (f x)" "\<And>x. number_interfaces (f x) = number_interfaces x"
  shows "settings_ok (rt_settings (set_rt_options f rt))"
  using settings_ok_upd [OF assms(1), of f] assms by (simp add: set_rt_options_def settings_ok_def)

lemma run_cfg_ok:
  assumes "run_cfg env f msg rt = Some (rsp, rt')" and ok: "settings_ok (rt_settings rt)"
  shows "settings_ok (rt_settings rt')"
proof -
  note keep = set_rt_options_ok [OF ok set_bounds_ok(1) set_bounds_interfaces(1)]
    set_rt_options_ok [OF ok set_bounds_ok(2) set_bounds_interfaces(2)]
    set_rt_options_ok [OF ok set_sampling_ratio_ok set_bounds_interfaces(3)]
  show ?thesis
    using assms(1) ok by (cases f) (auto simp: configuration_set_ratio_def configuration_set_min_selection_def
        configuration_set_max_selection_def configuration_set_filter_def configuration_set_export_to_pktid_def
        configuration_set_export_to_probestats_def configuration_set_export_to_ifstats_def bind_Some_conv Let_def
        intro: keep dest: set_template_ok split: if_splits)
qed

text \<open>The runtime configuration meets the contract of the console.\<close>

interpretation runtime_console: command_callbacks "call_cmd env" "\<lambda>(rt, evs). settings_ok (rt_settings rt)" for env
proof
  fix c msg s r s'
  assume "call_cmd env c msg s = Some (r, s')" and ok: "case s of (rt, evs) \<Rightarrow> settings_ok (rt_settings rt)"
  then obtain rt evs rt' new where "s = (rt, evs)" "s' = (rt', evs @ new)" and run: "runtime_configuration_cb env msg rt = Some (r, rt', new)"
    by (cases s; cases c) auto
  with ok show "case s' of (rt, evs) \<Rightarrow> settings_ok (rt_settings rt)"
    by (auto simp: runtime_configuration_cb_def bind_Some_conv Let_def split: option.splits if_splits dest: run_cfg_ok)
qed

section \<open>The command protocol\<close>

lemma cfg_table_lengths: "\<forall>(c, f, d) \<in> set configuration_fct. length d < 60"
  by (simp add: configuration_fct_def)

lemma help_length: "length (configuration_help msg) < 65536"
proof (cases "get_cfg_fct (case msg of [] \<Rightarrow> NUL | c # _ \<Rightarrow> c)")
  case None
  then show ?thesis by (simp add: configuration_help_def configuration_fct_def)
next
  case (Some e)
  then have "e \<in> set configuration_fct" by (metis get_cfg_fct_def find_Some_iff nth_mem)
  with cfg_table_lengths Some show ?thesis by (cases e) (fastforce simp: configuration_help_def)
qed

lemma response_length: "length (SET_CFG_RESPONSE s) < 65536"
  by (simp add: SET_CFG_RESPONSE_def)

lemma run_cfg_response:
  assumes "run_cfg env f msg rt = Some (rsp, rt')" shows "length rsp < 65536"
  using assms help_length response_length
  by (cases f) (auto simp: configuration_set_ratio_def configuration_set_min_selection_def
        configuration_set_max_selection_def configuration_set_filter_def configuration_set_export_to_pktid_def
        configuration_set_export_to_probestats_def configuration_set_export_to_ifstats_def bind_Some_conv Let_def
        configuration_set_template_def unknown_cmd_fct_def split: if_splits)

text \<open>One synchronisation record per interface, each with a flush, unless libipfix rejects it.\<close>

definition sync_records :: "command_env \<Rightarrow> u32 \<Rightarrow> string \<Rightarrow> nat list \<Rightarrow> ipfix_event list" where
  "sync_records env mid rsp is = concat (map (\<lambda>i. if ce_sent env i
     then [Export SYNC_ID [(F64 (sync_time env), 8), (F32 mid, 4), (F32 0, 4), str_field rsp], Flush] else []) is)"

lemma sync_from_records:
  assumes "length rsp < 65536"
  shows "sync_from (ce_sent env) (sync_time env) mid rsp i k = Some (sync_records env mid rsp [i..<i + k])"
proof (induction k arbitrary: i)
  case (Suc k)
  have "export_data_sync (ce_sent env i) (sync_time env) mid 0 rsp = Some (sync_records env mid rsp [i])"
    using send_record_Some [OF get_template_ids(2) _ sync_record [OF assms], of 4]
    by (simp add: export_data_sync_def sync_records_def then_flush_def)
  with Suc.IH [of "Suc i"] show ?case by (simp add: upt_conv_Cons sync_records_def del: upt_Suc)
qed (simp add: sync_records_def)

lemma string_at_body: "NUL \<notin> set s \<Longrightarrow> string_at (pre @ s @ NUL # pad) (length pre) = Some s"
  by (simp add: string_at_def cstr_def takeWhile_NUL)

lemma hyphen_index: "CHR ''-'' \<notin> set pre \<Longrightarrow> takeWhile (\<lambda>c. c \<noteq> CHR ''-'') (pre @ CHR ''-'' # s) = pre"
  by (induction pre) auto

lemma runtime_configuration_command:
  assumes "CHR ''-'' \<notin> set pre" "NUL \<notin> set (pre @ c # arg)" and "sscanf_mid (pre @ CHR ''-'' # c # arg) = Some mid"
    and "run_cfg env (getFunction c) (dropWhile c_isspace arg) rt = Some (rsp, rt')"
  shows "runtime_configuration_cb env (pre @ CHR ''-'' # c # arg @ NUL # pad) rt
    = Some (NETCON_CMD_MATCHED, rt', sync_records env (ucast mid) rsp [0..<unat (number_interfaces (rt_opts rt'))])"
proof -
  have "string_at (pre @ CHR ''-'' # c # arg @ NUL # pad) 0 = Some (pre @ CHR ''-'' # c # arg)"
    using string_at_body [of "pre @ CHR ''-'' # c # arg" "[]" pad] assms(2) by simp
  moreover have "string_at (pre @ CHR ''-'' # c # arg @ NUL # pad) (Suc (Suc (length pre))) = Some arg"
    using string_at_body [of arg "pre @ [CHR ''-'', c]" pad] assms(2) by simp
  ultimately show ?thesis
    using assms sync_from_records [OF run_cfg_response [OF assms(4)], of env "ucast mid" 0]
    by (simp add: runtime_configuration_cb_def hyphen_index nth_append)
qed

lemma space_char: "c_isspace CHR '' ''"
  by (simp add: c_isspace_def)

lemma sscanf_mid_dec_string:
  assumes n: "n < 2 ^ 64" and rest: "rest = [] \<or> \<not> c_isdigit (hd rest)"
  shows "sscanf_mid (''mid: '' @ dec_string n @ rest) = Some (of_nat n)"
proof -
  obtain c cs where c: "dec_string n = c # cs" "c_isdigit c" using dec_string_Cons by blast
  have "takeWhile c_isdigit (dec_string n @ rest) = dec_string n @ takeWhile c_isdigit rest"
    using dec_string_digits by (simp add: takeWhile_append2)
  also have "takeWhile c_isdigit rest = []" using rest by (cases rest) auto
  finally have tw: "takeWhile c_isdigit (dec_string n @ rest) = dec_string n" by simp
  have "dropWhile c_isspace ('' '' @ dec_string n @ rest) = dec_string n @ rest"
    using c digit_not_special [of c] space_char by simp
  moreover have "split_sign (dec_string n @ rest) = (False, dec_string n @ rest)"
    using c digit_not_special [of c] by (simp add: split_sign_def)
  ultimately show ?thesis using n tw by (simp add: sscanf_mid_def)
qed

lemma dec_string_not_in: "\<not> c_isdigit c \<Longrightarrow> c \<notin> set (dec_string n)"
  using dec_string_digits by blast

lemma cfg_letters:
  "getFunction CHR ''I'' = Cfg_to_pktid" "getFunction CHR ''J'' = Cfg_to_probestats" "getFunction CHR ''K'' = Cfg_to_ifstats"
  "getFunction CHR ''t'' = Cfg_template" "getFunction CHR ''m'' = Cfg_min_selection" "getFunction CHR ''h'' = Cfg_help"
  by (simp_all add: getFunction_def get_cfg_fct_def configuration_fct_def)

lemma run_cfg_total: "f \<noteq> Cfg_filter \<Longrightarrow> \<exists>rsp rt'. run_cfg env f msg rt = Some (rsp, rt')"
  by (cases f) (auto simp: prod_eq_iff)

section \<open>Properties\<close>

definition demo_runtime :: runtime where
  "demo_runtime = \<lparr>rt_settings = initial_settings, rt_sources = Map.empty, rt_timers = export_handler_init (s_opts initial_settings)\<rparr>"

definition demo_env :: command_env where
  "demo_env = \<lparr>ce_libc = demo_libc [], ce_os = (\<lambda>_. \<lparr>os_pcap = None, os_datalink = DLT_EN10MB, os_inet_socket = 3, os_ifaddr = (\<lambda>_. None), os_stack = 0, os_gai = 0,
     os_addrinfo = [], os_socket = 0, os_bind = 0, os_connect = 0, os_compile = (\<lambda>_. True), os_setfilter = (\<lambda>_. True),
     os_flags = 2, os_nonblock = True, os_getfl = True, os_setfl = True\<rparr>),
     ce_sent = (\<lambda>_. True), ce_now = 3 / 2\<rparr>"

text \<open>C21: Whatever arrives on the console and whatever the user types, the settings of the running
  probe keep their invariant: the hash window is not inverted, every active device has its hash
  buffer and a template that exports data records, and a packet id is defined.\<close>

theorem runtime_commands_keep_settings:
  assumes "net_run (call_cmd env) es nc (rt, evs) = Some (nc', rt', evs')" and "user_input_cb env line rt' = Stay rt'' rsp"
    and "settings_ok (rt_settings rt)"
  shows "settings_ok (rt_settings rt') \<and> settings_ok (rt_settings rt'')"
proof -
  have ok: "settings_ok (rt_settings rt')"
    using runtime_console.net_run_inv [OF assms(1)] assms(3) by simp
  with assms(2) show ?thesis
    by (auto simp: user_input_cb_def Let_def split: option.splits if_splits list.splits dest: run_cfg_ok)
qed

text \<open>A command on the connection, and then one on the terminal.\<close>

definition demo_console :: "cmd_fn netcon" where
  "demo_console = \<lparr>reg = [Runtime_configuration_cb], conn = [calloc_connection\<lparr>c_fd := 5, c_sync := True, c_reading := True\<rparr>]\<rparr>"

theorem runtime_commands_keep_settings_witness:
  "\<exists>nc' rt evs rt' rsp. net_run (call_cmd demo_env) [Readable 5 False True (''mid: 7 -m 5'' @ NL)] demo_console (demo_runtime, []) = Some (nc', rt, evs)
     \<and> sel_range_min (rt_opts rt) = 5 \<and> user_input_cb demo_env (Some (''M 9'' @ NL)) rt = Stay rt' rsp
     \<and> sel_range_max (rt_opts rt') = 9 \<and> settings_ok (rt_settings rt')"
proof -
  have nums: "strtoll0 ''5'' = 5" "strtoll0 (''9'' @ NL) = 9" by code_simp+
  have letters: "getFunction CHR ''M'' = Cfg_max_selection" by (simp add: getFunction_def get_cfg_fct_def configuration_fct_def)
  let ?rt = "set_rt_options (\<lambda>x. set_sampling_lowerbound x ''5'') demo_runtime"
  have "\<exists>rsp. run_cfg demo_env (getFunction CHR ''m'') (dropWhile c_isspace '' 5'') demo_runtime = Some (rsp, ?rt)"
    by (simp add: cfg_letters configuration_set_min_selection_def c_isspace_def Let_def)
  then obtain rsp where run: "run_cfg demo_env (getFunction CHR ''m'') (dropWhile c_isspace '' 5'') demo_runtime = Some (rsp, ?rt)" ..
  have seven: "dec_string 7 = ''7''" by code_simp
  have mid: "sscanf_mid (''mid: 7 '' @ CHR ''-'' # CHR ''m'' # '' 5'') = Some 7"
    using sscanf_mid_dec_string [of 7 "'' -m 5''"] by (simp add: seven c_isdigit_def)
  have "\<exists>evs. call_cmd demo_env Runtime_configuration_cb (line_array ''mid: 7 -m 5'' NL) (demo_runtime, []) = Some (NETCON_CMD_MATCHED, ?rt, evs)"
    using runtime_configuration_command [OF _ _ mid run, of "[NUL]"] by (simp add: line_array_def)
  then obtain evs where call: "call_cmd demo_env Runtime_configuration_cb (line_array ''mid: 7 -m 5'' NL) (demo_runtime, []) = Some (NETCON_CMD_MATCHED, ?rt, evs)" ..
  have line: "console_line ''mid: 7 -m 5'' NL" by (simp add: console_line_def c_iscntrl_def)
  have slot: "slot_ok (calloc_connection\<lparr>c_fd := 5, c_sync := True, c_reading := True\<rparr>)" by (simp add: slot_ok_def calloc_connection_def)
  obtain c' where "read_cb (call_cmd demo_env) [Runtime_configuration_cb] False True (''mid: 7 -m 5'' @ NL)
      (calloc_connection\<lparr>c_fd := 5, c_sync := True, c_reading := True\<rparr>) (demo_runtime, []) = Some (Some c', ?rt, evs)"
    using console_line_delivered [where cmds = "[]" and call = "call_cmd demo_env", OF line slot call] by blast
  then have net: "\<exists>nc'. net_run (call_cmd demo_env) [Readable 5 False True (''mid: 7 -m 5'' @ NL)] demo_console (demo_runtime, []) = Some (nc', ?rt, evs)"
    by (simp add: demo_console_def slot_of_def fire_def)
  have low: "rt_opts ?rt = set_sampling_lowerbound (s_opts initial_settings) ''5''"
    by (simp add: set_rt_options_def upd_def demo_runtime_def)
  have max: "sel_range_max (set_sampling_upperbound (set_sampling_lowerbound x ''5'') (''9'' @ NL)) = 9"
    and min: "sel_range_min (set_sampling_lowerbound x ''5'') = 5" for x
    using nums by (simp_all add: set_sampling_upperbound_def set_sampling_lowerbound_def clamp_u32_def Let_def)
  have "\<exists>rsp. user_input_cb demo_env (Some (''M 9'' @ NL)) ?rt = Stay (set_rt_options (\<lambda>x. set_sampling_upperbound x (''9'' @ NL)) ?rt) rsp"
    by (simp add: user_input_cb_def cstr_def strn_eq_def c_isalpha_def c_tolower_def letters configuration_set_max_selection_def c_isspace_def Let_def)
  then obtain rsp' where i: "user_input_cb demo_env (Some (''M 9'' @ NL)) ?rt = Stay (set_rt_options (\<lambda>x. set_sampling_upperbound x (''9'' @ NL)) ?rt) rsp'" ..
  have "settings_ok (rt_settings demo_runtime)" by (simp add: demo_runtime_def initial_settings_ok)
  moreover obtain nc' where nc': "net_run (call_cmd demo_env) [Readable 5 False True (''mid: 7 -m 5'' @ NL)] demo_console (demo_runtime, []) = Some (nc', ?rt, evs)"
    using net by blast
  ultimately have "settings_ok (rt_settings (set_rt_options (\<lambda>x. set_sampling_upperbound x (''9'' @ NL)) ?rt))"
    using runtime_commands_keep_settings [OF nc' i] by blast
  moreover have "sel_range_max (rt_opts (set_rt_options (\<lambda>x. set_sampling_upperbound x (''9'' @ NL)) ?rt)) = 9"
    using max low by (simp add: set_rt_options_def upd_def)
  moreover have "sel_range_min (rt_opts ?rt) = 5" using min low by simp
  ultimately show ?thesis using nc' i by blast
qed

text \<open>C13: The command protocol: the message \<open>mid: <n> -<c> <argument>\<close> runs the command of the letter
  \<open>c\<close> on the argument, without the line end, reports the message as taken, and answers with one
  synchronisation record per interface, each followed by a flush, that carries the time in
  milliseconds, the message number modulo 2^32 and the response of the command; records that
  libipfix rejects are left out.\<close>

theorem command_protocol:
  assumes "n < 2 ^ 64" "c \<noteq> NUL" "NUL \<notin> set arg" "arg = [] \<or> \<not> c_isspace (hd arg)"
    and "run_cfg env (getFunction c) arg rt = Some (rsp, rt')"
  shows "runtime_configuration_cb env (line_array (''mid: '' @ dec_string n @ '' -'' @ c # '' '' @ arg) eol) rt
    = Some (1, rt', sync_records env (of_nat n) rsp [0..<unat (number_interfaces (rt_opts rt'))])"
proof -
  let ?pre = "''mid: '' @ dec_string n @ '' ''"
  have pre: "CHR ''-'' \<notin> set ?pre" "NUL \<notin> set (?pre @ c # '' '' @ arg)"
    using assms(2,3) dec_string_not_in [of "CHR ''-''"] dec_string_not_in [of NUL] by (auto simp: c_isdigit_def)
  have mid: "sscanf_mid (?pre @ CHR ''-'' # c # '' '' @ arg) = Some (of_nat n)"
    using sscanf_mid_dec_string [OF assms(1), of "'' -'' @ c # '' '' @ arg"] by (simp add: c_isdigit_def)
  have "dropWhile c_isspace ('' '' @ arg) = arg" using assms(4) space_char by (cases arg) auto
  with assms(5) have run: "run_cfg env (getFunction c) (dropWhile c_isspace ('' '' @ arg)) rt = Some (rsp, rt')" by simp
  have "(ucast (of_nat n :: u64) :: u32) = of_nat n" by transfer simp
  with runtime_configuration_command [OF pre mid run, of "replicate (length eol) NUL"] show ?thesis
    by (simp add: line_array_def)
qed

theorem command_protocol_witness:
  "\<exists>rt'. runtime_configuration_cb demo_env (line_array (''mid: '' @ dec_string 7 @ '' -'' @ CHR ''I'' # '' '' @ dec_string 5) [])
      (set_rt_options (\<lambda>x. x\<lparr>number_interfaces := 2\<rparr>) demo_runtime)
    = Some (1, rt', let record = Export SYNC_ID [(F64 1500, 8), (F32 7, 4), (F32 0, 4), str_field ''INFO: new packet export timeout set: 5'']
        in [record, Flush, record, Flush])"
proof -
  let ?rt = "set_rt_options (\<lambda>x. x\<lparr>number_interfaces := 2\<rparr>) demo_runtime"
  have five: "dec_string 5 = ''5''" by code_simp
  have "0 \<le> new_timeout (dec_string 5)" by (simp add: new_timeout_def strtoll0_dec_string wrap_int_id)
  then obtain rt' where run: "run_cfg demo_env (getFunction CHR ''I'') (dec_string 5) ?rt = Some (''INFO: new packet export timeout set: 5'', rt')"
      and rt': "number_interfaces (rt_opts rt') = 2"
    by (auto simp: cfg_letters configuration_set_export_to_pktid_def set_rt_options_def upd_def SET_CFG_RESPONSE_def five)
  have time: "sync_time demo_env = 1500" by (simp add: sync_time_def double_to_i64_def trunc_rat_def demo_env_def demo_libc_def)
  have "NUL \<notin> set (dec_string 5)" "\<not> c_isspace (hd (dec_string 5))"
    using dec_string_not_in [of NUL 5] dec_string_Cons [of 5] digit_not_special by (auto simp: c_isdigit_def)
  with command_protocol [of 7 "CHR ''I''" "dec_string 5", OF _ _ _ _ run, of "[]"] rt' time show ?thesis
    by (simp add: sync_records_def demo_env_def upt_rec Let_def)
qed

text \<open>The timer commands: \<open>I\<close>, \<open>J\<close> and \<open>K\<close> with a decimal number of seconds set the repeat
  interval of the packet-id, probe statistics and sampling timer; 0 stops the timer.\<close>

theorem timer_commands:
  assumes "n < 2 ^ 31" and "(c, old :: timers \<Rightarrow> ev_timer, new) \<in> {
      (CHR ''I'', export_timer_pkid, \<lambda>w ts. ts\<lparr>export_timer_pkid := w\<rparr>),
      (CHR ''J'', export_timer_stats, \<lambda>w ts. ts\<lparr>export_timer_stats := w\<rparr>),
      (CHR ''K'', export_timer_sampling, \<lambda>w ts. ts\<lparr>export_timer_sampling := w\<rparr>)}"
  shows "\<exists>rsp w. run_cfg env (getFunction c) (dec_string n) rt = Some (rsp, rt\<lparr>rt_timers := new w (rt_timers rt)\<rparr>)
    \<and> t_repeat w = of_nat n \<and> t_active w = (0 < n)"
proof -
  have timeout: "new_timeout (dec_string n) = int n"
    using assms(1) by (simp add: new_timeout_def strtoll0_dec_string wrap_int_id)
  have "t_repeat (set_repeat (int n) w) = of_nat n \<and> t_active (set_repeat (int n) w) = (0 < n)" for w
    by (simp add: set_repeat_def ev_timer_again_def)
  moreover from timeout have "\<exists>rsp. run_cfg env (getFunction c) (dec_string n) rt
      = Some (rsp, rt\<lparr>rt_timers := new (set_repeat (int n) (old (rt_timers rt))) (rt_timers rt)\<rparr>)"
    using assms(2) by (auto simp: cfg_letters configuration_set_export_to_pktid_def
        configuration_set_export_to_probestats_def configuration_set_export_to_ifstats_def)
  ultimately show ?thesis by blast
qed

theorem timer_commands_witness:
  "\<exists>rsp w. run_cfg demo_env (getFunction CHR ''K'') (dec_string 0) demo_runtime
     = Some (rsp, demo_runtime\<lparr>rt_timers := (rt_timers demo_runtime)\<lparr>export_timer_sampling := w\<rparr>\<rparr>) \<and> \<not> t_active w"
  using timer_commands [of 0 "CHR ''K''" export_timer_sampling "\<lambda>w ts. ts\<lparr>export_timer_sampling := w\<rparr>" demo_env demo_runtime]
  by auto

lemma template_names_end: "parse_template (arg @ NL) = - 1"
proof -
  have "strcase_eq (dropWhile c_isspace (arg @ NL)) name \<Longrightarrow> name \<in> {''min'', ''lp'', ''ls'', ''ts''} \<Longrightarrow> False" for name
  proof -
    assume eq: "strcase_eq (dropWhile c_isspace (arg @ NL)) name" and name: "name \<in> {''min'', ''lp'', ''ls'', ''ts''}"
    show False
    proof (cases "dropWhile c_isspace arg = []")
      case True
      then have "dropWhile c_isspace (arg @ NL) = []"
        by (simp add: dropWhile_append c_isspace_def)
      with eq name show False by (auto simp: strcase_eq_def)
    next
      case False
      then have "dropWhile c_isspace (arg @ NL) = dropWhile c_isspace arg @ NL" by (simp add: dropWhile_append)
      with eq have "map c_tolower (dropWhile c_isspace arg) @ [c_tolower (CHR 0x0A)] = map c_tolower name"
        by (simp add: strcase_eq_def)
      from arg_cong [OF this, of last] have "last (map c_tolower name) = c_tolower (CHR 0x0A)" by simp
      with name show False by (auto simp: c_tolower_def)
    qed
  qed
  then show ?thesis by (auto simp: parse_template_def template_names_def)
qed

text \<open>The template cannot be changed from the terminal: the line end is not removed from the
  user's input, so that a line with the command \<open>t\<close> and any template name is answered with
  \<open>unknown template\<close> and nothing changes.\<close>

theorem stdin_template_unknown:
  assumes "NUL \<notin> set (pre @ arg)" "\<forall>c \<in> set pre. \<not> c_isalpha c" "dropWhile c_isspace arg \<noteq> []"
  shows "user_input_cb env (Some (pre @ CHR ''t'' # arg @ NL)) rt
    = Stay rt (take 255 (''INFO: unknown template: '' @ dropWhile c_isspace arg @ NL))"
proof -
  let ?l = "pre @ CHR ''t'' # arg @ NL"
  have l: "cstr ?l = ?l" unfolding cstr_def by (rule takeWhile_NUL) (use assms(1) in simp)
  have t: "c_isalpha CHR ''t''" by (simp add: c_isalpha_def c_tolower_def)
  have "dropWhile (\<lambda>c. \<not> c_isalpha c) ?l = CHR ''t'' # arg @ NL"
    using assms(2) t by (simp add: dropWhile_append)
  moreover have "c_isalpha CHR ''e''" "c_isalpha CHR ''q''" by (simp_all add: c_isalpha_def c_tolower_def)
  then have "\<not> strn_eq ?l ''exit'' 4 \<and> \<not> strn_eq ?l ''quit'' 4"
    using assms(2) by (cases pre) (auto simp: strn_eq_def)
  moreover have "dropWhile c_isspace (arg @ NL) = dropWhile c_isspace arg @ NL"
    using assms(3) by (simp add: dropWhile_append)
  ultimately show ?thesis
    by (simp add: user_input_cb_def l cfg_letters configuration_set_template_def template_names_end SET_CFG_RESPONSE_def Let_def)
qed

theorem stdin_template_unknown_witness:
  "user_input_cb demo_env (Some (''t ts'' @ NL)) demo_runtime = Stay demo_runtime (''INFO: unknown template: ts'' @ NL)"
proof -
  have sp: "c_isspace CHR '' ''" "\<not> c_isspace CHR ''t''" by (simp_all add: c_isspace_def)
  show ?thesis using stdin_template_unknown [of "[]" "'' ts''" demo_env demo_runtime] sp by simp
qed

end
