(* ===== verification/Startup.thy ===== *)
theory Startup
  imports Runtime_Config
begin

text \<open>
  \<^verbatim>\<open>main\<close> (\<^verbatim>\<open>src/main.c\<close>) up to the event loop: the options, the devices, the identity of the
  probe, the IPFIX exporter (\<^verbatim>\<open>src/ipfix_handler.c\<close>), the handlers and the timers, in the
  order of the code. What libipfix answers is an argument.
\<close>

section \<open>The exporter\<close>

text \<open>
  The handle with its observation domain, the template variables by template id, and the
  collectors that were added.
\<close>

record exporter =
  x_handle :: "u32 option"
  x_templates :: "u32 \<Rightarrow> ipfix_template option"
  x_collectors :: "(string \<times> int) list"

definition no_exporter :: exporter where
  "no_exporter = \<lparr>x_handle = None, x_templates = Map.empty, x_collectors = []\<rparr>"

text \<open>The results of the calls; \<open>la_make\<close> is that of \<^verbatim>\<open>IPFIX_MAKE_TEMPLATE\<close>.\<close>

record lib_answers =
  la_init :: int
  la_vendor :: int
  la_open :: int
  la_make :: "ipfix_template \<Rightarrow> int"
  la_collector :: int

abbreviation (input) EXIT_FAILURE :: int where "EXIT_FAILURE \<equiv> 1"

text \<open>The left side is the exit code of the process.\<close>

definition libipfix_init :: "lib_answers \<Rightarrow> u32 \<Rightarrow> exporter \<Rightarrow> int + exporter" where
  "libipfix_init la observation_id x =
     (if x_handle x = None then
        (if la_init la < 0 then Inl EXIT_FAILURE
         else if la_vendor la < 0 then Inl EXIT_FAILURE
         else if la_open la < 0 then Inl EXIT_FAILURE
         else Inr (x\<lparr>x_handle := Some observation_id\<rparr>))
      else Inr x)"

text \<open>The variables in the order in which their templates are made.\<close>

definition template_order :: "(u32 \<times> ipfix_template) list" where
  "template_order = [(MINT_ID, export_fields_min), (TS_ID, export_fields_ts),
     (TS_TTL_PROTO_ID, export_fields_ts_ttl_proto), (TS_TTL_PROTO_IP_ID, export_fields_ts_ttl_proto_ip),
     (INTF_STATS_ID, export_fields_interface_stats), (PROBE_STATS_ID, export_fields_probe_stats),
     (SYNC_ID, export_fields_sync), (LOCATION_ID, export_fields_location)]"

fun make_templates :: "lib_answers \<Rightarrow> (u32 \<times> ipfix_template) list \<Rightarrow> exporter \<Rightarrow> int + exporter" where
  "make_templates la [] x = Inr x"
| "make_templates la ((t_id, tmpl) # rest) x =
     (if x_handle x = None then Inl EXIT_FAILURE
      else if la_make la tmpl < 0 then Inl EXIT_FAILURE
      else make_templates la rest (x\<lparr>x_templates := (x_templates x)(t_id \<mapsto> tmpl)\<rparr>))"

definition libipfix_register_templates :: "lib_answers \<Rightarrow> exporter \<Rightarrow> int + exporter" where
  "libipfix_register_templates la x = make_templates la template_order x"

text \<open>A failure to add the collector is logged only.\<close>

definition libipfix_connect :: "lib_answers \<Rightarrow> options \<Rightarrow> exporter \<Rightarrow> int + exporter" where
  "libipfix_connect la opts x =
     (if x_handle x = None then Inl EXIT_FAILURE
      else if la_collector la < 0 then Inr x
      else Inr (x\<lparr>x_collectors := x_collectors x @ [(collectorIP opts, collectorPort opts)]\<rparr>))"

definition start_exporter :: "lib_answers \<Rightarrow> options \<Rightarrow> int + exporter" where
  "start_exporter la opts = (case libipfix_init la (observationDomainID opts) no_exporter of
       Inl c \<Rightarrow> Inl c
     | Inr x \<Rightarrow> (case libipfix_register_templates la x of
         Inl c \<Rightarrow> Inl c
       | Inr x \<Rightarrow> libipfix_connect la opts x))"

section \<open>Identity\<close>

text \<open>
  \<^verbatim>\<open>gethostname(name, sizeof(name))\<close> is given the size of a pointer, 8: a host name of eight or
  more characters does not fit and becomes the empty string.
\<close>

definition default_probe_name :: "string \<Rightarrow> options \<Rightarrow> options" where
  "default_probe_name hostname opts = (case s_probe_name opts of
       None \<Rightarrow> opts\<lparr>s_probe_name := Some (if length hostname < 8 then hostname else [])\<rparr>
     | Some _ \<Rightarrow> opts)"

definition set_identity :: "device list \<Rightarrow> options \<Rightarrow> options" where
  "set_identity devs opts =
     (if 0 < number_interfaces opts then
        (let opts = opts\<lparr>ipAddress := IPv4address (devs ! 0)\<rparr>
         in if observationDomainID opts = 0 then opts\<lparr>observationDomainID := ntohl (ipAddress opts)\<rparr> else opts)
      else opts)"

section \<open>main\<close>

text \<open>What the probe is started with, and its state when the event loop starts.\<close>

record environment =
  en_libc :: libc
  en_os :: "nat \<Rightarrow> os_answers"
  en_lib :: lib_answers
  en_hostname :: string
  en_alloc :: bool

record probe =
  pb_runtime :: runtime
  pb_exporter :: exporter
  pb_netcon :: "cmd_fn netcon"
  pb_stats :: stats_state

datatype startup = Started probe | Stopped int | Crashed

text \<open>\<^verbatim>\<open>config_handler_init\<close> registers the command, then \<^verbatim>\<open>netcon_init\<close> empties the registry.\<close>

definition start_handlers :: "environment \<Rightarrow> settings \<Rightarrow> sources \<Rightarrow> exporter \<Rightarrow> probe" where
  "start_handlers env s srcs x =
     (let nc = config_handler_init (en_alloc env) \<lparr>reg = [], conn = []\<rparr>;
          (nc, _) = netcon_init nc
      in \<lparr>pb_runtime = \<lparr>rt_settings = s, rt_sources = srcs, rt_timers = export_handler_init (s_opts s)\<rparr>,
          pb_exporter = x, pb_netcon = nc, pb_stats = init_stats\<rparr>)"

definition start_probe :: "environment \<Rightarrow> settings \<Rightarrow> startup" where
  "start_probe env s =
     (let s = upd (default_probe_name (en_hostname env)) s in
      case open_from (s_logger s) (en_os env) (s_opts s) 0 (unat (number_interfaces (s_opts s))) (if_devices s) Map.empty of
        Inl None \<Rightarrow> Crashed
      | Inl (Some code) \<Rightarrow> Stopped code
      | Inr (devs, srcs) \<Rightarrow>
          (let s = upd (set_identity devs) (s\<lparr>if_devices := devs\<rparr>) in
           case start_exporter (en_lib env) (s_opts s) of
             Inl code \<Rightarrow> Stopped code
           | Inr x \<Rightarrow> Started (start_handlers env s srcs x)))"

abbreviation (input) LOGGER_LEVEL_WARN :: int where "LOGGER_LEVEL_WARN \<equiv> 2"

text \<open>\<open>depth\<close> bounds the nesting of configuration files.\<close>

definition main :: "nat \<Rightarrow> environment \<Rightarrow> string list \<Rightarrow> startup" where
  "main depth env argv =
     (let s = initial_settings\<lparr>s_logger := logger_init init_logger_state LOGGER_LEVEL_WARN\<rparr> in
      case parse_cmdline_v2 depth (en_libc env) argv s of
        Returned _ s \<Rightarrow> start_probe env s
      | Exited code \<Rightarrow> Stopped code
      | Fault \<Rightarrow> Crashed
      | Too_deep \<Rightarrow> Crashed)"

section \<open>What a started probe satisfies\<close>

lemma set_identity_ok: "opts_ok x \<Longrightarrow> opts_ok (set_identity devs x) \<and> number_interfaces (set_identity devs x) = number_interfaces x"
  by (simp add: set_identity_def opts_ok_def Let_def)

lemma default_probe_name_ok:
  "opts_ok x \<Longrightarrow> opts_ok (default_probe_name h x) \<and> number_interfaces (default_probe_name h x) = number_interfaces x"
  by (simp add: default_probe_name_def opts_ok_def split: option.split)

lemma start_probe_cases:
  assumes "start_probe env s = Started p"
  obtains devs srcs x where
    "open_from (s_logger s) (en_os env) (default_probe_name (en_hostname env) (s_opts s)) 0
       (unat (number_interfaces (default_probe_name (en_hostname env) (s_opts s)))) (if_devices s) Map.empty = Inr (devs, srcs)"
    and "start_exporter (en_lib env) (set_identity devs (default_probe_name (en_hostname env) (s_opts s))) = Inr x"
    and "p = start_handlers env (upd (set_identity devs) ((upd (default_probe_name (en_hostname env)) s)\<lparr>if_devices := devs\<rparr>)) srcs x"
  using assms by (auto simp: start_probe_def Let_def split: sum.splits option.splits)

lemma main_cases:
  assumes "main depth env argv = Started p"
  obtains s where "settings_ok s" "start_probe env s = Started p"
proof -
  let ?s = "initial_settings\<lparr>s_logger := logger_init init_logger_state LOGGER_LEVEL_WARN\<rparr>"
  obtain r s where s: "parse_cmdline_v2 depth (en_libc env) argv ?s = Returned r s" "start_probe env s = Started p"
    using assms by (auto simp: main_def Let_def split: outcome.splits)
  have "settings_ok ?s" using initial_settings_ok by (simp add: settings_ok_def)
  then have "settings_ok s" by (rule cfg.parse_cmdline_inv [OF s(1)])
  with s(2) that show ?thesis by blast
qed

lemma start_probe_ok:
  assumes "start_probe env s = Started p" and ok: "settings_ok s"
  shows "settings_ok (rt_settings (pb_runtime p))" "s_probe_name (rt_opts (pb_runtime p)) \<noteq> None"
    "i < unat (number_interfaces (rt_opts (pb_runtime p))) \<Longrightarrow>
      open_device (s_logger (rt_settings (pb_runtime p))) (en_os env i) (default_probe_name (en_hostname env) (s_opts s))
        (if_devices s ! i) = Open_ok (rt_devices (pb_runtime p) ! i) (rt_sources (pb_runtime p) i)"
proof -
  from assms(1) obtain devs srcs x where
    op: "open_from (s_logger s) (en_os env) (default_probe_name (en_hostname env) (s_opts s)) 0
       (unat (number_interfaces (default_probe_name (en_hostname env) (s_opts s)))) (if_devices s) Map.empty = Inr (devs, srcs)"
    and p: "p = start_handlers env (upd (set_identity devs) ((upd (default_probe_name (en_hostname env)) s)\<lparr>if_devices := devs\<rparr>)) srcs x"
    by (rule start_probe_cases)
  have o: "opts_ok (s_opts s)" using ok by (simp add: settings_ok_def)
  have n: "number_interfaces (default_probe_name h (s_opts s)) = number_interfaces (s_opts s)" for h
    using default_probe_name_ok [OF o] by simp
  have le: "0 + unat (number_interfaces (default_probe_name (en_hostname env) (s_opts s))) \<le> length (if_devices s)"
    using ok by (simp add: settings_ok_def opts_ok_def n)
  note opened = open_from_nth [OF op le]
  have each: "open_device (s_logger s) (en_os env j) (default_probe_name (en_hostname env) (s_opts s)) (if_devices s ! j)
      = Open_ok (devs ! j) (srcs j)" if "j < unat (number_interfaces (s_opts s))" for j
    using conjunct2 [OF opened, THEN spec, of j] that by (simp add: n)
  have dev: "device_ok (devs ! j)" if "j < unat (number_interfaces (s_opts s))" for j
  proof -
    from open_device_frame [OF each [OF that]] device_ok_cong [of "devs ! j" "if_devices s ! j"] ok that show ?thesis
      by (simp add: settings_ok_def)
  qed
  have ids: "opts_ok (set_identity devs (default_probe_name (en_hostname env) (s_opts s)))"
    "number_interfaces (set_identity devs (default_probe_name (en_hostname env) (s_opts s))) = number_interfaces (s_opts s)"
    using set_identity_ok default_probe_name_ok o by simp_all
  then show "settings_ok (rt_settings (pb_runtime p))"
    using ok dev opened by (simp add: p start_handlers_def netcon_init_def settings_ok_def)
  show "s_probe_name (rt_opts (pb_runtime p)) \<noteq> None"
    by (simp add: p start_handlers_def netcon_init_def set_identity_def default_probe_name_def Let_def split: option.split)
  show "i < unat (number_interfaces (rt_opts (pb_runtime p))) \<Longrightarrow>
      open_device (s_logger (rt_settings (pb_runtime p))) (en_os env i) (default_probe_name (en_hostname env) (s_opts s))
        (if_devices s ! i) = Open_ok (rt_devices (pb_runtime p) ! i) (rt_sources (pb_runtime p) i)"
    using each [of i] ids(2) by (simp add: p start_handlers_def netcon_init_def)
qed

lemma started_handlers:
  assumes "main depth env argv = Started p"
  shows "reg (pb_netcon p) = [] \<and> rt_timers (pb_runtime p) = export_handler_init (rt_opts (pb_runtime p))"
proof -
  obtain s where "start_probe env s = Started p" using main_cases [OF assms] by blast
  then obtain srcs x t where "p = start_handlers env t srcs x" by (rule start_probe_cases) blast
  then show ?thesis by (simp add: start_handlers_def netcon_init_def)
qed

section \<open>Properties\<close>

text \<open>The strings that are exported fit the 16-bit lengths of libipfix.\<close>

definition strings_short :: "settings \<Rightarrow> bool" where
  "strings_short s \<longleftrightarrow> (\<forall>i < unat (number_interfaces (s_opts s)). length (device_name (if_devices s ! i)) < 65536)
     \<and> length (s_latitude (s_opts s)) < 65536 \<and> length (s_longitude (s_opts s)) < 65536
     \<and> length (s_location_name (s_opts s)) < 65536 \<and> (\<exists>name. s_probe_name (s_opts s) = Some name \<and> length name < 65536)"

definition demo_environment :: environment where
  "demo_environment = \<lparr>en_libc = demo_libc [], en_os = (\<lambda>_. \<lparr>os_pcap = Some 3, os_datalink = DLT_EN10MB, os_inet_socket = 3, os_ifaddr = (\<lambda>_. None), os_stack = 0, os_gai = 0,
     os_addrinfo = [], os_socket = 0, os_bind = 0, os_connect = 0, os_compile = (\<lambda>_. True), os_setfilter = (\<lambda>_. True),
     os_flags = 2, os_nonblock = True, os_getfl = True, os_setfl = True\<rparr>),
     en_lib = \<lparr>la_init = 0, la_vendor = 0, la_open = 0, la_make = (\<lambda>_. 0), la_collector = 0\<rparr>,
     en_hostname = ''probe'', en_alloc = True\<rparr>"

lemma demo_line:
  "parse_cmdline_v2 0 (demo_libc []) [''impd4e'', ''-i'', ''eth0''] (initial_settings\<lparr>s_logger := l\<rparr>)
    = opt_i ''eth0'' (initial_settings\<lparr>s_logger := l\<rparr>)"
  by (simp add: parse_cmdline_v2_def getopt_all.simps par_v2_eq find_opt_function_char_def cfg_opt_list_def
      call_opt_simps with_arg_def opt_i_def initial_settings_def set_defaults_options_def set_interface_def)

definition demo_eth0 :: device where
  "demo_eth0 = (set_defaults_device (s_opts initial_settings) zero_device)\<lparr>device_type := TYPE_PCAP, device_name := ''eth0''\<rparr>"

lemma demo_opt_i: "opt_i ''eth0'' (initial_settings\<lparr>s_logger := l\<rparr>)
    = Returned 0 (initial_settings\<lparr>s_logger := l, s_opts := (s_opts initial_settings)\<lparr>number_interfaces := 1\<rparr>,
        if_devices := demo_eth0 # replicate 9 zero_device\<rparr>)"
proof -
  have r: "replicate 10 zero_device = zero_device # replicate 9 zero_device"
    by (simp add: numeral_eq_Suc)
  show ?thesis
    by (simp add: opt_i_def initial_settings_def set_defaults_options_def set_interface_def demo_eth0_def upd_def upd_dev_def r
        del: replicate.simps)
qed

text \<open>A run of \<^verbatim>\<open>main\<close> with one Ethernet interface.\<close>

lemma demo_main:
  "\<exists>p. main 0 demo_environment [''impd4e'', ''-i'', ''eth0''] = Started p
     \<and> number_interfaces (rt_opts (pb_runtime p)) = 1 \<and> opt_offset (rt_opts (pb_runtime p)) = 0
     \<and> selection_function (rt_opts (pb_runtime p)) = Sel_U_TCP_and_Net \<and> ranges_ok (s_rSel (rt_settings (pb_runtime p)))
     \<and> device_type (rt_devices (pb_runtime p) ! 0) = TYPE_PCAP \<and> unat (b_size (hash_buffer (rt_devices (pb_runtime p) ! 0))) = 80
     \<and> logger_get_level (s_logger (rt_settings (pb_runtime p))) = 2 \<and> strings_short (rt_settings (pb_runtime p))
     \<and> export_stats_interval (rt_opts (pb_runtime p)) = 30"
proof -
  let ?s = "initial_settings\<lparr>s_logger := logger_init init_logger_state 2, s_opts := (s_opts initial_settings)\<lparr>number_interfaces := 1\<rparr>,
        if_devices := demo_eth0 # replicate 9 zero_device\<rparr>"
  have m: "main 0 demo_environment [''impd4e'', ''-i'', ''eth0''] = start_probe demo_environment ?s"
    by (simp add: main_def demo_environment_def demo_line demo_opt_i)
  have "logger_init init_logger_state 2 = init_logger_state\<lparr>log_level := 2\<rparr>"
    by (simp add: logger_init_def logger_set_level_def init_logger_state_def)
  then show ?thesis
    unfolding m
    by (simp add: start_probe_def default_probe_name_def initial_settings_def set_defaults_options_def upd_def
        demo_environment_def open_device_def demo_eth0_def open_pcap_def determineLinkType_def
        getIPv4AddressFromDevice_def
        start_exporter_def libipfix_init_def libipfix_register_templates_def template_order_def no_exporter_def
        libipfix_connect_def start_handlers_def netcon_init_def set_identity_def set_defaults_device_def
        logger_get_level_def baseSelection_def ranges_ok_def strings_short_def Let_def del: replicate.simps)
qed

lemma make_templates_result:
  "make_templates la tmpls x = Inr x' \<Longrightarrow> x_handle x' = x_handle x \<and> x_templates x' = fold (\<lambda>(t, f) m. m(t \<mapsto> f)) tmpls (x_templates x)"
  by (induction la tmpls x rule: make_templates.induct) (auto split: if_splits)

text \<open>The variables that are set are the table of the templates.\<close>

lemma registered_is_table: "fold (\<lambda>(t, f) m. m(t \<mapsto> f)) template_order Map.empty t_id = get_template t_id"
proof (cases "unat t_id < 8")
  case True
  then have "unat t_id \<in> {0, 1, 2, 3, 4, 5, 6, 7}" by auto
  then have "t_id \<in> {0, 1, 2, 3, 4, 5, 6, 7}" by (auto simp: word_unat_eq_iff)
  then show ?thesis by (auto simp: template_order_def get_template_def templates_def)
next
  case False
  then have "t_id \<notin> {0, 1, 2, 3, 4, 5, 6, 7}" by auto
  with False show ?thesis by (simp add: template_order_def get_template_def templates_def)
qed

lemma ipfix_templates_registered:
  assumes "start_exporter la opts = Inr x"
  shows "x_templates x t_id = get_template t_id" "x_handle x = Some (observationDomainID opts)"
proof -
  from assms obtain x1 where x1: "make_templates la template_order \<lparr>x_handle = Some (observationDomainID opts),
      x_templates = Map.empty, x_collectors = []\<rparr> = Inr x1" and x: "libipfix_connect la opts x1 = Inr x"
    by (auto simp: start_exporter_def libipfix_init_def libipfix_register_templates_def no_exporter_def split: sum.splits if_splits)
  from x have "x_templates x = x_templates x1 \<and> x_handle x = x_handle x1"
    by (auto simp: libipfix_connect_def split: if_splits)
  with make_templates_result [OF x1] registered_is_table [of t_id]
  show "x_templates x t_id = get_template t_id" "x_handle x = Some (observationDomainID opts)" by simp_all
qed

lemma started_ready:
  assumes "main depth env argv = Started p" and "opts = rt_opts (pb_runtime p)" and "dev = rt_devices (pb_runtime p) ! i"
    and "i < unat (number_interfaces opts)" "device_type dev = TYPE_PCAP \<or> device_type dev = TYPE_PCAP_FILE"
    and "os_datalink (en_os env i) = DLT_EN10MB" "59 \<le> unat (b_size (hash_buffer dev))"
    and "safe_selection (selection_function opts)" "ranges_ok (s_rSel (rt_settings (pb_runtime p)))"
    and "logger_get_level (s_logger (rt_settings (pb_runtime p))) \<noteq> LOGGER_LEVEL_DEBUG"
  shows "link_type dev = DLT_EN10MB" "pkt_offset dev = 14"
    "sampling_ready opts (s_rSel (rt_settings (pb_runtime p))) (logger_get_level (s_logger (rt_settings (pb_runtime p)))) dev"
proof -
  obtain s where s: "settings_ok s" "start_probe env s = Started p" by (rule main_cases [OF assms(1)])
  note ok = start_probe_ok(1) [OF s(2,1)]
  from start_probe_ok(3) [OF s(2,1), of i] assms(2-4)
  have "open_device (s_logger (rt_settings (pb_runtime p))) (en_os env i) (default_probe_name (en_hostname env) (s_opts s))
       (if_devices s ! i) = Open_ok dev (rt_sources (pb_runtime p) i)" by simp
  from open_device_pcap [OF this] open_device_frame [OF this] assms(5,6)
  show "link_type dev = DLT_EN10MB" "pkt_offset dev = 14" by auto
  have d: "device_ok dev" "effective_template opts dev \<in> data_template_ids"
    using settings_ok_device(2,3) [OF ok, of i] assms(2-4) by simp_all
  have "hashAsPacketID opts \<noteq> 0 \<or> pktid_function opts \<noteq> None"
    using ok assms(2) by (simp add: settings_ok_def opts_ok_def)
  then show "sampling_ready opts (s_rSel (rt_settings (pb_runtime p))) (logger_get_level (s_logger (rt_settings (pb_runtime p)))) dev"
    using d assms(7-10) by (simp add: sampling_ready_def device_ok_def)
qed

text \<open>C4: A started probe samples: whatever command line \<^verbatim>\<open>main\<close> has read, it processes without a memory
  fault every packet that one of its pcap interfaces captures as a whole from an Ethernet: an IPv4
  header with options or an IPv6 header without extensions, a complete ICMP, UDP or TCP header and
  a payload, less than 64 KiB in all. This needs what the command line can break: the offset
  of \<open>-O\<close> is 0, the buffer of the interface has at least 59 bytes for the headers, the
  selection is neither \<open>REC8\<close> nor \<open>PACKET\<close>, the numbers of the range list are not negative, and the
  log level is not debug.\<close>

theorem started_probe_samples:
  assumes "main depth env argv = Started p" and "opts = rt_opts (pb_runtime p)" and "dev = rt_devices (pb_runtime p) ! i"
    and "i < unat (number_interfaces opts)" "device_type dev = TYPE_PCAP \<or> device_type dev = TYPE_PCAP_FILE"
    and "os_datalink (en_os env i) = DLT_EN10MB" "opt_offset opts = 0" "59 \<le> unat (b_size (hash_buffer dev))"
    and "safe_selection (selection_function opts)" "ranges_ok (s_rSel (rt_settings (pb_runtime p)))"
    and "logger_get_level (s_logger (rt_settings (pb_runtime p))) \<noteq> LOGGER_LEVEL_DEBUG"
    and "ether_frame eth t" "net_header ih t proto" "transport_header proto th" "pay \<noteq> []" "captured c (eth @ ih @ th @ pay)"
  shows "\<exists>dev' evs. handle_packet opts (s_rSel (rt_settings (pb_runtime p)))
    (logger_get_level (s_logger (rt_settings (pb_runtime p)))) c dev = Some (dev', evs)"
  by (rule handle_ethernet_total [OF assms(5) _ _ assms(7) _ assms(12-16)])
    (use started_ready [OF assms(1-6,8-11)] in simp_all)

theorem started_probe_samples_witness:
  "\<exists>p dev evs. main 0 demo_environment [''impd4e'', ''-i'', ''eth0''] = Started p
     \<and> handle_packet (rt_opts (pb_runtime p)) (s_rSel (rt_settings (pb_runtime p)))
         (logger_get_level (s_logger (rt_settings (pb_runtime p)))) demo_capture (rt_devices (pb_runtime p) ! 0) = Some (dev, evs)"
proof -
  from demo_main obtain p where p: "main 0 demo_environment [''impd4e'', ''-i'', ''eth0''] = Started p"
    and facts: "number_interfaces (rt_opts (pb_runtime p)) = 1" "opt_offset (rt_opts (pb_runtime p)) = 0"
      "selection_function (rt_opts (pb_runtime p)) = Sel_U_TCP_and_Net" "ranges_ok (s_rSel (rt_settings (pb_runtime p)))"
      "device_type (rt_devices (pb_runtime p) ! 0) = TYPE_PCAP" "unat (b_size (hash_buffer (rt_devices (pb_runtime p) ! 0))) = 80"
      "logger_get_level (s_logger (rt_settings (pb_runtime p))) = 2" by blast
  have "\<exists>dev evs. handle_packet (rt_opts (pb_runtime p)) (s_rSel (rt_settings (pb_runtime p)))
         (logger_get_level (s_logger (rt_settings (pb_runtime p)))) demo_capture (rt_devices (pb_runtime p) ! 0) = Some (dev, evs)"
    by (rule started_probe_samples [OF p refl refl, where eth = "replicate 12 0 @ [8, 0]" and ih = "demo_ip 64" and t = N_IP
          and proto = T_UDP and th = "replicate 8 0" and pay = "[1, 2]"])
       (use facts in \<open>simp_all add: demo_environment_def safe_selection_def ether_frame_def net_header_def ip4_header_def
          transport_header_def captured_def demo_capture_def demo_ip_def nth_append\<close>)
  with p show ?thesis by blast
qed

text \<open>C28: A started probe exports: its exporter is open under the observation domain of the
  options, every template id leads to the registered template, the settings satisfy their
  invariant, and the probe has a name, so that location records never fault.\<close>

theorem started_probe_exports:
  assumes "main depth env argv = Started p"
  shows "x_handle (pb_exporter p) = Some (observationDomainID (rt_opts (pb_runtime p)))
    \<and> x_templates (pb_exporter p) t_id = get_template t_id \<and> settings_ok (rt_settings (pb_runtime p))
    \<and> (\<exists>name. s_probe_name (rt_opts (pb_runtime p)) = Some name)"
proof -
  obtain s where s: "settings_ok s" "start_probe env s = Started p" by (rule main_cases [OF assms])
  from s(2) obtain devs srcs x where
    x: "start_exporter (en_lib env) (set_identity devs (default_probe_name (en_hostname env) (s_opts s))) = Inr x"
    and p: "p = start_handlers env (upd (set_identity devs) ((upd (default_probe_name (en_hostname env)) s)\<lparr>if_devices := devs\<rparr>)) srcs x"
    by (rule start_probe_cases)
  have "x_handle (pb_exporter p) = Some (observationDomainID (rt_opts (pb_runtime p))) \<and> x_templates (pb_exporter p) t_id = get_template t_id"
    using ipfix_templates_registered [OF x] by (simp add: p start_handlers_def netcon_init_def)
  with start_probe_ok(1,2) [OF s(2,1)] show ?thesis by auto
qed

theorem started_probe_exports_witness:
  "\<exists>p. main 0 demo_environment [''impd4e'', ''-i'', ''eth0''] = Started p
     \<and> x_templates (pb_exporter p) SYNC_ID = Some export_fields_sync"
proof -
  from demo_main obtain p where p: "main 0 demo_environment [''impd4e'', ''-i'', ''eth0''] = Started p" by blast
  from started_probe_exports [OF p, of SYNC_ID] p show ?thesis by (simp add: get_template_ids)
qed

text \<open>The console has no commands: \<^verbatim>\<open>main\<close> registers the runtime configuration before
  \<^verbatim>\<open>netcon_init\<close> empties the registry, so that after the start no message from the collector has an
  effect on the probe and none is answered.\<close>

theorem console_commands_lost:
  assumes "main depth env argv = Started p" and "net_run (call_cmd cenv) es (pb_netcon p) (rt, evs) = Some (nc, rt', evs')"
  shows "reg (pb_netcon p) = [] \<and> rt' = rt \<and> evs' = evs"
  using started_handlers [OF assms(1)] net_run_idle [OF assms(2)] by simp

theorem console_commands_lost_witness:
  "\<exists>p nc rt evs. main 0 demo_environment [''impd4e'', ''-i'', ''eth0''] = Started p
     \<and> net_run (call_cmd demo_env) [Resync True 5] (pb_netcon p) (pb_runtime p, []) = Some (nc, rt, evs) \<and> rt = pb_runtime p \<and> evs = []"
proof -
  from demo_main obtain p where p: "main 0 demo_environment [''impd4e'', ''-i'', ''eth0''] = Started p" by blast
  obtain s where "start_probe demo_environment s = Started p" using main_cases [OF p] by blast
  then obtain srcs x t where "p = start_handlers demo_environment t srcs x" by (rule start_probe_cases) blast
  then have "conn (pb_netcon p) = []" by (simp add: start_handlers_def netcon_init_def)
  then obtain nc rt evs where run: "net_run (call_cmd demo_env) [Resync True 5] (pb_netcon p) (pb_runtime p, []) = Some (nc, rt, evs)"
    by (simp add: resync_timer_cb_def netcon_resync_def free_slot_def start_sync_def calloc_connection_def)
  with console_commands_lost [OF p run] p show ?thesis by blast
qed

end
