(* ===== verification/Probe.thy ===== *)
theory Probe
  imports Startup
begin

text \<open>
  The running probe: the event loop as a step relation over everything that can happen after
  \<^verbatim>\<open>main\<close> has started it. Each rule is one callback of the code, with what the outside answers as
  part of the event.
\<close>

section \<open>Steps\<close>

text \<open>The probe with the packet watchers that are active.\<close>

record running =
  rn_probe :: probe
  rn_watching :: "nat \<Rightarrow> bool"

definition event_loop_start :: "probe \<Rightarrow> running" where
  "event_loop_start p = \<lparr>rn_probe = p, rn_watching = (\<lambda>i. rt_sources (pb_runtime p) i \<noteq> None)\<rparr>"

abbreviation settings_of :: "running \<Rightarrow> settings" where "settings_of r \<equiv> rt_settings (pb_runtime (rn_probe r))"
abbreviation opts_of :: "running \<Rightarrow> options" where "opts_of r \<equiv> s_opts (settings_of r)"
abbreviation devs_of :: "running \<Rightarrow> device list" where "devs_of r \<equiv> if_devices (settings_of r)"
abbreviation timers_of :: "running \<Rightarrow> timers" where "timers_of r \<equiv> rt_timers (pb_runtime (rn_probe r))"

definition set_runtime :: "(runtime \<Rightarrow> runtime) \<Rightarrow> running \<Rightarrow> running" where
  "set_runtime f r = r\<lparr>rn_probe := (rn_probe r)\<lparr>pb_runtime := f (pb_runtime (rn_probe r))\<rparr>\<rparr>"

definition set_devices :: "device list \<Rightarrow> running \<Rightarrow> running" where
  "set_devices devs r = set_runtime (\<lambda>rt. rt\<lparr>rt_settings := (rt_settings rt)\<lparr>if_devices := devs\<rparr>\<rparr>) r"

text \<open>libev stops a timer without a repeat interval when it has fired.\<close>

definition fired :: "ev_timer \<Rightarrow> ev_timer" where
  "fired w = (if t_repeat w > 0 then w else w\<lparr>t_active := False\<rparr>)"

definition set_timers :: "(timers \<Rightarrow> timers) \<Rightarrow> running \<Rightarrow> running" where
  "set_timers f r = set_runtime (\<lambda>rt. rt\<lparr>rt_timers := f (rt_timers rt)\<rparr>) r"

datatype probe_event =
    Captured nat "nat \<Rightarrow> capture list \<times> int" "revent list"
  | Pktid_timer
  | Sampling_timer "nat \<Rightarrow> stat_answer" u64
  | Stats_timer proc_files probe_stat bool u64
  | Location_timer bool u64
  | Resync_timer bool "int list"
  | Console command_env int bool bool string
  | Stale_watcher command_env nat bool
  | User_input command_env "string option"

inductive probe_step :: "(rat \<Rightarrow> rat) \<Rightarrow> u64 \<Rightarrow> running \<Rightarrow> probe_event \<Rightarrow> probe_out list \<Rightarrow> running \<Rightarrow> bool" for flo pagesize where
  captured: "i < unat (number_interfaces (opts_of r)) \<Longrightarrow> rn_watching r i \<Longrightarrow>
    packet_watcher_cb (opts_of r) (s_rSel (settings_of r)) (logger_get_level (s_logger (settings_of r))) dispatch revents (devs_of r ! i)
      = Some (dev', evs, act) \<Longrightarrow>
    probe_step flo pagesize r (Captured i dispatch revents) (map (Data i) evs)
      ((set_devices ((devs_of r)[i := dev']) r)\<lparr>rn_watching := (rn_watching r)(i := (act = Keep))\<rparr>)"
| pktid: "t_active (export_timer_pkid (timers_of r)) \<Longrightarrow>
    probe_step flo pagesize r Pktid_timer export_timer_pktid_cb
      (set_timers (\<lambda>ts. ts\<lparr>export_timer_pkid := fired (export_timer_pkid ts)\<rparr>) r)"
| sampling: "t_active (export_timer_sampling (timers_of r)) \<Longrightarrow>
    export_timer_sampling_cb (opts_of r) ans now (devs_of r) = Some (devs', outs) \<Longrightarrow>
    probe_step flo pagesize r (Sampling_timer ans now) outs
      (set_timers (\<lambda>ts. ts\<lparr>export_timer_sampling := fired (export_timer_sampling ts)\<rparr>) (set_devices devs' r))"
| stats: "t_active (export_timer_stats (timers_of r)) \<Longrightarrow>
    export_timer_stats_cb flo pagesize fs junk sent now (pb_stats (rn_probe r)) = Some (st', outs) \<Longrightarrow>
    probe_step flo pagesize r (Stats_timer fs junk sent now) outs
      (let r = set_timers (\<lambda>ts. ts\<lparr>export_timer_stats := fired (export_timer_stats ts)\<rparr>) r
       in r\<lparr>rn_probe := (rn_probe r)\<lparr>pb_stats := st'\<rparr>\<rparr>)"
| location: "t_active (export_timer_location (timers_of r)) \<Longrightarrow>
    export_timer_location_cb (opts_of r) sent now = Some outs \<Longrightarrow>
    probe_step flo pagesize r (Location_timer sent now) outs
      (set_timers (\<lambda>ts. ts\<lparr>export_timer_location := fired (export_timer_location ts)\<rparr>) r)"
| resync: "resync_timer_cb alloc collectors (pb_netcon (rn_probe r)) = Some nc \<Longrightarrow>
    probe_step flo pagesize r (Resync_timer alloc collectors) [] (r\<lparr>rn_probe := (rn_probe r)\<lparr>pb_netcon := nc\<rparr>\<rparr>)"
| console: "net_step (call_cmd env) (Readable fd error readable bytes) (pb_netcon (rn_probe r)) (pb_runtime (rn_probe r), [])
      = Some (nc, rt, evs) \<Longrightarrow>
    probe_step flo pagesize r (Console env fd error readable bytes) (map Other evs)
      (r\<lparr>rn_probe := (rn_probe r)\<lparr>pb_netcon := nc, pb_runtime := rt\<rparr>\<rparr>)"
| stale: "net_step (call_cmd env) (Stale j error) (pb_netcon (rn_probe r)) (pb_runtime (rn_probe r), [])
      = Some (nc, rt, evs) \<Longrightarrow>
    probe_step flo pagesize r (Stale_watcher env j error) (map Other evs)
      (r\<lparr>rn_probe := (rn_probe r)\<lparr>pb_netcon := nc, pb_runtime := rt\<rparr>\<rparr>)"
| input: "user_input_cb env line (pb_runtime (rn_probe r)) = Stay rt rsp \<Longrightarrow>
    probe_step flo pagesize r (User_input env line) [] (set_runtime (\<lambda>_. rt) r)"

inductive probe_run :: "(rat \<Rightarrow> rat) \<Rightarrow> u64 \<Rightarrow> running \<Rightarrow> probe_event list \<Rightarrow> probe_out list \<Rightarrow> running \<Rightarrow> bool" for flo pagesize where
  none: "probe_run flo pagesize r [] [] r"
| step: "probe_step flo pagesize r e o1 r1 \<Longrightarrow> probe_run flo pagesize r1 es o2 r2 \<Longrightarrow> probe_run flo pagesize r (e # es) (o1 @ o2) r2"

inductive_cases captured_cases: "probe_step flo pagesize r (Captured i dispatch revents) outs r'"
inductive_cases stats_cases: "probe_step flo pagesize r (Stats_timer fs junk sent now) outs r'"
inductive_simps run_none [simp]: "probe_run flo pagesize r [] outs r'"
inductive_simps run_step: "probe_run flo pagesize r (e # es) outs r'"

lemma set_simps [simp]:
  "settings_of (set_timers f r) = settings_of r" "settings_of (set_devices devs r) = (settings_of r)\<lparr>if_devices := devs\<rparr>"
  "pb_netcon (rn_probe (set_runtime g r)) = pb_netcon (rn_probe r)" "pb_netcon (rn_probe (set_devices devs r)) = pb_netcon (rn_probe r)"
  "pb_netcon (rn_probe (set_timers f r)) = pb_netcon (rn_probe r)" "timers_of (set_timers f r) = f (timers_of r)"
  "timers_of (set_devices devs r) = timers_of r" "pb_runtime (rn_probe (set_runtime g r)) = g (pb_runtime (rn_probe r))"
  by (simp_all add: set_timers_def set_devices_def set_runtime_def)

section \<open>Frames\<close>

text \<open>What no callback changes in a device.\<close>

definition same_device :: "device \<Rightarrow> device \<Rightarrow> bool" where
  "same_device d d' \<longleftrightarrow> device_name d' = device_name d \<and> device_type d' = device_type d \<and> (device_ok d \<longrightarrow> device_ok d')"

lemma same_device_refl [simp]: "same_device d d"
  by (simp add: same_device_def)

lemma same_device_trans: "same_device a b \<Longrightarrow> same_device b c \<Longrightarrow> same_device a c"
  by (simp add: same_device_def)

lemma handle_packet_frame:
  assumes "handle_packet opts rs lvl c dev = Some (dev', evs)"
  shows "same_device dev dev' \<and> sampling_delta_count dev' = sampling_delta_count dev + 1"
proof -
  let ?dev1 = "dev\<lparr>sampling_delta_count := sampling_delta_count dev + 1, totalpacketcount := totalpacketcount dev + 1\<rparr>"
  from handle_packet_ip [OF assms] consider "dev' = ?dev1"
    | p info where "handle_ip_packet opts rs lvl p info ?dev1 = Some (dev', evs)" by (auto simp: Let_def)
  then show ?thesis
  proof cases
    case 1
    then show ?thesis by (simp add: same_device_def device_ok_def)
  next
    case 2
    have "device_name dev' = device_name dev" using 2 by (cases rule: handle_ip_packet_cases) auto
    with device_frame [OF 2] handle_ip_packet_buffer [OF 2] show ?thesis
      by (auto simp: same_device_def device_ok_def)
  qed
qed

lemma handle_packets_frame:
  "handle_packets opts rs lvl cs dev = Some (dev', evs) \<Longrightarrow>
    same_device dev dev' \<and> sampling_delta_count dev' = sampling_delta_count dev + of_nat (length cs)"
proof (induction cs arbitrary: dev evs)
  case (Cons c cs)
  from Cons.prems obtain dev1 e1 e2 where one: "handle_packet opts rs lvl c dev = Some (dev1, e1)"
    and rest: "handle_packets opts rs lvl cs dev1 = Some (dev', e2)"
    by (auto simp: bind_Some_conv)
  from handle_packet_frame [OF one] Cons.IH [OF rest] show ?case by (auto intro: same_device_trans)
qed simp

text \<open>The event of an output, and outputs whose records fit their templates.\<close>

fun out_event :: "probe_out \<Rightarrow> ipfix_event" where
  "out_event (Data i e) = e"
| "out_event (Report i e) = e"
| "out_event (Other e) = e"

definition outs_ok :: "probe_out list \<Rightarrow> bool" where
  "outs_ok outs \<longleftrightarrow> list_all event_ok (map out_event outs)"

lemma outs_ok_simps [simp]:
  "outs_ok []" "outs_ok (xs @ ys) \<longleftrightarrow> outs_ok xs \<and> outs_ok ys"
  "outs_ok (map (Data i) evs) \<longleftrightarrow> list_all event_ok evs" "outs_ok (map (Report i) evs) \<longleftrightarrow> list_all event_ok evs"
  "outs_ok (map Other evs) \<longleftrightarrow> list_all event_ok evs"
  by (simp_all add: outs_ok_def comp_def)

lemma flush_ok [simp]: "list_all event_ok export_flush"
  by (simp add: export_flush_def event_ok_Flush)

text \<open>
  One tick of the sampling timer: it always succeeds, leaves the devices as they are except for
  their counters, and moves the counters into the reports.
\<close>

definition moved :: "nat \<Rightarrow> device list \<Rightarrow> device list \<Rightarrow> probe_out list \<Rightarrow> bool" where
  "moved i devs devs' outs \<longleftrightarrow> same_device (devs ! i) (devs' ! i)
     \<and> sampling_delta_count (devs' ! i) + reported_delta i outs = sampling_delta_count (devs ! i)"

lemma moved_trans:
  assumes "moved i a b o1" "moved i b c o2" shows "moved i a c (o1 @ o2)"
proof -
  have "sampling_delta_count (c ! i) + (reported_delta i o1 + reported_delta i o2)
      = (sampling_delta_count (c ! i) + reported_delta i o2) + reported_delta i o1"
    by (simp only: ac_simps)
  with assms same_device_trans show ?thesis unfolding moved_def outs_simps by metis
qed

lemma report_one:
  assumes "length (device_name (devs ! j)) < 65536" "j < length devs"
  shows "\<exists>d evs. export_data_interface_stats a (devs ! j) time (sampling_size (devs ! j)) (sampling_delta_count (devs ! j)) = Some (d, evs)
    \<and> list_all event_ok evs \<and> (\<forall>i. moved i devs (devs[j := d]) (map (Report j) evs))"
proof -
  let ?e = "Export INTF_STATS_ID (interface_stats_fields (devs ! j) time (sampling_size (devs ! j)) (sampling_delta_count (devs ! j)) (pcap_counts (devs ! j) a))"
  have "event_ok ?e" using event_ok_Export [OF get_template_ids(4) interface_stats_record [OF assms(1)]] .
  with interface_stats_run [OF assms(1), of a time "sampling_size (devs ! j)" "sampling_delta_count (devs ! j)"] assms(2)
  show ?thesis
    by (auto simp: nth_list_update moved_def same_device_def device_ok_def reported_delta_def reports_map report_counts_def interface_stats_fields_def)
qed

lemma sampling_from_run:
  "j + k \<le> length devs \<Longrightarrow> \<forall>m < j + k. length (device_name (devs ! m)) < 65536 \<Longrightarrow>
    \<exists>devs' outs. sampling_from ans time j k devs = Some (devs', outs) \<and> length devs' = length devs \<and> outs_ok outs
      \<and> (\<forall>i. moved i devs devs' outs)"
proof (induction k arbitrary: j devs)
  case 0
  then show ?case by (simp add: moved_def)
next
  case (Suc k)
  obtain d evs where one: "export_data_interface_stats (ans j) (devs ! j) time (sampling_size (devs ! j)) (sampling_delta_count (devs ! j)) = Some (d, evs)"
    and ev: "list_all event_ok evs" and mv: "\<And>i. moved i devs (devs[j := d]) (map (Report j) evs)"
    using report_one [of devs j "ans j" time] Suc.prems by auto
  have names: "\<forall>m < Suc j + k. length (device_name (devs[j := d] ! m)) < 65536"
    using Suc.prems(2) mv by (auto simp: moved_def same_device_def)
  obtain devs' outs where rest: "sampling_from ans time (Suc j) k (devs[j := d]) = Some (devs', outs)" "length devs' = length devs"
    "outs_ok outs" "\<forall>i. moved i (devs[j := d]) devs' outs"
    using Suc.IH [of "Suc j" "devs[j := d]"] Suc.prems(1) names by auto
  have "moved i devs devs' (map (Report j) evs @ outs)" for i
    using mv [of i] spec [OF rest(4), of i] by (rule moved_trans)
  with one rest ev show ?case by simp
qed

section \<open>The invariant of the running probe\<close>

text \<open>The options that stay as they are.\<close>

definition fixed_options :: "options \<Rightarrow> byte \<times> string \<times> string \<times> string \<times> string option" where
  "fixed_options x = (number_interfaces x, s_latitude x, s_longitude x, s_location_name x, s_probe_name x)"

definition running_ok :: "running \<Rightarrow> bool" where
  "running_ok r \<longleftrightarrow> settings_ok (settings_of r) \<and> strings_short (settings_of r) \<and> reg (pb_netcon (rn_probe r)) = []
     \<and> (\<forall>i < unat (number_interfaces (opts_of r)). rn_watching r i \<longrightarrow>
          device_type (devs_of r ! i) \<in> {TYPE_PCAP, TYPE_PCAP_FILE, TYPE_SOCKET_INET, TYPE_SOCKET_UNIX})"

definition delta :: "running \<Rightarrow> nat \<Rightarrow> u64" where
  "delta r i = sampling_delta_count (devs_of r ! i)"

text \<open>The packets of interface \<open>i\<close> that an event delivers.\<close>

fun packets_in :: "nat \<Rightarrow> probe_event \<Rightarrow> nat" where
  "packets_in i (Captured j dispatch revents) = (if j = i then length (fst (dispatch PCAP_DISPATCH_PACKET_COUNT)) else 0)"
| "packets_in i _ = 0"

text \<open>Two states with the same settings, up to what a step may change in the devices.\<close>

definition kept :: "settings \<Rightarrow> settings \<Rightarrow> bool" where
  "kept s s' \<longleftrightarrow> fixed_options (s_opts s') = fixed_options (s_opts s) \<and> length (if_devices s') = length (if_devices s)
     \<and> (\<forall>i < length (if_devices s). device_name (if_devices s' ! i) = device_name (if_devices s ! i)
         \<and> device_type (if_devices s' ! i) = device_type (if_devices s ! i))"

lemma kept_refl [simp]: "kept s s"
  by (simp add: kept_def)

lemma kept_trans: "kept a b \<Longrightarrow> kept b c \<Longrightarrow> kept a c"
  by (simp add: kept_def)

lemma kept_interfaces: "kept s s' \<Longrightarrow> number_interfaces (s_opts s') = number_interfaces (s_opts s)"
  by (simp add: kept_def fixed_options_def)

lemma kept_strings:
  assumes "kept s s'" "settings_ok s" "strings_short s" shows "strings_short s'"
proof -
  have "i < length (if_devices s)" if "i < unat (number_interfaces (s_opts s))" for i
    using that assms(2) by (simp add: settings_ok_def opts_ok_def)
  with assms(1,3) show ?thesis by (auto simp: kept_def strings_short_def fixed_options_def)
qed

lemma kept_ok:
  assumes "running_ok r" "kept (settings_of r) (settings_of r')" "settings_ok (settings_of r')" "reg (pb_netcon (rn_probe r')) = []"
    and "\<And>i. rn_watching r' i \<Longrightarrow> rn_watching r i"
  shows "running_ok r'"
proof -
  have ok: "settings_ok (settings_of r)" using assms(1) by (simp add: running_ok_def)
  have "i < length (devs_of r)" if "i < unat (number_interfaces (opts_of r))" for i
    using that ok by (simp add: settings_ok_def opts_ok_def)
  with assms kept_strings [OF assms(2) ok] kept_interfaces [OF assms(2)] show ?thesis
    by (auto simp: running_ok_def kept_def)
qed

lemma set_options_kept:
  "fixed_options (f (s_opts s)) = fixed_options (s_opts s) \<Longrightarrow> kept s (upd f s)"
  by (simp add: kept_def)

lemma run_cfg_kept:
  assumes "run_cfg env f msg rt = Some (rsp, rt')"
  shows "kept (rt_settings rt) (rt_settings rt')
    \<and> (\<forall>i. i < length (rt_devices rt) \<longrightarrow> sampling_delta_count (rt_devices rt' ! i) = sampling_delta_count (rt_devices rt ! i))"
proof -
  have fo: "fixed_options (set_sampling_lowerbound x a) = fixed_options x" "fixed_options (set_sampling_upperbound x a) = fixed_options x"
    "fixed_options (set_sampling_ratio rd x a) = fixed_options x" "fixed_options (x\<lparr>templateID := t\<rparr>) = fixed_options x" for x a rd t
    by (simp_all add: fixed_options_def set_sampling_lowerbound_def set_sampling_upperbound_def set_sampling_ratio_def Let_def)
  show ?thesis
    using assms by (cases f) (auto simp: configuration_set_ratio_def configuration_set_min_selection_def
        configuration_set_max_selection_def configuration_set_filter_def configuration_set_export_to_pktid_def
        configuration_set_export_to_probestats_def configuration_set_export_to_ifstats_def configuration_set_template_def
        set_rt_options_def bind_Some_conv Let_def fo kept_def reset_templates_nth split: if_splits)
qed

lemma reports_none [simp]: "reported_delta i export_timer_pktid_cb = 0"
  by (simp add: export_timer_pktid_cb_def)

lemma packet_watcher_run:
  assumes "packet_watcher_cb opts rs lvl dispatch revents dev = Some (dev', evs, act)"
    and "device_type dev \<in> {TYPE_PCAP, TYPE_PCAP_FILE, TYPE_SOCKET_INET, TYPE_SOCKET_UNIX}"
  shows "handle_packets opts rs lvl (fst (dispatch PCAP_DISPATCH_PACKET_COUNT)) dev = Some (dev', evs)"
  using assms by (auto simp: packet_watcher_cb_def bind_Some_conv split: prod.splits)

section \<open>Every step keeps the invariant and the account\<close>

definition accounts :: "running \<Rightarrow> running \<Rightarrow> probe_out list \<Rightarrow> (nat \<Rightarrow> nat) \<Rightarrow> bool" where
  "accounts r r' outs n \<longleftrightarrow> (\<forall>i < unat (number_interfaces (opts_of r)). delta r' i + reported_delta i outs = delta r i + of_nat (n i))"

lemma set_devices_ok:
  assumes "running_ok r" "length devs = length (devs_of r)" "\<And>i. i < length devs \<Longrightarrow> same_device (devs_of r ! i) (devs ! i)"
  shows "kept (settings_of r) (settings_of (set_devices devs r)) \<and> settings_ok (settings_of (set_devices devs r))"
proof
  show "kept (settings_of r) (settings_of (set_devices devs r))" using assms(2,3) by (simp add: kept_def same_device_def)
  show "settings_ok (settings_of (set_devices devs r))"
    using assms by (auto simp: running_ok_def settings_ok_def opts_ok_def same_device_def)
qed

lemma running_index:
  assumes "running_ok r" "i < unat (number_interfaces (opts_of r))"
  shows "i < length (devs_of r)"
  using assms by (simp add: running_ok_def settings_ok_def opts_ok_def)

lemma captured_step:
  assumes ok: "running_ok r" and i: "i < unat (number_interfaces (opts_of r))" "rn_watching r i"
    and run: "packet_watcher_cb (opts_of r) rs lvl dispatch revents (devs_of r ! i) = Some (dev', evs, act)"
    and r': "r' = (set_devices ((devs_of r)[i := dev']) r)\<lparr>rn_watching := (rn_watching r)(i := (act = Keep))\<rparr>"
  shows "running_ok r' \<and> kept (settings_of r) (settings_of r') \<and> outs_ok (map (Data i) evs)
    \<and> accounts r r' (map (Data i) evs) (\<lambda>j. packets_in j (Captured i dispatch revents))"
proof -
  have "device_type (devs_of r ! i) \<in> {TYPE_PCAP, TYPE_PCAP_FILE, TYPE_SOCKET_INET, TYPE_SOCKET_UNIX}"
    using ok i unfolding running_ok_def by blast
  from packet_watcher_run [OF run this]
  have h: "handle_packets (opts_of r) rs lvl (fst (dispatch PCAP_DISPATCH_PACKET_COUNT)) (devs_of r ! i) = Some (dev', evs)" .
  note f = handle_packets_frame [OF h]
  have "same_device (devs_of r ! j) ((devs_of r)[i := dev'] ! j)" if "j < length ((devs_of r)[i := dev'])" for j
    using f that by (cases "j = i") auto
  note sd = set_devices_ok [OF ok _ this]
  have k: "kept (settings_of r) (settings_of r')" "settings_ok (settings_of r')"
    using sd by (simp_all add: r')
  moreover have "running_ok r'"
    by (rule kept_ok [OF ok k]) (use ok i in \<open>auto simp: r' running_ok_def split: if_splits\<close>)
  moreover have "accounts r r' (map (Data i) evs) (\<lambda>j. packets_in j (Captured i dispatch revents))"
    using f running_index [OF ok i(1)] by (auto simp: accounts_def delta_def r' nth_list_update)
  ultimately show ?thesis using handle_packets_events [OF h] by simp
qed

lemma sampling_cb_run:
  assumes ok: "running_ok r"
  shows "\<exists>devs' outs. export_timer_sampling_cb (opts_of r) ans now (devs_of r) = Some (devs', outs)
    \<and> length devs' = length (devs_of r) \<and> outs_ok outs \<and> (\<forall>i. moved i (devs_of r) devs' outs)"
proof -
  have "unat (number_interfaces (opts_of r)) \<le> length (devs_of r)" using ok by (simp add: running_ok_def settings_ok_def opts_ok_def)
  moreover have "\<forall>m < unat (number_interfaces (opts_of r)). length (device_name (devs_of r ! m)) < 65536"
    using ok by (simp add: running_ok_def strings_short_def)
  ultimately obtain devs' outs where
    "sampling_from ans (now * 1000) 0 (unat (number_interfaces (opts_of r))) (devs_of r) = Some (devs', outs)"
    "length devs' = length (devs_of r)" "outs_ok outs" "\<forall>i. moved i (devs_of r) devs' outs"
    using sampling_from_run [of 0 "unat (number_interfaces (opts_of r))" "devs_of r" ans "now * 1000"] by auto
  then show ?thesis by (simp add: export_timer_sampling_cb_def moved_def)
qed

lemma stats_cb_run:
  assumes "names_fit fs"
  shows "\<exists>st' outs. export_timer_stats_cb flo pagesize fs junk sent now st = Some (st', outs)"
proof -
  obtain st' evs where "export_data_probe_stats flo pagesize fs junk sent (now * 1000) st = Some (st', evs)"
    using export_probe_stats_run [OF assms] by blast
  then show ?thesis by (auto simp: export_timer_stats_cb_def)
qed

lemma stats_cb_ok:
  assumes "export_timer_stats_cb flo pagesize fs junk sent now st = Some (st', outs)"
  obtains evs where "outs = map Other evs" "list_all event_ok evs"
  using assms export_probe_stats_ok by (auto simp: export_timer_stats_cb_def)

lemma location_cb_run:
  assumes "strings_short s"
  shows "\<exists>evs. export_timer_location_cb (s_opts s) sent now = Some (map Other evs) \<and> list_all event_ok evs"
proof -
  obtain name where "s_probe_name (s_opts s) = Some name" "length name < 65536" using assms by (auto simp: strings_short_def)
  with assms obtain evs where "export_data_location (s_opts s) sent (now * 1000) = Some evs" "list_all event_ok evs"
    using export_location_run [of "s_opts s" name sent "now * 1000"] by (auto simp: strings_short_def)
  then show ?thesis by (auto simp: export_timer_location_cb_def)
qed

lemma fixed_devices_step:
  assumes "running_ok r" "kept (settings_of r) (settings_of r')" "settings_ok (settings_of r')" "pb_netcon (rn_probe r') = pb_netcon (rn_probe r)"
    and "rn_watching r' = rn_watching r"
    and "\<And>i. i < length (devs_of r) \<Longrightarrow> sampling_delta_count (devs_of r' ! i) + reported_delta i outs = sampling_delta_count (devs_of r ! i)"
  shows "running_ok r' \<and> kept (settings_of r) (settings_of r') \<and> accounts r r' outs (\<lambda>_. 0)"
proof -
  have "running_ok r'" by (rule kept_ok [OF assms(1-3)]) (use assms in \<open>simp_all add: running_ok_def\<close>)
  with assms running_index [OF assms(1)] show ?thesis by (simp add: accounts_def delta_def)
qed

lemma resync_timer_reg: "resync_timer_cb alloc cols nc = Some nc' \<Longrightarrow> reg nc' = reg nc"
  by (auto simp: resync_timer_cb_def split: list.splits)

lemma user_input_kept:
  assumes "user_input_cb env line rt = Stay rt' rsp"
  shows "kept (rt_settings rt) (rt_settings rt') \<and> (settings_ok (rt_settings rt) \<longrightarrow> settings_ok (rt_settings rt'))
    \<and> (\<forall>i. i < length (rt_devices rt) \<longrightarrow> sampling_delta_count (rt_devices rt' ! i) = sampling_delta_count (rt_devices rt ! i))"
proof -
  from assms consider "rt' = rt" | f msg where "run_cfg env f msg rt = Some (rsp, rt')"
    by (auto simp: user_input_cb_def Let_def split: option.splits if_splits list.splits)
  then show ?thesis using run_cfg_kept run_cfg_ok by cases (simp, blast)
qed

lemma step_ok:
  assumes "probe_step flo pagesize r e outs r'" and "running_ok r"
  shows "running_ok r' \<and> kept (settings_of r) (settings_of r') \<and> outs_ok outs \<and> accounts r r' outs (\<lambda>i. packets_in i e)"
  using assms
proof (cases rule: probe_step.cases)
  case (captured i dispatch revents dev' evs act)
  then show ?thesis using captured_step [OF assms(2)] by blast
next
  case pktid
  have ok: "settings_ok (settings_of r)" using assms(2) by (simp add: running_ok_def)
  have "outs_ok outs" using pktid by (simp add: export_timer_pktid_cb_def)
  moreover have "running_ok r' \<and> kept (settings_of r) (settings_of r') \<and> accounts r r' outs (\<lambda>_. 0)"
    by (rule fixed_devices_step [OF assms(2)]) (use pktid ok in \<open>simp_all add: set_timers_def set_runtime_def\<close>)
  ultimately show ?thesis using pktid by simp
next
  case (sampling ans now devs')
  from sampling_cb_run [OF assms(2), of ans now] sampling(4)
  have s: "length devs' = length (devs_of r)" "outs_ok outs" "\<forall>i. moved i (devs_of r) devs' outs" by auto
  have k: "kept (settings_of r) (settings_of (set_devices devs' r))" "settings_ok (settings_of (set_devices devs' r))"
    using set_devices_ok [OF assms(2) s(1)] s(3) by (simp_all add: moved_def)
  have "running_ok r' \<and> kept (settings_of r) (settings_of r') \<and> accounts r r' outs (\<lambda>_. 0)"
    by (rule fixed_devices_step [OF assms(2)])
      (use sampling k s(3) in \<open>simp_all add: moved_def set_timers_def set_devices_def set_runtime_def\<close>)
  with s(2) show ?thesis using sampling by simp
next
  case (stats fs junk sent now st')
  have ok: "settings_ok (settings_of r)" using assms(2) by (simp add: running_ok_def)
  from stats(4) obtain evs where "outs = map Other evs" "list_all event_ok evs" by (rule stats_cb_ok)
  moreover have "running_ok r' \<and> kept (settings_of r) (settings_of r') \<and> accounts r r' (map Other evs) (\<lambda>_. 0)" for evs
    by (rule fixed_devices_step [OF assms(2)]) (use stats ok in \<open>simp_all add: set_timers_def set_runtime_def Let_def\<close>)
  ultimately show ?thesis using stats by simp
next
  case (location sent now)
  have ok: "settings_ok (settings_of r)" "strings_short (settings_of r)" using assms(2) by (simp_all add: running_ok_def)
  from location_cb_run [OF ok(2), of sent now] location(4) obtain evs where "outs = map Other evs" "list_all event_ok evs" by auto
  moreover have "running_ok r' \<and> kept (settings_of r) (settings_of r') \<and> accounts r r' (map Other evs) (\<lambda>_. 0)" for evs
    by (rule fixed_devices_step [OF assms(2)]) (use location ok in \<open>simp_all add: set_timers_def set_runtime_def\<close>)
  ultimately show ?thesis using location by simp
next
  case (resync alloc collectors nc)
  have "reg nc = []" using resync_timer_reg [OF resync(4)] assms(2) by (simp add: running_ok_def)
  then have "running_ok r'"
    by (intro kept_ok [OF assms(2)]) (use resync assms(2) in \<open>auto simp: running_ok_def\<close>)
  then show ?thesis using resync by (simp add: accounts_def delta_def)
next
  case (console env fd error readable bytes nc rt evs)
  have "reg (pb_netcon (rn_probe r)) = []" using assms(2) by (simp add: running_ok_def)
  from net_step_idle [OF console(4) this] have idle: "reg nc = []" "rt = pb_runtime (rn_probe r)" "evs = []" by simp_all
  have "running_ok r'"
    by (rule kept_ok [OF assms(2)]) (use console idle assms(2) in \<open>auto simp: running_ok_def\<close>)
  then show ?thesis using console idle by (simp add: accounts_def delta_def)
next
  case (stale env j error nc rt evs)
  have "reg (pb_netcon (rn_probe r)) = []" using assms(2) by (simp add: running_ok_def)
  from net_step_idle [OF stale(4) this] have idle: "reg nc = []" "rt = pb_runtime (rn_probe r)" "evs = []" by simp_all
  have "running_ok r'"
    by (rule kept_ok [OF assms(2)]) (use stale idle assms(2) in \<open>auto simp: running_ok_def\<close>)
  then show ?thesis using stale idle by (simp add: accounts_def delta_def)
next
  case (input env line rt rsp)
  have ok: "settings_ok (settings_of r)" using assms(2) by (simp add: running_ok_def)
  note u = user_input_kept [OF input(4)]
  have "running_ok r' \<and> kept (settings_of r) (settings_of r') \<and> accounts r r' [] (\<lambda>_. 0)"
    by (rule fixed_devices_step [OF assms(2)]) (use input u ok in \<open>simp_all add: set_runtime_def\<close>)
  then show ?thesis using input by simp
qed

lemma accounts_trans:
  assumes "accounts r r1 o1 m" "accounts r1 r2 o2 n" "number_interfaces (opts_of r1) = number_interfaces (opts_of r)"
  shows "accounts r r2 (o1 @ o2) (\<lambda>i. m i + n i)"
  unfolding accounts_def
proof (intro allI impI)
  fix i assume i: "i < unat (number_interfaces (opts_of r))"
  have "delta r2 i + reported_delta i (o1 @ o2) = (delta r2 i + reported_delta i o2) + reported_delta i o1" by (simp add: ac_simps)
  also have "\<dots> = (delta r1 i + reported_delta i o1) + of_nat (n i)" using assms(2,3) i by (simp add: accounts_def ac_simps)
  also have "\<dots> = delta r i + of_nat (m i + n i)" using assms(1) i by (simp add: accounts_def ac_simps)
  finally show "delta r2 i + reported_delta i (o1 @ o2) = delta r i + of_nat (m i + n i)" .
qed

lemma run_ok:
  "probe_run flo pagesize r es outs r' \<Longrightarrow> running_ok r \<Longrightarrow>
    running_ok r' \<and> kept (settings_of r) (settings_of r') \<and> outs_ok outs \<and> accounts r r' outs (\<lambda>i. sum_list (map (packets_in i) es))"
proof (induction rule: probe_run.induct)
  case (none r)
  then show ?case by (simp add: accounts_def)
next
  case (step r e o1 r1 es o2 r2)
  note one = step_ok [OF step(1,4)]
  note rest = step.IH [OF conjunct1 [OF one]]
  have "number_interfaces (opts_of r1) = number_interfaces (opts_of r)" using one kept_interfaces by blast
  then have "accounts r r2 (o1 @ o2) (\<lambda>i. sum_list (map (packets_in i) (e # es)))"
    using accounts_trans [of r r1 o1 "\<lambda>i. packets_in i e" r2 o2] one rest by simp
  with one rest kept_trans show ?case by auto
qed

section \<open>Properties of the running probe\<close>

lemma started_running_ok:
  assumes "main depth env argv = Started p" and "strings_short (rt_settings (pb_runtime p))"
  shows "running_ok (event_loop_start p)"
proof -
  obtain s where s: "settings_ok s" "start_probe env s = Started p" by (rule main_cases [OF assms(1)])
  have "device_type (rt_devices (pb_runtime p) ! i) \<in> {TYPE_PCAP, TYPE_PCAP_FILE, TYPE_SOCKET_INET, TYPE_SOCKET_UNIX}"
    if "i < unat (number_interfaces (rt_opts (pb_runtime p)))" "rt_sources (pb_runtime p) i \<noteq> None" for i
    using start_probe_ok(3) [OF s(2,1) that(1)] that(2) open_device_source by fastforce
  with start_probe_ok(1) [OF s(2,1)] started_handlers [OF assms(1)] assms(2) show ?thesis
    by (simp add: running_ok_def event_loop_start_def)
qed

text \<open>C5: The probe from \<^verbatim>\<open>main\<close> on (names and other strings of its settings below 64 KiB, as the
  16-bit lengths of a record need): after every command line and every sequence of captured packets,
  timers, console data, errors on connections, user input and failures of the outside, the settings keep their
  invariant, every record that was exported fits its template, and for every interface the
  reported plus the pending packet counts are the packets it captured, modulo 2^64.\<close>

theorem probe_runs_sound:
  assumes "main depth env argv = Started p" and "strings_short (rt_settings (pb_runtime p))"
    and "probe_run flo pagesize (event_loop_start p) es outs r"
  shows "settings_ok (settings_of r) \<and> outs_ok outs
    \<and> (\<forall>i < unat (number_interfaces (rt_opts (pb_runtime p))).
        delta r i + reported_delta i outs = delta (event_loop_start p) i + of_nat (sum_list (map (packets_in i) es)))"
  using run_ok [OF assms(3) started_running_ok [OF assms(1,2)]]
  by (simp add: running_ok_def accounts_def event_loop_start_def)

text \<open>C9: The periodic callbacks return: in every state that the started probe reaches (with
  strings below 64 KiB), each active timer can fire and its callback ends in a next state, whatever
  libpcap and libipfix answer. For the probe statistics the files of \<^verbatim>\<open>/proc\<close> may be missing or
  hold anything, except that the second word of the process's \<^verbatim>\<open>stat\<close> file has to fit the 16 bytes
  that it is read into; a longer name of the process overruns them.\<close>

theorem timers_always_return:
  assumes "main depth env argv = Started p" and "strings_short (rt_settings (pb_runtime p))"
    and "probe_run flo pagesize (event_loop_start p) es outs r"
  shows "(t_active (export_timer_pkid (timers_of r)) \<longrightarrow> (\<exists>o1 r1. probe_step flo pagesize r Pktid_timer o1 r1))
    \<and> (t_active (export_timer_sampling (timers_of r)) \<longrightarrow> (\<exists>o1 r1. probe_step flo pagesize r (Sampling_timer ans now) o1 r1))
    \<and> (t_active (export_timer_stats (timers_of r)) \<and> names_fit fs \<longrightarrow> (\<exists>o1 r1. probe_step flo pagesize r (Stats_timer fs junk sent now) o1 r1))
    \<and> (t_active (export_timer_location (timers_of r)) \<longrightarrow> (\<exists>o1 r1. probe_step flo pagesize r (Location_timer sent now) o1 r1))"
proof -
  have ok: "running_ok r" using run_ok [OF assms(3) started_running_ok [OF assms(1,2)]] by simp
  then have short: "strings_short (settings_of r)" by (simp add: running_ok_def)
  from sampling_cb_run [OF ok, of ans now] stats_cb_run [of fs flo pagesize junk sent now "pb_stats (rn_probe r)"]
    location_cb_run [OF short, of sent now]
  show ?thesis using pktid sampling stats location by meson
qed

lemma short_probe: "\<exists>p outs r. main 0 demo_environment [''impd4e'', ''-i'', ''eth0''] = Started p \<and> strings_short (rt_settings (pb_runtime p))
    \<and> probe_run (\<lambda>x. x) 4096 (event_loop_start p) [] outs r \<and> t_active (export_timer_location (timers_of r))
    \<and> t_active (export_timer_stats (timers_of r))"
proof -
  from demo_main obtain p where p: "main 0 demo_environment [''impd4e'', ''-i'', ''eth0''] = Started p"
    "strings_short (rt_settings (pb_runtime p))" by blast
  have "t_active (export_timer_location (timers_of (event_loop_start p))) \<and> t_active (export_timer_stats (timers_of (event_loop_start p)))"
    using started_handlers [OF p(1)] by (simp add: event_loop_start_def export_handler_init_def event_register_timer_def)
  with p show ?thesis by auto
qed

theorem timers_always_return_witness:
  "\<exists>p outs r o1 r1 o2 r2. main 0 demo_environment [''impd4e'', ''-i'', ''eth0''] = Started p
     \<and> probe_run (\<lambda>x. x) 4096 (event_loop_start p) [] outs r \<and> probe_step (\<lambda>x. x) 4096 r (Location_timer True 0) o1 r1
     \<and> probe_step (\<lambda>x. x) 4096 r (Stats_timer demo_files demo_stat True 0) o2 r2"
proof -
  from short_probe obtain p outs r where p: "main 0 demo_environment [''impd4e'', ''-i'', ''eth0''] = Started p"
    "strings_short (rt_settings (pb_runtime p))" "probe_run (\<lambda>x. x) 4096 (event_loop_start p) [] outs r"
    "t_active (export_timer_location (timers_of r))" "t_active (export_timer_stats (timers_of r))" by blast
  from timers_always_return [OF p(1-3), where sent = True and now = 0 and fs = demo_files and junk = demo_stat] p demo_names_fit
  show ?thesis by blast
qed

theorem probe_runs_sound_witness:
  "\<exists>p outs r. main 0 demo_environment [''impd4e'', ''-i'', ''eth0''] = Started p
     \<and> probe_run (\<lambda>x. x) 4096 (event_loop_start p) [Location_timer True 0] outs r \<and> outs_ok outs"
proof -
  from short_probe obtain p where p: "main 0 demo_environment [''impd4e'', ''-i'', ''eth0''] = Started p"
    "strings_short (rt_settings (pb_runtime p))" "t_active (export_timer_location (timers_of (event_loop_start p)))" by auto
  let ?r = "event_loop_start p"
  have "strings_short (settings_of ?r)" using p(2) by (simp add: event_loop_start_def)
  from location_cb_run [OF this, of True 0] location [OF p(3)] obtain o1 r1 where
    "probe_step (\<lambda>x. x) 4096 ?r (Location_timer True 0) o1 r1" by blast
  from probe_run.step [OF this probe_run.none]
  have run: "probe_run (\<lambda>x. x) 4096 ?r [Location_timer True 0] o1 r1" by simp
  from probe_runs_sound [OF p(1,2) run] run p(1) show ?thesis by blast
qed

section \<open>Timers without an interval\<close>

fun is_input :: "probe_event \<Rightarrow> bool" where
  "is_input (User_input env line) = True"
| "is_input _ = False"

fun is_stats :: "probe_event \<Rightarrow> bool" where
  "is_stats (Stats_timer fs junk sent now) = True"
| "is_stats _ = False"

lemma stats_timer_step:
  assumes "probe_step flo pagesize r e outs r'" "reg (pb_netcon (rn_probe r)) = []" "\<not> is_input e"
  shows "export_timer_stats (timers_of r') = (if is_stats e then fired (export_timer_stats (timers_of r)) else export_timer_stats (timers_of r))
    \<and> (is_stats e \<longrightarrow> t_active (export_timer_stats (timers_of r))) \<and> reg (pb_netcon (rn_probe r')) = []"
  using assms
proof (cases rule: probe_step.cases)
  case (console env fd error readable bytes nc rt evs)
  from net_step_idle [OF console(4) assms(2)] show ?thesis using console by simp
next
  case (stale env j error nc rt evs)
  from net_step_idle [OF stale(4) assms(2)] show ?thesis using stale by simp
next
  case (resync alloc collectors nc)
  with resync_timer_reg [OF resync(4)] assms(2) show ?thesis by simp
qed (simp_all add: set_timers_def set_devices_def set_runtime_def Let_def)

lemma stats_at_most:
  "probe_run flo pagesize r es outs r' \<Longrightarrow> reg (pb_netcon (rn_probe r)) = [] \<Longrightarrow> t_repeat (export_timer_stats (timers_of r)) = 0 \<Longrightarrow>
    \<forall>e \<in> set es. \<not> is_input e \<Longrightarrow> length (filter is_stats es) \<le> (if t_active (export_timer_stats (timers_of r)) then 1 else 0)"
proof (induction rule: probe_run.induct)
  case (step r e o1 r1 es o2 r2)
  have one: "export_timer_stats (timers_of r1) = (if is_stats e then fired (export_timer_stats (timers_of r)) else export_timer_stats (timers_of r))"
    "is_stats e \<longrightarrow> t_active (export_timer_stats (timers_of r))" "reg (pb_netcon (rn_probe r1)) = []"
    using stats_timer_step [OF step(1,4)] step(6) by auto
  have "length (filter is_stats es) \<le> (if t_active (export_timer_stats (timers_of r1)) then 1 else 0)"
    by (rule step.IH) (use one step(5,6) in \<open>simp_all add: fired_def\<close>)
  with one step(5) show ?case by (simp add: fired_def split: if_splits)
qed simp

text \<open>C31: An interval of 0 does not switch the probe statistics off, as the usage text says: the first
  record is due at once, and only after it the timer is stopped. So a probe that is started with
  the interval 0 has its statistics timer active and due at once, and in every run in which the
  user types nothing it fires at most once.\<close>

theorem stats_interval_zero:
  assumes "main depth env argv = Started p" "export_stats_interval (rt_opts (pb_runtime p)) = 0"
  shows "t_active (export_timer_stats (timers_of (event_loop_start p))) \<and> t_first (export_timer_stats (timers_of (event_loop_start p))) = 0
    \<and> (\<forall>flo pagesize es outs r. probe_run flo pagesize (event_loop_start p) es outs r \<and> (\<forall>e \<in> set es. \<not> is_input e)
        \<longrightarrow> length (filter is_stats es) \<le> 1)"
proof -
  have t: "export_timer_stats (timers_of (event_loop_start p)) = event_register_timer 0" "reg (pb_netcon (rn_probe (event_loop_start p))) = []"
    using started_handlers [OF assms(1)] assms(2) by (simp_all add: event_loop_start_def export_handler_init_def)
  have "length (filter is_stats es) \<le> 1" if "probe_run flo pagesize (event_loop_start p) es outs r" "\<forall>e \<in> set es. \<not> is_input e"
    for flo pagesize es outs r
    using stats_at_most [OF that(1) t(2) _ that(2)] t(1) by (simp add: event_register_timer_def)
  with t(1) show ?thesis by (auto simp: event_register_timer_def)
qed

text \<open>A run of \<^verbatim>\<open>main\<close> that asks for no probe statistics.\<close>

lemma quiet_line:
  "parse_cmdline_v2 0 (demo_libc []) [''impd4e'', ''-i'', ''eth0'', ''-J'', ''0''] (initial_settings\<lparr>s_logger := l\<rparr>)
    = Returned 0 (upd (\<lambda>x. x\<lparr>export_stats_interval := 0\<rparr>) (initial_settings\<lparr>s_logger := l, s_opts := (s_opts initial_settings)\<lparr>number_interfaces := 1\<rparr>,
        if_devices := demo_eth0 # replicate 9 zero_device\<rparr>))"
proof -
  have z: "strtod (rounding (demo_libc [])) ''0'' = 0" by code_simp
  show ?thesis
    by (simp add: parse_cmdline_v2_def getopt_all.simps par_v2_eq find_opt_function_char_def cfg_opt_list_def
      call_opt_simps with_arg_def demo_opt_i opt_J_def z del: replicate.simps)
qed

lemma quiet_main:
  "\<exists>p. main 0 demo_environment [''impd4e'', ''-i'', ''eth0'', ''-J'', ''0''] = Started p
     \<and> export_stats_interval (rt_opts (pb_runtime p)) = 0"
proof -
  let ?s = "upd (\<lambda>x. x\<lparr>export_stats_interval := 0\<rparr>) (initial_settings\<lparr>s_logger := logger_init init_logger_state 2,
        s_opts := (s_opts initial_settings)\<lparr>number_interfaces := 1\<rparr>, if_devices := demo_eth0 # replicate 9 zero_device\<rparr>)"
  have m: "main 0 demo_environment [''impd4e'', ''-i'', ''eth0'', ''-J'', ''0''] = start_probe demo_environment ?s"
    by (simp add: main_def demo_environment_def quiet_line del: replicate.simps)
  show ?thesis
    unfolding m
    by (simp add: start_probe_def default_probe_name_def initial_settings_def set_defaults_options_def upd_def
        demo_environment_def open_device_def demo_eth0_def open_pcap_def determineLinkType_def
        getIPv4AddressFromDevice_def start_exporter_def libipfix_init_def libipfix_register_templates_def template_order_def no_exporter_def
        libipfix_connect_def start_handlers_def netcon_init_def set_identity_def set_defaults_device_def
        Let_def del: replicate.simps)
qed

text \<open>The record is exported once, and not twice.\<close>

theorem stats_interval_zero_witness:
  "\<exists>p. main 0 demo_environment [''impd4e'', ''-i'', ''eth0'', ''-J'', ''0''] = Started p
     \<and> (let e = Stats_timer demo_files demo_stat True 0 in (\<exists>outs r. probe_run (\<lambda>x. x) 4096 (event_loop_start p) [e] outs r)
         \<and> (\<nexists>outs r. probe_run (\<lambda>x. x) 4096 (event_loop_start p) [e, e] outs r))"
proof -
  let ?e = "Stats_timer demo_files demo_stat True 0"
  obtain p where p: "main 0 demo_environment [''impd4e'', ''-i'', ''eth0'', ''-J'', ''0''] = Started p"
    "export_stats_interval (rt_opts (pb_runtime p)) = 0" using quiet_main by blast
  note zero = stats_interval_zero [OF p]
  obtain st' outs where "export_timer_stats_cb (\<lambda>x. x) 4096 demo_files demo_stat True 0 (pb_stats (rn_probe (event_loop_start p))) = Some (st', outs)"
    using stats_cb_run [OF demo_names_fit] by blast
  from stats [OF conjunct1 [OF zero] this] obtain r where "probe_step (\<lambda>x. x) 4096 (event_loop_start p) ?e outs r" by blast
  from probe_run.step [OF this probe_run.none] have "\<exists>outs r. probe_run (\<lambda>x. x) 4096 (event_loop_start p) [?e] outs r" by blast
  moreover have "\<not> probe_run (\<lambda>x. x) 4096 (event_loop_start p) [?e, ?e] outs r" for outs r
  proof
    assume run: "probe_run (\<lambda>x. x) 4096 (event_loop_start p) [?e, ?e] outs r"
    have "\<forall>e \<in> set [?e, ?e]. \<not> is_input e" by simp
    with run zero have "length (filter is_stats [?e, ?e]) \<le> 1" by blast
    then show False by simp
  qed
  ultimately show ?thesis using p(1) unfolding Let_def by blast
qed

end
