(* ===== verification/Path_Props.thy ===== *)
theory Path_Props
  imports Packet_Props
begin

unbundle bit_operations_syntax

text \<open>
  What the program is for: two probes on the path of a packet take the same decision, and the
  collector recognises the packet by its hash. The probes may differ in everything but the hash
  function, the selection, the ranges and the hash window; between them routers rewrite the link
  header and count down the TTL or the hop limit.
\<close>

section \<open>Frames before and after a hop\<close>

inductive hop :: "capture \<Rightarrow> capture \<Rightarrow> bool" where
  hopI: "ether_frame eth t \<Longrightarrow> ether_frame eth' t \<Longrightarrow> net_header ih t proto \<Longrightarrow> same_but ih ih' (hop_bytes 0 t) \<Longrightarrow>
    transport_header proto th \<Longrightarrow> pay \<noteq> [] \<Longrightarrow> captured c (eth @ ih @ th @ pay) \<Longrightarrow>
    captured c' (eth' @ ih' @ th @ pay) \<Longrightarrow> hop c c'"

inductive_cases hopE: "hop c c'"

lemma hop_net_header:
  assumes "net_header ih t proto" "same_but ih ih' (hop_bytes 0 t)"
  shows "net_header ih' t proto"
proof -
  have eq: "ih' ! i = ih ! i" if "i < length ih" "i \<notin> hop_bytes 0 t" for i
    using assms(2) that by (auto simp: same_but_def)
  have len: "length ih' = length ih" "10 \<le> length ih" using assms
    by (auto simp: same_but_def net_header_def ip4_header_def ip6_header_def)
  then have "0 < length ih" "9 < length ih" "6 < length ih" by linarith+
  then have "ih' ! 0 = ih ! 0" "t = N_IP \<Longrightarrow> ih' ! 9 = ih ! 9" "t = N_IP6 \<Longrightarrow> ih' ! 6 = ih ! 6"
    by (simp_all add: eq hop_bytes_def)
  with assms(1) len(1) show ?thesis
    by (auto simp: net_header_def ip4_header_def ip6_header_def)
qed

lemma net_header_version:
  assumes "net_header ih t proto"
  shows "version (ih @ rest) 0 = t"
    and "t = N_IP \<and> 3 \<le> unat ((ih @ rest) ! 0 AND 0x0F) \<or> t = N_IP6"
proof -
  have "ih \<noteq> []" using assms by (auto simp: net_header_def ip4_header_def ip6_header_def)
  then have hd: "(ih @ rest) ! 0 = ih ! 0" by (simp add: nth_append)
  show "version (ih @ rest) 0 = t" "t = N_IP \<and> 3 \<le> unat ((ih @ rest) ! 0 AND 0x0F) \<or> t = N_IP6"
    unfolding hd version_def using assms by (auto simp: net_header_def ip4_header_def ip6_header_def)
qed

lemma same_but_append: "same_but xs ys S \<Longrightarrow> same_but (xs @ zs) (ys @ zs) S"
  by (auto simp: same_but_def nth_append)

section \<open>The decision of two probes\<close>

definition same_sampling :: "options \<Rightarrow> options \<Rightarrow> bool" where
  "same_sampling opts opts' \<longleftrightarrow> hash_function opts' = hash_function opts \<and> selection_function opts' = selection_function opts
     \<and> sel_range_min opts' = sel_range_min opts \<and> sel_range_max opts' = sel_range_max opts"

lemma packet_hash_options:
  assumes "same_sampling opts opts'" "lvl \<noteq> LOGGER_LEVEL_DEBUG" "lvl' \<noteq> LOGGER_LEVEL_DEBUG"
  shows "packet_hash opts' rs lvl' p b = packet_hash opts rs lvl p b"
  unfolding packet_hash_def Let_def using assms
  by (intro Option.bind_cong refl) (auto simp: same_sampling_def intro!: Option.bind_cong split: prod.splits)

text \<open>A probe that exports what it samples.\<close>

definition path_ready :: "options \<Rightarrow> range_select list \<Rightarrow> int \<Rightarrow> device \<Rightarrow> bool" where
  "path_ready opts rs lvl dev \<longleftrightarrow> ethernet_device dev \<and> opt_offset opts = 0 \<and> 0 < export_pktid_interval opts
     \<and> sampling_ready opts rs lvl dev"

lemma hop_hash:
  assumes "hop c c'" "path_ready opts rs lvl dev" "path_ready opts' rs lvl' dev'" "same_sampling opts opts'"
    and "skips_hop_bytes (selection_function opts)" "b_size (hash_buffer dev) = b_size (hash_buffer dev')"
  shows "map_option ph_hash (packet_hash opts' rs lvl' (frame_packet c') (hash_buffer dev'))
    = map_option ph_hash (packet_hash opts rs lvl (frame_packet c) (hash_buffer dev))"
proof -
  obtain eth t eth' ih proto ih' th pay where hopI: "ether_frame eth t" "ether_frame eth' t" "net_header ih t proto"
      "same_but ih ih' (hop_bytes 0 t)" "transport_header proto th" "pay \<noteq> []" "captured c (eth @ ih @ th @ pay)"
      "captured c' (eth' @ ih' @ th @ pay)"
    by (rule hopE [OF assms(1)])
  note w = frame_packet_whole(1) [OF hopI(1,3,5,6,7)]
  note w' = frame_packet_whole(1) [OF hopI(2) hop_net_header [OF hopI(3,4)] hopI(5,6,8)]
  have v: "pview (frame_packet c) = ih @ th @ pay" "pview (frame_packet c') = ih' @ th @ pay"
    using w w' by (auto simp: whole_packet_def)
  have "unat (p_len (frame_packet c')) = unat (p_len (frame_packet c))"
    using w w' hopI(4) by (simp add: whole_packet_def same_but_def)
  then have len: "p_len (frame_packet c') = p_len (frame_packet c)" by (simp add: word_unat_eq_iff)
  have lvls: "lvl \<noteq> LOGGER_LEVEL_DEBUG" "lvl' \<noteq> LOGGER_LEVEL_DEBUG"
    and b: "buffer_ok (hash_buffer dev)" "buffer_ok (hash_buffer dev')"
    using assms(2,3) by (auto simp: path_ready_def sampling_ready_def)
  show ?thesis
    unfolding packet_hash_options [OF assms(4) lvls]
    by (subst packet_hash_hop [of "frame_packet c"])
       (use hopI(4) v len net_header_version [OF hopI(3)] same_but_append assms(5,6) b in
        \<open>auto intro: packet_hash_bsim\<close>)
qed

text \<open>The hashes the collector reads from the records.\<close>

fun record_hash :: "ipfix_event \<Rightarrow> u32 list" where
  "record_hash (Export t_id ((F64 tv, n) # (F32 h, m) # fs)) = [h]"
| "record_hash e = []"

definition sampled_hashes :: "ipfix_event list \<Rightarrow> u32 list" where
  "sampled_hashes evs = concat (map record_hash evs)"

lemma sampled_hashes_append: "sampled_hashes (xs @ ys) = sampled_hashes xs @ sampled_hashes ys"
  by (simp add: sampled_hashes_def)

text \<open>What one packet adds to the records, by its hash alone.\<close>

definition decision :: "options \<Rightarrow> u32 option \<Rightarrow> u32 list" where
  "decision opts h = (case h of None \<Rightarrow> [] | Some v \<Rightarrow> if in_range opts v then [v] else [])"

lemma handle_ip_packet_decision:
  assumes run: "handle_ip_packet opts rs lvl p info dev = Some (dev', evs)" and ex: "exporting opts dev"
    and r: "packet_hash opts rs lvl p (hash_buffer dev) = Some r"
  shows "sampled_hashes evs = decision opts (ph_hash r)
    \<and> sampling_size dev' = sampling_size dev + of_nat (length (decision opts (ph_hash r)))"
  using run
proof (cases rule: handle_ip_packet_cases)
  case (exported r' v tmpl fs)
  with r show ?thesis by (auto simp: decision_def sampled_hashes_def)
next
  case (counted r' v)
  with ex show ?thesis by (simp add: exporting_def)
qed (use r in \<open>auto simp: decision_def sampled_hashes_def\<close>)

section \<open>A stream of packets\<close>

abbreviation (input) hash_of :: "options \<Rightarrow> range_select list \<Rightarrow> int \<Rightarrow> capture \<Rightarrow> device \<Rightarrow> u32 option" where
  "hash_of opts rs lvl c dev \<equiv> Option.bind (map_option ph_hash (packet_hash opts rs lvl (frame_packet c) (hash_buffer dev))) id"

lemma path_step:
  assumes ready: "path_ready opts rs lvl dev"
    and frame: "ether_frame eth t" "net_header ih t proto" "transport_header proto th" "pay \<noteq> []"
    and c: "captured c (eth @ ih @ th @ pay)"
  obtains d evs where "handle_packet opts rs lvl c dev = Some (d, evs)" "path_ready opts rs lvl d"
    "b_size (hash_buffer d) = b_size (hash_buffer dev)" "sampled_hashes evs = decision opts (hash_of opts rs lvl c dev)"
    "sampling_size d = sampling_size dev + of_nat (length (decision opts (hash_of opts rs lvl c dev)))"
proof -
  have eth: "ethernet_device dev" and off: "opt_offset opts = 0" and sr: "sampling_ready opts rs lvl dev"
    and ex: "exporting opts (seen dev)"
    using ready by (auto simp: path_ready_def sampling_ready_def exporting_def effective_template_def)
  obtain info where ip: "handle_packet opts rs lvl c dev = handle_ip_packet opts rs lvl (frame_packet c) info (seen dev)"
    by (rule handle_ethernet_ip [OF eth off frame c])
  obtain d evs where run: "handle_packet opts rs lvl c dev = Some (d, evs)"
    using handle_ethernet_total [OF _ _ _ off sr frame c] eth by (auto simp: ethernet_device_def)
  note run' = run [unfolded ip]
  from run' obtain r where r: "packet_hash opts rs lvl (frame_packet c) (hash_buffer (seen dev)) = Some r"
    by (auto simp: handle_ip_packet_def bind_Some_conv)
  have "buffer_ok (hash_buffer (seen dev))" using sr by (simp add: sampling_ready_def)
  note buf = handle_ip_packet_buffer [OF run' this]
  have "effective_template opts d = effective_template opts dev"
    using device_frame [OF run'] by (simp add: effective_template_def)
  with ready device_frame [OF run'] buf have "path_ready opts rs lvl d"
    by (auto simp: path_ready_def sampling_ready_def ethernet_device_def)
  with that run buf handle_ip_packet_decision [OF run' ex r] r show thesis by simp
qed

lemma hop_step:
  assumes "hop c c'" "path_ready opts rs lvl dev" "path_ready opts' rs lvl' dev'" "same_sampling opts opts'"
    and "skips_hop_bytes (selection_function opts)" "b_size (hash_buffer dev) = b_size (hash_buffer dev')"
  obtains d evs d' evs' hs where
    "handle_packet opts rs lvl c dev = Some (d, evs)" "handle_packet opts' rs lvl' c' dev' = Some (d', evs')"
    "path_ready opts rs lvl d" "path_ready opts' rs lvl' d'" "b_size (hash_buffer d) = b_size (hash_buffer d')"
    "sampled_hashes evs = hs" "sampled_hashes evs' = hs" "sampling_size d = sampling_size dev + of_nat (length hs)"
    "sampling_size d' = sampling_size dev' + of_nat (length hs)"
proof -
  obtain eth t eth' ih proto ih' th pay where h: "ether_frame eth t" "ether_frame eth' t" "net_header ih t proto"
      "same_but ih ih' (hop_bytes 0 t)" "transport_header proto th" "pay \<noteq> []" "captured c (eth @ ih @ th @ pay)"
      "captured c' (eth' @ ih' @ th @ pay)"
    by (rule hopE [OF assms(1)])
  have same: "decision opts' (hash_of opts' rs lvl' c' dev') = decision opts (hash_of opts rs lvl c dev)"
    unfolding hop_hash [OF assms] using assms(4)
    by (simp add: decision_def in_range_def same_sampling_def cong: option.case_cong)
  obtain d evs where 1: "handle_packet opts rs lvl c dev = Some (d, evs)" "path_ready opts rs lvl d"
      "b_size (hash_buffer d) = b_size (hash_buffer dev)" "sampled_hashes evs = decision opts (hash_of opts rs lvl c dev)"
      "sampling_size d = sampling_size dev + of_nat (length (decision opts (hash_of opts rs lvl c dev)))"
    by (rule path_step [OF assms(2) h(1,3,5,6,7)])
  obtain d' evs' where 2: "handle_packet opts' rs lvl' c' dev' = Some (d', evs')" "path_ready opts' rs lvl' d'"
      "b_size (hash_buffer d') = b_size (hash_buffer dev')" "sampled_hashes evs' = decision opts' (hash_of opts' rs lvl' c' dev')"
      "sampling_size d' = sampling_size dev' + of_nat (length (decision opts' (hash_of opts' rs lvl' c' dev')))"
    by (rule path_step [OF assms(3) h(2) hop_net_header [OF h(3,4)] h(5,6,8)])
  from 1 2 assms(6) show thesis
    by (intro that [of d evs d' evs' "decision opts (hash_of opts rs lvl c dev)"]) (simp_all add: same)
qed

text \<open>C2: Probes on a path sample the same packets: for every stream of complete IP packets with
  payload in Ethernet frames and the same stream behind routers (new link headers, TTL and checksum
  or hop limit changed), two probes that are ready to sample, with the same hash function,
  selection, ranges, window and buffer size, both process it without a memory fault and export
  records with the same hashes in the same order, and count the same number of samples, whatever
  their templates, flush limits, counters and the stale contents of their buffers are. The
  selection has to skip what routers change.\<close>

theorem probes_on_path_agree:
  assumes "list_all2 hop cs cs'" "path_ready opts rs lvl dev" "path_ready opts' rs lvl' dev'" "same_sampling opts opts'"
    and "skips_hop_bytes (selection_function opts)" "b_size (hash_buffer dev) = b_size (hash_buffer dev')"
  shows "\<exists>d evs d' evs'. handle_packets opts rs lvl cs dev = Some (d, evs)
    \<and> handle_packets opts' rs lvl' cs' dev' = Some (d', evs') \<and> sampled_hashes evs' = sampled_hashes evs
    \<and> sampling_size d - sampling_size dev = of_nat (length (sampled_hashes evs))
    \<and> sampling_size d' - sampling_size dev' = of_nat (length (sampled_hashes evs))"
  using assms(1-3,6)
proof (induction arbitrary: dev dev' rule: list_all2_induct)
  case Nil
  then show ?case by (simp add: sampled_hashes_def)
next
  case (Cons c cs c' cs')
  obtain d1 e1 d1' e1' hs where one: "handle_packet opts rs lvl c dev = Some (d1, e1)" "handle_packet opts' rs lvl' c' dev' = Some (d1', e1')"
      "path_ready opts rs lvl d1" "path_ready opts' rs lvl' d1'" "b_size (hash_buffer d1) = b_size (hash_buffer d1')"
      "sampled_hashes e1 = hs" "sampled_hashes e1' = hs" "sampling_size d1 = sampling_size dev + of_nat (length hs)"
      "sampling_size d1' = sampling_size dev' + of_nat (length hs)"
    by (rule hop_step [OF Cons.hyps(1) Cons.prems(1,2) assms(4,5) Cons.prems(3)])
  from Cons.IH [OF one(3-5)] obtain d e2 d' e2' where rest: "handle_packets opts rs lvl cs d1 = Some (d, e2)"
      "handle_packets opts' rs lvl' cs' d1' = Some (d', e2')" "sampled_hashes e2' = sampled_hashes e2"
      "sampling_size d - sampling_size d1 = of_nat (length (sampled_hashes e2))"
      "sampling_size d' - sampling_size d1' = of_nat (length (sampled_hashes e2))" by blast
  have "sampling_size d - sampling_size dev = of_nat (length (sampled_hashes (e1 @ e2)))"
    "sampling_size d' - sampling_size dev' = of_nat (length (sampled_hashes (e1 @ e2)))"
    using rest(4,5) one(6,8,9) by (simp_all add: sampled_hashes_append algebra_simps)
  with one(1,2,6,7) rest(1-3) show ?case by (simp add: sampled_hashes_append)
qed

text \<open>The packet of the demo probe one hop later, at a probe with another template.\<close>

definition hop_capture :: capture where
  "hop_capture = \<lparr>c_data = (replicate 12 7 @ [8, 0]) @ demo_ip 63 @ replicate 8 0 @ [1, 2],
     c_caplen = 44, c_len = 44, c_ts = \<lparr>tv_sec = 0, tv_usec = 250\<rparr>\<rparr>"

lemma demo_hop: "hop demo_capture hop_capture"
proof (rule hopI [where eth = "replicate 12 0 @ [8, 0]" and eth' = "replicate 12 7 @ [8, 0]" and ih = "demo_ip 64"
    and ih' = "demo_ip 63" and t = N_IP and proto = T_UDP and th = "replicate 8 0" and pay = "[1, 2]"])
  show "same_but (demo_ip 64) (demo_ip 63) (hop_bytes 0 N_IP)"
    by (auto simp: same_but_def hop_bytes_def demo_ip_def nth_Cons split: nat.splits)
qed (simp_all add: ether_frame_def net_header_def ip4_header_def transport_header_def captured_def demo_capture_def
    hop_capture_def demo_ip_def nth_append)

theorem probes_on_path_agree_witness:
  "\<exists>d evs d' evs'. handle_packets demo_options [] 0 [demo_capture, demo_capture] demo_device = Some (d, evs)
    \<and> handle_packets (demo_options\<lparr>export_packet_count := 7, observationDomainID := 2\<rparr>) [] 2 [hop_capture, hop_capture]
         (demo_device\<lparr>template_id := TS_ID, sampling_size := 5\<rparr>) = Some (d', evs')
    \<and> sampled_hashes evs' = sampled_hashes evs"
proof -
  let ?opts = "demo_options\<lparr>export_packet_count := 7, observationDomainID := 2\<rparr>"
  let ?dev = "demo_device\<lparr>template_id := TS_ID, sampling_size := 5\<rparr>"
  have 1: "path_ready demo_options [] 0 demo_device"
    using demo_ready by (simp add: path_ready_def ethernet_device_def) (simp add: demo_options_def demo_device_def)
  have "sampling_ready ?opts [] 2 ?dev"
    by (simp add: sampling_ready_def demo_options_def demo_device_def buffer_ok_def ranges_ok_def
        safe_selection_def effective_template_def)
  then have 2: "path_ready ?opts [] 2 ?dev"
    by (simp add: path_ready_def ethernet_device_def) (simp add: demo_options_def demo_device_def)
  have "list_all2 hop [demo_capture, demo_capture] [hop_capture, hop_capture]" by (simp add: demo_hop)
  from probes_on_path_agree [OF this 1 2] show ?thesis
    by (auto simp: same_sampling_def demo_options_def skips_hop_bytes_def)
qed

end
