(* ===== verification/Path_Runs.thy ===== *)
theory Path_Runs
  imports Probe Path_Props
begin

text \<open>
  The property that the program exists for, on the running probes: two probes that \<^verbatim>\<open>main\<close> has
  started send the collector the same hashes for the traffic that passes both, however their
  watchers, timers, resynchronisations and console connections interleave. What a run sends for
  an interface is a function of its packets (\<open>packet_hashes\<close>).
\<close>

section \<open>The hashes of a packet\<close>

inductive ip_frame :: "capture \<Rightarrow> bool" where
  ip_frameI: "ether_frame eth t \<Longrightarrow> net_header ih t proto \<Longrightarrow> transport_header proto th \<Longrightarrow> pay \<noteq> [] \<Longrightarrow>
    captured c (eth @ ih @ th @ pay) \<Longrightarrow> ip_frame c"

inductive_cases ip_frameE: "ip_frame c"

lemma hop_frames: "hop c c' \<Longrightarrow> ip_frame c \<and> ip_frame c'"
  by (cases rule: hop.cases) (blast intro: ip_frameI hop_net_header)+

definition fresh_buffer :: "u32 \<Rightarrow> buffer" where
  "fresh_buffer n = \<lparr>b_mem = replicate (unat n) 0, b_len = 0, b_size = n\<rparr>"

lemma fresh_buffer_ok [simp]: "buffer_ok (fresh_buffer n)" "b_size (fresh_buffer n) = n"
  by (simp_all add: fresh_buffer_def buffer_ok_def)

definition packet_hashes :: "options \<Rightarrow> range_select list \<Rightarrow> int \<Rightarrow> u32 \<Rightarrow> capture \<Rightarrow> u32 list" where
  "packet_hashes opts rs lvl n c =
     decision opts (Option.bind (map_option ph_hash (packet_hash opts rs lvl (frame_packet c) (fresh_buffer n))) id)"

lemma path_ready_buffer: "path_ready opts rs lvl dev \<Longrightarrow> buffer_ok (hash_buffer dev)"
  by (simp add: path_ready_def sampling_ready_def)

lemma packet_hashes_of:
  assumes "buffer_ok b" "b_size b = n"
  shows "packet_hashes opts rs lvl n c = decision opts (Option.bind (map_option ph_hash (packet_hash opts rs lvl (frame_packet c) b)) id)"
  unfolding packet_hashes_def using packet_hash_bsim [of b "fresh_buffer n"] assms by simp

lemma handle_packet_hashes:
  assumes "path_ready opts rs lvl dev" "ip_frame c"
  obtains d evs where "handle_packet opts rs lvl c dev = Some (d, evs)" "path_ready opts rs lvl d"
    "b_size (hash_buffer d) = b_size (hash_buffer dev)"
    "sampled_hashes evs = packet_hashes opts rs lvl (b_size (hash_buffer dev)) c"
proof -
  obtain eth t ih proto th pay where f: "ether_frame eth t" "net_header ih t proto" "transport_header proto th" "pay \<noteq> []"
      "captured c (eth @ ih @ th @ pay)" by (rule ip_frameE [OF assms(2)])
  show thesis
    using packet_hashes_of [OF path_ready_buffer [OF assms(1)] refl] that
    by (metis path_step [OF assms(1) f])
qed

lemma handle_packets_hashes:
  "handle_packets opts rs lvl cs dev = Some (d, evs) \<Longrightarrow> path_ready opts rs lvl dev \<Longrightarrow> list_all ip_frame cs \<Longrightarrow>
    path_ready opts rs lvl d \<and> b_size (hash_buffer d) = b_size (hash_buffer dev)
    \<and> sampled_hashes evs = concat (map (packet_hashes opts rs lvl (b_size (hash_buffer dev))) cs)"
proof (induction cs arbitrary: dev evs)
  case Nil
  then show ?case by (simp add: sampled_hashes_def)
next
  case (Cons c cs)
  obtain d1 e1 where one: "handle_packet opts rs lvl c dev = Some (d1, e1)" "path_ready opts rs lvl d1"
      "b_size (hash_buffer d1) = b_size (hash_buffer dev)" "sampled_hashes e1 = packet_hashes opts rs lvl (b_size (hash_buffer dev)) c"
    using handle_packet_hashes [OF Cons.prems(2)] Cons.prems(3) by auto
  with Cons.prems obtain e2 where rest: "handle_packets opts rs lvl cs d1 = Some (d, e2)" "evs = e1 @ e2"
    by (auto simp: bind_Some_conv)
  from Cons.IH [OF rest(1) one(2)] Cons.prems(3) one(3,4) rest(2) show ?case by (simp add: sampled_hashes_append)
qed

text \<open>Behind a hop the hashes are the same.\<close>

lemma packet_hashes_hop:
  assumes "hop c c'" "path_ready opts rs lvl dev" "path_ready opts' rs lvl' dev'" "same_sampling opts opts'"
    and "skips_hop_bytes (selection_function opts)" "b_size (hash_buffer dev) = n" "b_size (hash_buffer dev') = n"
  shows "packet_hashes opts' rs lvl' n c' = packet_hashes opts rs lvl n c"
proof -
  have "packet_hashes opts rs lvl n c = decision opts (hash_of opts rs lvl c dev)"
    "packet_hashes opts' rs lvl' n c' = decision opts' (hash_of opts' rs lvl' c' dev')"
    using packet_hashes_of [OF path_ready_buffer [OF assms(2)] assms(6)] packet_hashes_of [OF path_ready_buffer [OF assms(3)] assms(7)]
    by blast+
  moreover have "hash_of opts' rs lvl' c' dev' = hash_of opts rs lvl c dev"
    using hop_hash [OF assms(1-5)] assms(6,7) by simp
  ultimately show ?thesis
    using assms(4) by (simp add: decision_def in_range_def same_sampling_def cong: option.case_cong)
qed

section \<open>The steps of a running probe\<close>

fun captures_of :: "nat \<Rightarrow> probe_event \<Rightarrow> capture list" where
  "captures_of i (Captured j dispatch revents) = (if j = i then fst (dispatch PCAP_DISPATCH_PACKET_COUNT) else [])"
| "captures_of i _ = []"

definition stream :: "nat \<Rightarrow> probe_event list \<Rightarrow> capture list" where
  "stream i es = concat (map (captures_of i) es)"

text \<open>What the probe sends for interface \<open>i\<close>.\<close>

definition exported_hashes :: "nat \<Rightarrow> probe_out list \<Rightarrow> u32 list" where
  "exported_hashes i outs = sampled_hashes (data_of i outs)"

abbreviation level_of :: "running \<Rightarrow> int" where "level_of r \<equiv> logger_get_level (s_logger (settings_of r))"

definition samples :: "nat \<Rightarrow> u32 \<Rightarrow> running \<Rightarrow> bool" where
  "samples i n r \<longleftrightarrow> running_ok r \<and> i < unat (number_interfaces (opts_of r))
     \<and> path_ready (opts_of r) (s_rSel (settings_of r)) (level_of r) (devs_of r ! i) \<and> b_size (hash_buffer (devs_of r ! i)) = n"

text \<open>The settings that decide on a packet.\<close>

definition deciding :: "running \<Rightarrow> options \<times> range_select list \<times> int" where
  "deciding r = (opts_of r, s_rSel (settings_of r), level_of r)"

text \<open>Two devices that differ in the counters of the reports only.\<close>

definition same_but_counts :: "device \<Rightarrow> device \<Rightarrow> bool" where
  "same_but_counts d d' \<longleftrightarrow>
     d'\<lparr>sampling_size := 0, sampling_delta_count := 0\<rparr> = d\<lparr>sampling_size := 0, sampling_delta_count := 0\<rparr>"

lemma same_but_counts_refl [simp]: "same_but_counts d d"
  by (simp add: same_but_counts_def)

lemma same_but_counts_trans: "same_but_counts a b \<Longrightarrow> same_but_counts b c \<Longrightarrow> same_but_counts a c"
  by (simp add: same_but_counts_def)

lemma path_ready_counts: "path_ready opts rs lvl (d\<lparr>sampling_size := 0, sampling_delta_count := 0\<rparr>) = path_ready opts rs lvl d"
  by (simp add: path_ready_def ethernet_device_def sampling_ready_def effective_template_def)

lemma same_but_counts_ready:
  assumes "same_but_counts d d'"
  shows "path_ready opts rs lvl d' = path_ready opts rs lvl d" "hash_buffer d' = hash_buffer d"
proof -
  note eq = assms [unfolded same_but_counts_def]
  show "path_ready opts rs lvl d' = path_ready opts rs lvl d" using path_ready_counts eq by metis
  have "hash_buffer d' = hash_buffer (d'\<lparr>sampling_size := 0, sampling_delta_count := 0\<rparr>)" by simp
  also have "\<dots> = hash_buffer d" unfolding eq by simp
  finally show "hash_buffer d' = hash_buffer d" .
qed

lemma interface_stats_counts:
  assumes "export_data_interface_stats a dev time n k = Some (d, evs)" shows "same_but_counts dev d"
proof -
  have "d = dev \<or> d = dev\<lparr>sampling_size := 0, sampling_delta_count := 0\<rparr>"
    using assms by (auto simp: export_data_interface_stats_def bind_Some_conv Let_def split: if_splits)
  then show ?thesis by (auto simp: same_but_counts_def)
qed

lemma sampling_from_counts:
  "sampling_from ans time j k devs = Some (devs', outs) \<Longrightarrow> same_but_counts (devs ! i) (devs' ! i) \<and> data_of i outs = []"
proof (induction k arbitrary: j devs outs)
  case (Suc k)
  from Suc.prems obtain d evs outs' where one: "export_data_interface_stats (ans j) (devs ! j) time (sampling_size (devs ! j)) (sampling_delta_count (devs ! j)) = Some (d, evs)"
    and rest: "sampling_from ans time (Suc j) k (devs[j := d]) = Some (devs', outs')" "outs = map (Report j) evs @ outs'"
    by (auto simp: Let_def bind_Some_conv)
  have "same_but_counts (devs ! i) (devs[j := d] ! i)"
    using interface_stats_counts [OF one] by (cases "j < length devs") (auto simp: nth_list_update list_update_beyond)
  with Suc.IH [OF rest(1)] rest(2) show ?case by (auto simp: data_of_append data_of_map intro: same_but_counts_trans)
qed simp

lemma samples_step:
  assumes "probe_step flo pagesize r e outs r'" "samples i n r" "\<not> is_input e" "list_all ip_frame (captures_of i e)"
  shows "samples i n r' \<and> deciding r' = deciding r
    \<and> exported_hashes i outs = concat (map (packet_hashes (opts_of r) (s_rSel (settings_of r)) (level_of r) n) (captures_of i e))"
proof -
  have ok: "running_ok r" and i: "i < unat (number_interfaces (opts_of r))" using assms(2) by (simp_all add: samples_def)
  have ok': "running_ok r'" using step_ok [OF assms(1) ok] by simp
  have same: "samples i n r' \<and> deciding r' = deciding r"
    if "deciding r' = deciding r" "same_but_counts (devs_of r ! i) (devs_of r' ! i)"
    using that assms(2) ok' same_but_counts_ready [OF that(2)] by (auto simp: samples_def deciding_def)
  show ?thesis
    using assms(1)
  proof (cases rule: probe_step.cases)
    case (captured j dispatch revents dev' evs act)
    have "device_type (devs_of r ! j) \<in> {TYPE_PCAP, TYPE_PCAP_FILE, TYPE_SOCKET_INET, TYPE_SOCKET_UNIX}"
      using ok captured(4,5) unfolding running_ok_def by blast
    from packet_watcher_run [OF captured(6) this]
    have h: "handle_packets (opts_of r) (s_rSel (settings_of r)) (level_of r) (fst (dispatch PCAP_DISPATCH_PACKET_COUNT)) (devs_of r ! j) = Some (dev', evs)" .
    show ?thesis
    proof (cases "j = i")
      case True
      from handle_packets_hashes [OF h] assms(2,4) captured(1) True
      show ?thesis using captured(2,3) ok' running_index [OF ok i]
        by (auto simp: samples_def deciding_def exported_hashes_def data_of_map)
    next
      case False
      then show ?thesis using same captured
        by (auto simp: deciding_def exported_hashes_def data_of_map sampled_hashes_def)
    qed
  next
    case (sampling ans now devs')
    from sampling(4) have "same_but_counts (devs_of r ! i) (devs' ! i) \<and> data_of i outs = []"
      by (auto simp: export_timer_sampling_cb_def bind_Some_conv data_of_append data_of_map dest: sampling_from_counts)
    with same sampling show ?thesis by (auto simp: deciding_def exported_hashes_def sampled_hashes_def)
  next
    case (stats fs junk sent now st')
    from stats(4) obtain evs where "outs = map Other evs" by (rule stats_cb_ok)
    with same stats show ?thesis by (auto simp: deciding_def exported_hashes_def sampled_hashes_def data_of_map Let_def)
  next
    case (location sent now)
    have "strings_short (settings_of r)" using ok by (simp add: running_ok_def)
    from location_cb_run [OF this, of sent now] location(4) obtain evs where "outs = map Other evs" by auto
    with same location show ?thesis by (auto simp: deciding_def exported_hashes_def sampled_hashes_def data_of_map)
  next
    case (console env fd error readable bytes nc rt evs)
    have "reg (pb_netcon (rn_probe r)) = []" using ok by (simp add: running_ok_def)
    from net_step_idle [OF console(4) this] have "rt = pb_runtime (rn_probe r)" "evs = []" by simp_all
    with same console show ?thesis by (auto simp: deciding_def exported_hashes_def sampled_hashes_def)
  next
    case (stale env j error nc rt evs)
    have "reg (pb_netcon (rn_probe r)) = []" using ok by (simp add: running_ok_def)
    from net_step_idle [OF stale(4) this] have "rt = pb_runtime (rn_probe r)" "evs = []" by simp_all
    with same stale show ?thesis by (auto simp: deciding_def exported_hashes_def sampled_hashes_def)
  qed (use same assms(3) in \<open>auto simp: deciding_def exported_hashes_def sampled_hashes_def export_timer_pktid_cb_def data_of_map\<close>)
qed

lemma samples_run:
  "probe_run flo pagesize r es outs r' \<Longrightarrow> samples i n r \<Longrightarrow> \<forall>e \<in> set es. \<not> is_input e \<Longrightarrow> list_all ip_frame (stream i es) \<Longrightarrow>
    exported_hashes i outs = concat (map (packet_hashes (opts_of r) (s_rSel (settings_of r)) (level_of r) n) (stream i es))"
proof (induction rule: probe_run.induct)
  case (none r)
  then show ?case by (simp add: stream_def exported_hashes_def sampled_hashes_def)
next
  case (step r e o1 r1 es o2 r2)
  from step.prems have s: "list_all ip_frame (captures_of i e)" "list_all ip_frame (stream i es)" "\<not> is_input e"
    by (simp_all add: stream_def)
  from samples_step [OF step.hyps(1) step.prems(1) s(3,1)] step.IH s(2) step.prems(2)
  show ?case by (auto simp: stream_def exported_hashes_def deciding_def data_of_append sampled_hashes_append)
qed

section \<open>Two started probes\<close>

text \<open>Interface \<open>i\<close> of a started probe captures on an Ethernet and samples.\<close>

definition samples_at_start :: "environment \<Rightarrow> probe \<Rightarrow> nat \<Rightarrow> bool" where
  "samples_at_start env p i \<longleftrightarrow> (let opts = rt_opts (pb_runtime p); dev = rt_devices (pb_runtime p) ! i in
     i < unat (number_interfaces opts) \<and> (device_type dev = TYPE_PCAP \<or> device_type dev = TYPE_PCAP_FILE)
     \<and> os_datalink (en_os env i) = DLT_EN10MB \<and> opt_offset opts = 0 \<and> 0 < export_pktid_interval opts
     \<and> 59 \<le> unat (b_size (hash_buffer dev)) \<and> safe_selection (selection_function opts)
     \<and> ranges_ok (s_rSel (rt_settings (pb_runtime p)))
     \<and> logger_get_level (s_logger (rt_settings (pb_runtime p))) \<noteq> LOGGER_LEVEL_DEBUG
     \<and> strings_short (rt_settings (pb_runtime p)))"

lemma started_samples:
  assumes "main depth env argv = Started p" "samples_at_start env p i"
  shows "samples i (b_size (hash_buffer (rt_devices (pb_runtime p) ! i))) (event_loop_start p)"
proof -
  let ?opts = "rt_opts (pb_runtime p)" and ?dev = "rt_devices (pb_runtime p) ! i"
  note a = assms(2) [unfolded samples_at_start_def Let_def]
  have "link_type ?dev = DLT_EN10MB \<and> pkt_offset ?dev = 14
    \<and> sampling_ready ?opts (s_rSel (rt_settings (pb_runtime p))) (logger_get_level (s_logger (rt_settings (pb_runtime p)))) ?dev"
    using started_ready [OF assms(1) refl refl, of i] a by blast
  with a started_running_ok [OF assms(1)] show ?thesis
    by (simp add: samples_def path_ready_def ethernet_device_def event_loop_start_def)
qed

text \<open>C1: Two probes on a path, each started by \<^verbatim>\<open>main\<close> from a command line of its own, send the collector
  the same hashes in the same order for the complete IP packets that pass both: whatever their
  timers, failed exports, resynchronisations, console connections and other interfaces do in
  between, whatever the templates, names and intervals are, and with routers on the way. The
  probes agree on hash function, selection, ranges, window and snap length, the selection
  skips what routers change, and the user does not change the settings meanwhile. Both interfaces
  capture on an Ethernet with packet ids switched on (the interval of \<open>-I\<close> is not 0), the offset of \<open>-O\<close> 0,
  a buffer of at least 59 bytes, a selection other than \<open>REC8\<close> and \<open>PACKET\<close>, ranges that are
  not negative, strings below 64 KiB and a log level other than debug.\<close>

theorem started_probes_agree:
  assumes "main depth env argv = Started p" "main depth' env' argv' = Started p'"
    and "samples_at_start env p i" "samples_at_start env' p' j"
    and "same_sampling (rt_opts (pb_runtime p)) (rt_opts (pb_runtime p'))"
    and "s_rSel (rt_settings (pb_runtime p')) = s_rSel (rt_settings (pb_runtime p))"
    and "b_size (hash_buffer (rt_devices (pb_runtime p') ! j)) = b_size (hash_buffer (rt_devices (pb_runtime p) ! i))"
    and "skips_hop_bytes (selection_function (rt_opts (pb_runtime p)))"
    and "probe_run flo pagesize (event_loop_start p) es outs r" "probe_run flo' pagesize' (event_loop_start p') es' outs' r'"
    and "\<forall>e \<in> set es. \<not> is_input e" "\<forall>e \<in> set es'. \<not> is_input e"
    and "list_all2 hop (stream i es) (stream j es')"
  shows "exported_hashes j outs' = exported_hashes i outs"
proof -
  let ?n = "b_size (hash_buffer (rt_devices (pb_runtime p) ! i))"
  let ?r = "event_loop_start p" and ?r' = "event_loop_start p'"
  have s: "samples i ?n ?r" "samples j ?n ?r'"
    using started_samples [OF assms(1,3)] started_samples [OF assms(2,4)] assms(7) by simp_all
  have frames: "list_all ip_frame (stream i es)" "list_all ip_frame (stream j es')"
    using assms(13) hop_frames by (auto simp: list_all2_conv_all_nth list_all_length)
  have "packet_hashes (opts_of ?r') (s_rSel (settings_of ?r)) (level_of ?r') ?n c'
      = packet_hashes (opts_of ?r) (s_rSel (settings_of ?r)) (level_of ?r) ?n c" if "hop c c'" for c c'
    by (rule packet_hashes_hop [OF that, of _ _ _ "devs_of ?r ! i" _ _ "devs_of ?r' ! j"])
      (use s assms(5,6,8) in \<open>auto simp: samples_def event_loop_start_def\<close>)
  with assms(13) have "map (packet_hashes (opts_of ?r') (s_rSel (settings_of ?r)) (level_of ?r') ?n) (stream j es')
      = map (packet_hashes (opts_of ?r) (s_rSel (settings_of ?r)) (level_of ?r) ?n) (stream i es)"
    by (auto simp: list_all2_conv_all_nth intro: nth_equalityI)
  moreover have "s_rSel (settings_of ?r') = s_rSel (settings_of ?r)" using assms(6) by (simp add: event_loop_start_def)
  ultimately show ?thesis
    using samples_run [OF assms(9) s(1) assms(11) frames(1)] samples_run [OF assms(10) s(2) assms(12) frames(2)] by simp
qed

text \<open>Two command lines: the second probe exports no statistics of its own.\<close>

definition samples_demo :: "probe \<Rightarrow> bool" where
  "samples_demo p \<longleftrightarrow> samples_at_start demo_environment p 0 \<and> same_sampling (set_defaults_options zero_options) (rt_opts (pb_runtime p))
     \<and> s_rSel (rt_settings (pb_runtime p)) = s_rSel initial_settings
     \<and> b_size (hash_buffer (rt_devices (pb_runtime p) ! 0)) = 80 \<and> rt_sources (pb_runtime p) 0 \<noteq> None"

lemma demo_level: "logger_get_level (logger_init init_logger_state 2) = 2"
  by (simp add: logger_init_def logger_set_level_def init_logger_state_def logger_get_level_def)

lemma started_demo:
  assumes "start_probe demo_environment (upd f (initial_settings\<lparr>s_logger := logger_init init_logger_state 2,
      s_opts := (s_opts initial_settings)\<lparr>number_interfaces := 1\<rparr>, if_devices := demo_eth0 # replicate 9 zero_device\<rparr>)) = P"
    and "f = (\<lambda>x. x) \<or> f = (\<lambda>x. x\<lparr>export_stats_interval := 0\<rparr>)"
  shows "\<exists>p. P = Started p \<and> samples_demo p"
  unfolding assms(1) [symmetric] using assms(2) demo_level
  by (auto simp: start_probe_def default_probe_name_def initial_settings_def set_defaults_options_def upd_def
      demo_environment_def open_device_def demo_eth0_def open_pcap_def determineLinkType_def
      getIPv4AddressFromDevice_def start_exporter_def libipfix_init_def libipfix_register_templates_def template_order_def
      no_exporter_def libipfix_connect_def start_handlers_def netcon_init_def set_identity_def set_defaults_device_def
      samples_demo_def samples_at_start_def same_sampling_def baseSelection_def ranges_ok_def strings_short_def
      safe_selection_def zero_options_def Let_def simp del: replicate.simps)

lemma upd_id: "upd (\<lambda>x. x) s = s"
  by (simp add: upd_def)

lemma demo_lines:
  "\<exists>p. main 0 demo_environment [''impd4e'', ''-i'', ''eth0''] = Started p \<and> samples_demo p"
  "\<exists>p. main 0 demo_environment [''impd4e'', ''-i'', ''eth0'', ''-J'', ''0''] = Started p \<and> samples_demo p"
proof -
  let ?s = "initial_settings\<lparr>s_logger := logger_init init_logger_state 2,
      s_opts := (s_opts initial_settings)\<lparr>number_interfaces := 1\<rparr>, if_devices := demo_eth0 # replicate 9 zero_device\<rparr>"
  have "main 0 demo_environment [''impd4e'', ''-i'', ''eth0''] = start_probe demo_environment ?s"
    by (simp add: main_def demo_environment_def demo_line demo_opt_i)
  then show "\<exists>p. main 0 demo_environment [''impd4e'', ''-i'', ''eth0''] = Started p \<and> samples_demo p"
    by (intro started_demo [where f = "\<lambda>x. x"]) (simp_all add: upd_id del: replicate.simps)
  have "main 0 demo_environment [''impd4e'', ''-i'', ''eth0'', ''-J'', ''0''] = start_probe demo_environment (upd (\<lambda>x. x\<lparr>export_stats_interval := 0\<rparr>) ?s)"
    by (simp add: main_def demo_environment_def quiet_line del: replicate.simps)
  then show "\<exists>p. main 0 demo_environment [''impd4e'', ''-i'', ''eth0'', ''-J'', ''0''] = Started p \<and> samples_demo p"
    by (intro started_demo [where f = "\<lambda>x. x\<lparr>export_stats_interval := 0\<rparr>"]) (simp_all del: replicate.simps)
qed

lemma demo_capture_run:
  assumes "main depth env argv = Started p" "samples_demo p" "env = demo_environment" "ip_frame c"
  shows "\<exists>outs r. probe_run flo pagesize (event_loop_start p) [Captured 0 (\<lambda>_. ([c], 1)) []] outs r"
proof -
  let ?r = "event_loop_start p"
  have s: "samples 0 80 ?r" using started_samples [OF assms(1), of 0] assms(2,3) by (simp add: samples_demo_def)
  then have ready: "path_ready (opts_of ?r) (s_rSel (settings_of ?r)) (level_of ?r) (devs_of ?r ! 0)" "0 < unat (number_interfaces (opts_of ?r))"
    by (simp_all add: samples_def)
  obtain d evs where "handle_packet (opts_of ?r) (s_rSel (settings_of ?r)) (level_of ?r) c (devs_of ?r ! 0) = Some (d, evs)"
    by (rule handle_packet_hashes [OF ready(1) assms(4)])
  then have "\<exists>d evs act. packet_watcher_cb (opts_of ?r) (s_rSel (settings_of ?r)) (level_of ?r) (\<lambda>_. ([c], 1)) [] (devs_of ?r ! 0) = Some (d, evs, act)"
    using ready(1) by (auto simp: packet_watcher_cb_def path_ready_def ethernet_device_def)
  moreover have "rn_watching ?r 0" using assms(2) by (simp add: samples_demo_def event_loop_start_def)
  ultimately show ?thesis using captured [OF ready(2)] probe_run.step probe_run.none by metis
qed

theorem started_probes_agree_witness:
  "\<exists>p p' outs r outs' r'. main 0 demo_environment [''impd4e'', ''-i'', ''eth0''] = Started p
     \<and> main 0 demo_environment [''impd4e'', ''-i'', ''eth0'', ''-J'', ''0''] = Started p'
     \<and> probe_run (\<lambda>x. x) 4096 (event_loop_start p) [Captured 0 (\<lambda>_. ([demo_capture], 1)) []] outs r
     \<and> probe_run (\<lambda>x. x) 4096 (event_loop_start p') [Captured 0 (\<lambda>_. ([hop_capture], 1)) []] outs' r'
     \<and> exported_hashes 0 outs' = exported_hashes 0 outs"
proof -
  obtain p p' where p: "main 0 demo_environment [''impd4e'', ''-i'', ''eth0''] = Started p" "samples_demo p"
    and p': "main 0 demo_environment [''impd4e'', ''-i'', ''eth0'', ''-J'', ''0''] = Started p'" "samples_demo p'"
    using demo_lines by blast
  obtain outs r outs' r' where run: "probe_run (\<lambda>x. x) 4096 (event_loop_start p) [Captured 0 (\<lambda>_. ([demo_capture], 1)) []] outs r"
    "probe_run (\<lambda>x. x) 4096 (event_loop_start p') [Captured 0 (\<lambda>_. ([hop_capture], 1)) []] outs' r'"
    using demo_capture_run [OF p refl] demo_capture_run [OF p' refl] hop_frames [OF demo_hop] by metis
  have "exported_hashes 0 outs' = exported_hashes 0 outs"
    by (rule started_probes_agree [OF p(1) p'(1) _ _ _ _ _ _ run])
      (use p(2) p'(2) demo_hop in \<open>auto simp: samples_demo_def same_sampling_def stream_def skips_hop_bytes_def set_defaults_options_def\<close>)
  with p p' run show ?thesis by blast
qed

end
