(* ===== verification/Event_Loop.thy ===== *)
theory Event_Loop
  imports Probe
begin

text \<open>
  The registration of watchers and signals (\<^verbatim>\<open>src/ev_handler.c\<close>), the shutdown (\<^verbatim>\<open>src/main.c\<close>), and
  the process from the start of the event loop to its end.
\<close>

section \<open>Watchers\<close>

text \<open>An I/O watcher of libev: the descriptor, the events it waits for, and whether it is started.\<close>

record ev_io =
  io_fd :: int
  io_read :: bool
  io_write :: bool
  io_active :: bool

definition event_register_io_r :: "int \<Rightarrow> ev_io" where
  "event_register_io_r fd = \<lparr>io_fd = fd, io_read = True, io_write = False, io_active = True\<rparr>"

definition event_register_io_w :: "int \<Rightarrow> ev_io" where
  "event_register_io_w fd = \<lparr>io_fd = fd, io_read = False, io_write = True, io_active = True\<rparr>"

definition event_register_io :: "int \<Rightarrow> ev_io" where
  "event_register_io fd = \<lparr>io_fd = fd, io_read = True, io_write = True, io_active = True\<rparr>"

definition event_deregister_io :: "ev_io \<Rightarrow> ev_io" where
  "event_deregister_io w = w\<lparr>io_active := False\<rparr>"

definition event_deregister_timer :: "ev_timer \<Rightarrow> ev_timer" where
  "event_deregister_timer w = w\<lparr>t_active := False\<rparr>"

section \<open>Signals\<close>

datatype signal = SIGINT | SIGALRM | SIGPIPE

datatype loop_action = Go_on | Unloop_all

definition sigint_cb :: loop_action where "sigint_cb = Unloop_all"
definition sigpipe_cb :: loop_action where "sigpipe_cb = Go_on"
definition sigalrm_cb :: loop_action where "sigalrm_cb = Go_on"

definition event_loop_init :: "signal \<rightharpoonup> loop_action" where
  "event_loop_init = [SIGINT \<mapsto> sigint_cb, SIGALRM \<mapsto> sigalrm_cb, SIGPIPE \<mapsto> sigpipe_cb]"

section \<open>Shutdown\<close>

text \<open>\<^verbatim>\<open>ipfix()\<close> ends the process when the module is not initialised.\<close>

definition ipfix :: "exporter \<Rightarrow> int + u32" where
  "ipfix x = (case x_handle x of None \<Rightarrow> Inl EXIT_FAILURE | Some h \<Rightarrow> Inr h)"

definition impd4e_shutdown :: "exporter \<Rightarrow> int + lib_call list" where
  "impd4e_shutdown x = (case ipfix x of Inl code \<Rightarrow> Inl code | Inr _ \<Rightarrow> Inr [Export_flush, Close, Cleanup])"

section \<open>The process\<close>

datatype process = Running running | Ended int "lib_call list"

datatype process_event = Callback probe_event | Signal signal

text \<open>
  When the loop is left, \<^verbatim>\<open>main\<close> shuts the exporter down and exits with 0; a user who quits ends the
  process from within the callback, with the calls that \<^verbatim>\<open>user_input_cb\<close> made until then.
\<close>

inductive process_step :: "(rat \<Rightarrow> rat) \<Rightarrow> u64 \<Rightarrow> process \<Rightarrow> process_event \<Rightarrow> probe_out list \<Rightarrow> process \<Rightarrow> bool" for flo pagesize where
  callback: "probe_step flo pagesize r e outs r' \<Longrightarrow> process_step flo pagesize (Running r) (Callback e) outs (Running r')"
| ignored: "event_loop_init s = Some Go_on \<Longrightarrow> process_step flo pagesize (Running r) (Signal s) [] (Running r)"
| left: "event_loop_init s = Some Unloop_all \<Longrightarrow> impd4e_shutdown (pb_exporter (rn_probe r)) = Inr calls \<Longrightarrow>
    process_step flo pagesize (Running r) (Signal s) [] (Ended 0 calls)"
| left_failed: "event_loop_init s = Some Unloop_all \<Longrightarrow> impd4e_shutdown (pb_exporter (rn_probe r)) = Inl code \<Longrightarrow>
    process_step flo pagesize (Running r) (Signal s) [] (Ended code [])"
| quit: "user_input_cb env line (pb_runtime (rn_probe r)) = Quit code calls \<Longrightarrow>
    process_step flo pagesize (Running r) (Callback (User_input env line)) [] (Ended code calls)"

inductive process_run :: "(rat \<Rightarrow> rat) \<Rightarrow> u64 \<Rightarrow> process \<Rightarrow> process_event list \<Rightarrow> probe_out list \<Rightarrow> process \<Rightarrow> bool" for flo pagesize where
  stop: "process_run flo pagesize p [] [] p"
| step: "process_step flo pagesize p e o1 p1 \<Longrightarrow> process_run flo pagesize p1 es o2 p2 \<Longrightarrow> process_run flo pagesize p (e # es) (o1 @ o2) p2"

inductive_cases signal_cases: "process_step flo pagesize (Running r) (Signal s) outs p"
inductive_cases ended_cases [elim!]: "process_step flo pagesize (Ended code calls) e outs p"
inductive_simps run_stop [simp]: "process_run flo pagesize p [] outs p'"
inductive_simps run_more: "process_run flo pagesize p (e # es) outs p'"

section \<open>Lemmas\<close>

lemma signals: "event_loop_init SIGINT = Some Unloop_all" "event_loop_init SIGALRM = Some Go_on" "event_loop_init SIGPIPE = Some Go_on"
  by (simp_all add: event_loop_init_def sigint_cb_def sigalrm_cb_def sigpipe_cb_def)

text \<open>The callbacks of a list of events.\<close>

fun callbacks :: "process_event list \<Rightarrow> probe_event list" where
  "callbacks [] = []"
| "callbacks (Callback e # es) = e # callbacks es"
| "callbacks (Signal s # es) = callbacks es"

text \<open>As long as the process runs it is the running probe.\<close>

lemma ended_run: "process_run flo pagesize (Ended code calls) es outs p \<Longrightarrow> es = [] \<and> outs = [] \<and> p = Ended code calls"
  by (cases es) (auto simp: run_more)

lemma process_probe:
  "process_run flo pagesize p es outs p' \<Longrightarrow> p = Running r \<Longrightarrow> p' = Running r' \<Longrightarrow> probe_run flo pagesize r (callbacks es) outs r'"
proof (induction arbitrary: r rule: process_run.induct)
  case (step p e o1 p1 es o2 p2)
  show ?case using step.hyps(1)
  proof (cases rule: process_step.cases)
    case (callback r0 e' r1)
    with step show ?thesis by (auto intro: probe_run.step)
  next
    case (ignored s r0)
    with step show ?thesis by auto
  next
    case left
    with step ended_run show ?thesis by blast
  next
    case left_failed
    with step ended_run show ?thesis by blast
  next
    case quit
    with step ended_run show ?thesis by blast
  qed
qed simp

lemma step_exporter: "probe_step flo pagesize r e outs r' \<Longrightarrow> pb_exporter (rn_probe r') = pb_exporter (rn_probe r)"
  by (induction rule: probe_step.induct) (simp_all add: set_timers_def set_devices_def set_runtime_def Let_def)

lemma run_exporter: "probe_run flo pagesize r es outs r' \<Longrightarrow> pb_exporter (rn_probe r') = pb_exporter (rn_probe r)"
  by (induction rule: probe_run.induct) (simp_all add: step_exporter)

lemma started_exporter:
  assumes "main depth env argv = Started p"
  shows "x_handle (pb_exporter p) \<noteq> None"
proof -
  obtain s where s: "start_probe env s = Started p" using main_cases [OF assms] by blast
  then obtain t srcs x where "start_exporter (en_lib env) t = Inr x" "pb_exporter p = x"
    by (rule start_probe_cases) (auto simp: start_handlers_def netcon_init_def)
  then show ?thesis using ipfix_templates_registered(2) by fastforce
qed

lemma running_shutdown:
  assumes "main depth env argv = Started p" "process_run flo pagesize (Running (event_loop_start p)) es outs (Running r)"
  shows "impd4e_shutdown (pb_exporter (rn_probe r)) = Inr [Export_flush, Close, Cleanup]"
proof -
  have "pb_exporter (rn_probe r) = pb_exporter p"
    using run_exporter [OF process_probe [OF assms(2) refl refl]] by (simp add: event_loop_start_def)
  with started_exporter [OF assms(1)] show ?thesis by (auto simp: impd4e_shutdown_def ipfix_def)
qed

section \<open>Properties\<close>

text \<open>C10: The interrupt ends a started probe properly at any time: whatever happened before, it can be
  delivered, and the process then flushes what it has buffered, closes the exporter, releases the
  library and exits with 0.\<close>

theorem interrupt_ends_probe:
  assumes "main depth env argv = Started p" "process_run flo pagesize (Running (event_loop_start p)) es outs (Running r)"
  shows "\<forall>outs' p'. process_step flo pagesize (Running r) (Signal SIGINT) outs' p'
    \<longleftrightarrow> outs' = [] \<and> p' = Ended 0 [Export_flush, Close, Cleanup]"
  using running_shutdown [OF assms] signals(1) by (auto elim!: signal_cases intro: process_step.left)

theorem interrupt_ends_probe_witness:
  "\<exists>p. main 0 demo_environment [''impd4e'', ''-i'', ''eth0''] = Started p
     \<and> process_step (\<lambda>x. x) 4096 (Running (event_loop_start p)) (Signal SIGINT) [] (Ended 0 [Export_flush, Close, Cleanup])"
proof -
  from demo_main obtain p where p: "main 0 demo_environment [''impd4e'', ''-i'', ''eth0''] = Started p" by blast
  from interrupt_ends_probe [OF p process_run.stop] p show ?thesis by blast
qed

end
