(* ===== verification/Inet_Addresses.thy ===== *)
theory Inet_Addresses
  imports Number_Text
begin

text \<open>
  \<^verbatim>\<open>inet_addr\<close> of the C library, and that it reads back the addresses that \<^verbatim>\<open>ntoa\<close> and \<^verbatim>\<open>htoa\<close> of
  \<^verbatim>\<open>src/helper.c\<close> print.
\<close>

unbundle bit_operations_syntax

section \<open>Internet addresses\<close>

text \<open>
  \<^verbatim>\<open>inet_addr\<close>: up to four numbers in the notations of C, separated by dots; the last one fills
  the remaining bytes.
\<close>

definition c_number :: "string \<Rightarrow> nat \<times> string" where
  "c_number s =
     (if take 1 s = ''0'' \<and> (take 1 (drop 1 s) = ''x'' \<or> take 1 (drop 1 s) = ''X'') \<and> drop 2 s \<noteq> [] \<and> c_isxdigit (s ! 2)
      then (let ds = base_digits 16 (drop 2 s) in (base_value 16 ds, drop (2 + length ds) s))
      else (let b = (if take 1 s = ''0'' then 8 else 10); ds = base_digits b s in (base_value b ds, drop (length ds) s)))"

fun inet_parts :: "nat \<Rightarrow> string \<Rightarrow> nat list option" where
  "inet_parts 0 s = None"
| "inet_parts (Suc k) s =
     (if s = [] \<or> \<not> c_isdigit (hd s) then None
      else (let (v, r) = c_number s in
            case r of [] \<Rightarrow> Some [v]
            | c # cs \<Rightarrow>
                if c = CHR ''.'' then map_option (\<lambda>vs. v # vs) (inet_parts k cs)
                else if c_isspace c then Some [v] else None))"

abbreviation (input) INADDR_NONE :: u32 where "INADDR_NONE \<equiv> 0xFFFFFFFF"

definition inet_value :: "nat list \<Rightarrow> nat" where
  "inet_value vs = (\<Sum>i < length vs - 1. vs ! i * 256 ^ (3 - i)) + last vs"

definition inet_addr :: "string \<Rightarrow> u32" where
  "inet_addr s = (case inet_parts 4 s of
       None \<Rightarrow> INADDR_NONE
     | Some vs \<Rightarrow>
         if list_all (\<lambda>v. v \<le> 255) (butlast vs) \<and> last vs < 256 ^ (5 - length vs)
         then ntohl (of_nat (inet_value vs)) else INADDR_NONE)"

section \<open>Lemmas\<close>

text \<open>The byte swap, bit by bit.\<close>

lemma byte_masks: "(0xFF00 :: u32) = push_bit 8 (mask 8)" "(0xFF0000 :: u32) = push_bit 16 (mask 8)"
  by (simp_all add: push_bit_eq_mult mask_eq_exp_minus_1)

lemma byte_cases:
  fixes n :: nat
  assumes "n < 32"
  obtains "n < 8" | k where "n = k + 8" "k < 8" | k where "n = k + 16" "k < 8" | k where "n = k + 24" "k < 8"
proof -
  from assms consider "n < 8" | "n = (n - 8) + 8 \<and> n - 8 < 8" | "n = (n - 16) + 16 \<and> n - 16 < 8" | "n = (n - 24) + 24 \<and> n - 24 < 8" by linarith
  then show ?thesis using that by cases blast+
qed

lemma bit_ntohl:
  "bit (ntohl w) n \<longleftrightarrow> bit w (n + 24) \<or> 8 \<le> n \<and> n < 16 \<and> bit w (n + 8) \<or> 16 \<le> n \<and> n < 24 \<and> bit w (n - 8) \<or> 24 \<le> n \<and> n < 32 \<and> bit w (n - 24)"
  unfolding ntohl_def byte_masks
  by (auto simp: bit_or_iff bit_and_iff bit_push_bit_iff bit_drop_bit_eq bit_mask_iff add.commute)

lemma bit_ntohl_bytes:
  "k < 8 \<Longrightarrow> bit (ntohl w) k \<longleftrightarrow> bit w (k + 24)" "k < 8 \<Longrightarrow> bit (ntohl w) (k + 8) \<longleftrightarrow> bit w (k + 16)"
  "k < 8 \<Longrightarrow> bit (ntohl w) (k + 16) \<longleftrightarrow> bit w (k + 8)" "k < 8 \<Longrightarrow> bit (ntohl w) (k + 24) \<longleftrightarrow> bit w k"
  by (simp_all add: bit_ntohl impossible_bit ac_simps)

lemma ntohl_ntohl [simp]: "ntohl (ntohl w) = w"
proof (rule bit_word_eqI)
  fix n :: nat
  assume "n < LENGTH(32)"
  then have "n < 32" by simp
  then show "bit (ntohl (ntohl w)) n = bit w n" by (rule byte_cases) (simp_all add: bit_ntohl_bytes)
qed

lemma bytes_value:
  "(of_nat (unat (byte_of w 0) * 256 ^ 3 + unat (byte_of w 1) * 256 ^ 2 + unat (byte_of w 2) * 256 + unat (byte_of w 3)) :: u32) = ntohl w"
proof -
  let ?u = "\<lambda>i. ucast (byte_of w i) :: u32"
  have u: "bit (?u i) n \<longleftrightarrow> n < 8 \<and> bit w (8 * i + n)" for i n
    by (auto simp: byte_of_def bit_simps)
  have or: "a + b = a OR b" if "\<And>n. \<not> bit a n \<or> \<not> bit b n" for a b :: u32 using that by (rule disjunctive_add)
  have "(of_nat (unat (byte_of w 0) * 256 ^ 3 + unat (byte_of w 1) * 256 ^ 2 + unat (byte_of w 2) * 256 + unat (byte_of w 3)) :: u32)
     = push_bit 24 (?u 0) + push_bit 16 (?u 1) + push_bit 8 (?u 2) + ?u 3"
    by (simp add: push_bit_eq_mult)
  also have "push_bit 24 (?u 0) + push_bit 16 (?u 1) = push_bit 24 (?u 0) OR push_bit 16 (?u 1)"
    by (rule or) (auto simp: bit_push_bit_iff u)
  also have "(push_bit 24 (?u 0) OR push_bit 16 (?u 1)) + push_bit 8 (?u 2) = (push_bit 24 (?u 0) OR push_bit 16 (?u 1)) OR push_bit 8 (?u 2)"
    by (rule or) (auto simp: bit_push_bit_iff bit_or_iff u)
  also have "\<dots> + ?u 3 = ((push_bit 24 (?u 0) OR push_bit 16 (?u 1)) OR push_bit 8 (?u 2)) OR ?u 3"
    by (rule or) (auto simp: bit_push_bit_iff bit_or_iff u)
  also have "\<dots> = ntohl w"
  proof (rule bit_word_eqI)
    fix n :: nat
    assume "n < LENGTH(32)"
    then have "n < 32" by simp
    then show "bit (((push_bit 24 (?u 0) OR push_bit 16 (?u 1)) OR push_bit 8 (?u 2)) OR ?u 3) n = bit (ntohl w) n"
      by (rule byte_cases) (simp_all add: bit_ntohl_bytes bit_push_bit_iff bit_or_iff u ac_simps)
  qed
  finally show ?thesis .
qed

text \<open>A printed number is read as a decimal number.\<close>

lemma c_number_string:
  assumes "rs = [] \<or> hd rs = CHR ''.''"
  shows "c_number (dec_string n @ rs) = (n, rs)"
proof -
  obtain c cs where c: "dec_string n = c # cs" "c_isdigit c" using dec_string_Cons by blast
  have nx: "base_digits b rs = []" for b using assms by (cases rs) (auto simp: base_digits_def c_isxdigit_def c_isdigit_def c_tolower_def)
  have digits: "\<And>d. d \<in> set (c # cs) \<Longrightarrow> c_isdigit d" using dec_string_digits [of _ n] c by simp
  have ten: "base_digits 10 (c # cs @ rs) = c # cs"
  proof -
    have "\<And>d. d \<in> set (c # cs) \<Longrightarrow> c_isxdigit d \<and> xdigit_val d < 10" using digits digit_xdigit by blast
    then show ?thesis using nx [of 10] by (simp add: base_digits_def takeWhile_append2)
  qed
  show ?thesis
  proof (cases "c = CHR ''0''")
    case True
    then have "n = 0" using dec_string_hd_0 [of n] c by simp
    with c have cs: "cs = []" by (simp add: dec_string.simps)
    have "take 1 rs \<noteq> ''x'' \<and> take 1 rs \<noteq> ''X''" using assms by (cases rs) auto
    moreover have "base_digits 8 (c # rs) = [c]"
      using nx [of 8] True by (simp add: base_digits_def c_isxdigit_def c_isdigit_def xdigit_val_def digit_val_def)
    moreover have "dec_string n = ''0''" using c cs True by simp
    ultimately show ?thesis using True
      by (simp add: c_number_def base_value_def xdigit_val_def c_isdigit_def digit_val_def \<open>n = 0\<close>)
  next
    case False
    then show ?thesis using ten base_value_dec [of "c # cs", OF digits] c(1) dec_value_string [of n] by (simp add: c_number_def Let_def)
  qed
qed

lemma inet_parts_dotted:
  "inet_parts 4 (dotted w) = Some [unat (byte_of w 0), unat (byte_of w 1), unat (byte_of w 2), unat (byte_of w 3)]"
proof -
  have h: "dec_string n \<noteq> [] \<and> c_isdigit (hd (dec_string n @ r))" for n r using dec_string_Cons [of n] by auto
  have dot: "inet_parts (Suc k) (dec_string n @ CHR ''.'' # r) = map_option (\<lambda>vs. n # vs) (inet_parts k r)" for k n r
    using h [of n "CHR ''.'' # r"] by (simp add: c_number_string)
  have last: "inet_parts (Suc k) (dec_string n) = Some [n]" for k n
    using h [of n "[]"] c_number_string [of "[]" n] by simp
  have four: "(4 :: nat) = Suc (Suc (Suc (Suc 0)))" by simp
  show ?thesis unfolding four dotted_def append.assoc append_Cons append_Nil by (simp only: dot last option.map)
qed

lemma inet_addr_dotted [simp]: "inet_addr (dotted w) = w"
proof -
  have sum3: "(\<Sum>i < 3. f i) = f 0 + f 1 + f 2" for f :: "nat \<Rightarrow> nat" by (simp add: numeral_3_eq_3 numeral_2_eq_2)
  have b: "unat (byte_of w i) \<le> 255" for i using unat_byte [of "byte_of w i"] by simp
  have "inet_value [unat (byte_of w 0), unat (byte_of w 1), unat (byte_of w 2), unat (byte_of w 3)]
      = unat (byte_of w 0) * 256 ^ 3 + unat (byte_of w 1) * 256 ^ 2 + unat (byte_of w 2) * 256 + unat (byte_of w 3)"
    unfolding inet_value_def using sum3 [of "\<lambda>i. [unat (byte_of w 0), unat (byte_of w 1), unat (byte_of w 2), unat (byte_of w 3)] ! i * 256 ^ (3 - i)"]
    by simp
  then have v: "(of_nat (inet_value [unat (byte_of w 0), unat (byte_of w 1), unat (byte_of w 2), unat (byte_of w 3)]) :: u32) = ntohl w"
    by (simp only: bytes_value)
  have "list_all (\<lambda>v. v \<le> 255) [unat (byte_of w 0), unat (byte_of w 1), unat (byte_of w 2)]" using b by (simp only: list.pred_inject simp_thms)
  moreover have "unat (byte_of w 3) < 256 ^ (5 - 4)" using unat_byte by simp
  ultimately show ?thesis
    by (simp only: inet_addr_def inet_parts_dotted option.case butlast.simps last.simps list.size if_True simp_thms list.distinct if_False
        v ntohl_ntohl) simp
qed

lemma inet_addr_zero [simp]: "inet_addr ''0'' = 0"
proof -
  have "dec_string 0 = ''0''" by code_simp
  with c_number_string [of "[]" 0] have "inet_parts 4 ''0'' = Some [0]" by (simp add: numeral_eq_Suc c_isdigit_def)
  then show ?thesis by (simp add: inet_addr_def inet_value_def ntohl_def)
qed

end
