(* ===== verification/Pfring_Filter.thy ===== *)
theory Pfring_Filter
  imports Inet_Addresses Data_Model Logger
begin

text \<open>
  The filters of a PF_RING build: the protocol table (\<^verbatim>\<open>include/pfring_filter.h\<close>,
  \<^verbatim>\<open>src/pfring_filter.c\<close>) and the parser of the option \<^verbatim>\<open>-a\<close> (\<^verbatim>\<open>src/settings.c\<close>). The type
  \<^verbatim>\<open>filtering_rule\<close> is that of PF_RING: what its integer fields keep of an assigned \<^verbatim>\<open>int\<close> is an
  argument.
\<close>

section \<open>Protocols\<close>

definition ip_protocols :: "string list" where
  "ip_protocols = [
    ''hopopt'', ''icmp'', ''igmp'', ''ggp'', ''ipv4'', ''st'', ''tcp'', ''cbt'', ''egp'', ''igp'',
    ''bbn-rcc-mon'', ''nvp-ii'', ''pup'', ''argus'', ''emcon'', ''xnet'', ''chaos'', ''udp'', ''mux'',
    ''dcn-meas'', ''hmp'', ''prm'', ''xns-idp'', ''trunk-1'', ''trunk-2'', ''leaf-1'', ''leaf-2'', ''rdp'',
    ''irtp'', ''iso-tp4'', ''netblt'', ''mfe-nsp'', ''merit-inp'', ''dccp'', ''3pc'', ''idpr'', ''xtp'',
    ''ddp'', ''idpr-cmtp'', ''tp++'', ''il'', ''ipv6'', ''sdrp'', ''ipv6-route'', ''ipv6-frag'', ''idrp'',
    ''rsvp'', ''gre'', ''dsr'', ''bna'', ''esp'', ''ah'', ''i-nlsp'', ''swipe'', ''narp'', ''mobile'',
    ''tlsp'', ''skip'', ''ipv6-icmp'', ''ipv6-nonxt'', ''ipv6-opts'', ''anyhost'', ''cftp'', ''anynet'',
    ''sat-expak'', ''kryptolan'', ''rvd'', ''ippc'', ''anydistfs'', ''sat-mon'', ''visa'', ''ipcv'',
    ''cpnx'', ''cphb'', ''wsn'', ''pvp'', ''br-sat-mon'', ''sun-nd'', ''wb-mon'', ''wb-expak'', ''iso-ip'',
    ''vmtp'', ''secure-vmtp'', ''vines'', ''ttp'', ''nsfnet-igp'', ''dgp'', ''tcf'', ''eigrp'', ''ospfigp'',
    ''sprite-rpc'', ''larp'', ''mtp'', ''ax.25'', ''ipip'', ''micp'', ''scc-sp'', ''etherip'', ''encap'',
    ''anyprivenc'', ''gmtp'', ''ifmp'', ''pnni'', ''pim'', ''aris'', ''scps'', ''qnx'', ''a/n'', ''ipcomp'',
    ''snp'', ''compaq-peer'', ''ipx-in-ip'', ''vrrp'', ''pgm'', ''any0hop'', ''l2tp'', ''ddx'', ''iatp'',
    ''stp'', ''srp'', ''uti'', ''smp'', ''sm'', ''ptp'', ''isisoveripv4'', ''fire'', ''crtp'', ''crudp'',
    ''sscopmce'', ''iplt'', ''sps'', ''pipesctp'', ''fc'', ''rsvp-e2e-ignore'', ''mobilityheader'',
    ''udplite'', ''mplsinip'', ''manet'', ''hip'', ''shim6'', ''wesp'', ''rohc'', ''exptest0'', ''exptest1'']"

definition last_ip_prot :: nat where "last_ip_prot = 0x8f"

abbreviation (input) INVALID_PROT :: byte where "INVALID_PROT \<equiv> 0xFF"

text \<open>The comparison is over \<^verbatim>\<open>sizeof\<close> of a pointer, that is 8 characters.\<close>

definition get_ip_prot :: "string \<Rightarrow> byte" where
  "get_ip_prot prot = (case find (\<lambda>i. strn_eq (ip_protocols ! i) prot 8) [0..<Suc last_ip_prot] of
     Some i \<Rightarrow> of_nat i | None \<Rightarrow> INVALID_PROT)"

definition print_all_ip_prot_str :: string where
  "print_all_ip_prot_str = concat (map (\<lambda>i. ip_protocols ! i @ '', '') [0..<last_ip_prot]) @ ip_protocols ! last_ip_prot"

section \<open>Rules\<close>

text \<open>The parameters of the selection plugin in the kernel, with the values the code assigns.\<close>

datatype plugin_function = Plugin_BOB | Plugin_Net | Plugin_Rec | Plugin_U_TCP_and_Net

record impd_data =
  pd_range_min :: u32
  pd_range_max :: u32
  pd_hash_function :: plugin_function
  pd_pktid_function :: plugin_function
  pd_selection_function :: plugin_function

record filtering_rule =
  r_rule_id :: int
  r_proto :: int
  r_host_low :: u32
  r_host_high :: u32
  r_port_low :: int
  r_port_high :: int
  r_vlan_id :: int
  r_plugin_id :: int
  r_filter_plugin_id :: int
  r_plugin_data :: "impd_data option"

definition zero_rule :: filtering_rule where
  "zero_rule = \<lparr>r_rule_id = 0, r_proto = 0, r_host_low = 0, r_host_high = 0, r_port_low = 0, r_port_high = 0, r_vlan_id = 0,
     r_plugin_id = 0, r_filter_plugin_id = 0, r_plugin_data = None\<rparr>"

text \<open>The conversions from \<^verbatim>\<open>int\<close> to the types of the fields.\<close>

record rule_types =
  as_id :: "int \<Rightarrow> int"
  as_proto :: "int \<Rightarrow> int"
  as_port :: "int \<Rightarrow> int"
  as_vlan :: "int \<Rightarrow> int"

abbreviation (input) MAX_RULES :: nat where "MAX_RULES \<equiv> 256"

text \<open>The members of \<^verbatim>\<open>options_t\<close> that only a PF_RING build has.\<close>

record pf_options =
  pf_rules :: "filtering_rule list"
  rules_in_list :: u16
  filter_policy :: int

definition pfring_filter_keywords :: "string list" where
  "pfring_filter_keywords = [''prot'', ''ipl'', ''iph'', ''ip'', ''portl'', ''porth'', ''port'', ''macl'', ''mach'', ''mac'', ''vlan'', ''prio'']"

definition last_pfring_filter_keyword :: nat where "last_pfring_filter_keyword = 11"

section \<open>Parsing a filter\<close>

text \<open>\<^verbatim>\<open>strtok_r(s, ":", &save)\<close> in place: the token and the rest that is saved.\<close>

definition next_token :: "string \<Rightarrow> string option \<times> string" where
  "next_token s =
     (let t = dropWhile (\<lambda>c. c = CHR '':'') s; r = dropWhile (\<lambda>c. c \<noteq> CHR '':'') t
      in if t = [] then (None, []) else (Some (takeWhile (\<lambda>c. c \<noteq> CHR '':'') t), tl r))"

definition is_prefix_of :: "string \<Rightarrow> string \<Rightarrow> bool" where
  "is_prefix_of k s \<longleftrightarrow> strncase_eq s k (length k)"

text \<open>The loop over the protocols goes on after a match; a number that is set is not changed again.\<close>

definition set_proto :: "rule_types \<Rightarrow> string \<Rightarrow> filtering_rule \<Rightarrow> filtering_rule" where
  "set_proto ty v rule = foldl (\<lambda>r k. if is_prefix_of (ip_protocols ! k) v \<and> r_proto r = 0
     then r\<lparr>r_proto := as_proto ty (int k)\<rparr> else r) rule [0..<Suc last_ip_prot]"

text \<open>The switch over the keyword; a value is dereferenced only where it is used.\<close>

definition set_field :: "rule_types \<Rightarrow> nat \<Rightarrow> string option \<Rightarrow> filtering_rule \<Rightarrow> filtering_rule option" where
  "set_field ty i value r =
     (if i = 0 then do { v \<leftarrow> value; Some (set_proto ty v r) }
      else if i = 1 then
        (if r_host_low r = ntohl (inet_addr ''0'') then do { v \<leftarrow> value; Some (r\<lparr>r_host_low := ntohl (inet_addr v)\<rparr>) } else Some r)
      else if i = 2 then
        (if r_host_high r = ntohl (inet_addr ''0'') then do { v \<leftarrow> value; Some (r\<lparr>r_host_high := ntohl (inet_addr v)\<rparr>) } else Some r)
      else if i = 3 then
        (if r_host_high r = ntohl (inet_addr ''0'') \<and> r_host_low r = ntohl (inet_addr ''0'')
         then do { v \<leftarrow> value; Some (r\<lparr>r_host_low := ntohl (inet_addr v), r_host_high := ntohl (inet_addr v)\<rparr>) } else Some r)
      else if i = 4 then
        (if r_port_low r = 0 then do { v \<leftarrow> value; Some (r\<lparr>r_port_low := as_port ty (atoi v)\<rparr>) } else Some r)
      else if i = 5 then
        (if r_port_high r = 0 then do { v \<leftarrow> value; Some (r\<lparr>r_port_high := as_port ty (atoi v)\<rparr>) } else Some r)
      else if i = 6 then
        (if r_port_low r = 0 \<and> r_port_high r = 0
         then do { v \<leftarrow> value; Some (r\<lparr>r_port_low := as_port ty (atoi v), r_port_high := as_port ty (atoi v)\<rparr>) } else Some r)
      else if i = 10 then
        (if r_vlan_id r = 0 then do { v \<leftarrow> value; Some (r\<lparr>r_vlan_id := as_vlan ty (atoi v)\<rparr>) } else Some r)
      else if i = 11 then
        (if r_rule_id r = 0 then do { v \<leftarrow> value; Some (r\<lparr>r_rule_id := as_id ty (atoi v)\<rparr>) } else Some r)
      else Some r)"

text \<open>
  The keyword is compared with \<^verbatim>\<open>arg_string\<close>, which is the argument with its leading colons up to
  the end of the first token.
\<close>

definition find_keyword :: "string \<Rightarrow> nat option" where
  "find_keyword arg_string = find (\<lambda>i. is_prefix_of (pfring_filter_keywords ! i) arg_string) [0..<Suc last_pfring_filter_keyword]"

definition parse_pfring_filter_arg :: "rule_types \<Rightarrow> string \<Rightarrow> filtering_rule \<Rightarrow> filtering_rule option" where
  "parse_pfring_filter_arg ty arg rule =
     (let (t, save) = next_token arg;
          arg_string = takeWhile (\<lambda>c. c = CHR '':'') arg @ (case t of None \<Rightarrow> '''' | Some t \<Rightarrow> t)
      in case find_keyword arg_string of
           None \<Rightarrow> Some rule
         | Some i \<Rightarrow> set_field ty i (fst (next_token save)) rule)"

fun parse_filter_args :: "rule_types \<Rightarrow> string list \<Rightarrow> filtering_rule \<Rightarrow> filtering_rule option" where
  "parse_filter_args ty [] rule = Some rule"
| "parse_filter_args ty (arg # args) rule = do { r \<leftarrow> parse_pfring_filter_arg ty arg rule; parse_filter_args ty args r }"

definition any_field :: "filtering_rule \<Rightarrow> bool" where
  "any_field r \<longleftrightarrow> r_proto r \<noteq> 0 \<or> r_port_low r \<noteq> 0 \<or> r_port_high r \<noteq> 0
     \<or> r_host_low r \<noteq> ntohl (inet_addr ''0'') \<or> r_host_high r \<noteq> ntohl (inet_addr ''0'') \<or> r_vlan_id r \<noteq> 0"

text \<open>
  The arguments are separated by blanks. Without one the code calls \<^verbatim>\<open>strtok_r\<close> with two \<^verbatim>\<open>NULL\<close>
  pointers: a fault.
\<close>

definition parse_pfring_filter :: "rule_types \<Rightarrow> string \<Rightarrow> pf_options \<Rightarrow> pf_options option" where
  "parse_pfring_filter ty arg x =
     (case strtok_all CHR '' '' arg of
        [] \<Rightarrow> None
      | t # ts \<Rightarrow> do {
          rule \<leftarrow> parse_filter_args ty (t # ts) zero_rule;
          if any_field rule \<and> unat (rules_in_list x) < MAX_RULES then
            (if unat (rules_in_list x) < length (pf_rules x)
             then Some (x\<lparr>pf_rules := (pf_rules x)[unat (rules_in_list x) := rule], rules_in_list := rules_in_list x + 1\<rparr>)
             else None)
          else Some x })"

definition opt_a :: "rule_types \<Rightarrow> string \<Rightarrow> pf_options \<Rightarrow> (int \<times> pf_options) option" where
  "opt_a ty arg x = do { x \<leftarrow> parse_pfring_filter ty arg x; Some (0, x) }"

section \<open>The protocol table\<close>

text \<open>The first eight characters of a name, as a number.\<close>

definition name_code :: "string \<Rightarrow> nat" where
  "name_code s = foldr (\<lambda>c v. of_char c + 256 * v) (take 8 s) 0"

lemma name_codes: "length ip_protocols = 144" "distinct (map name_code ip_protocols)"
  by (simp_all add: ip_protocols_def name_code_def)

lemma find_first:
  assumes "k < n" "P k" "\<And>j. j < k \<Longrightarrow> \<not> P j"
  shows "find P [0..<n] = Some k"
  unfolding find_Some_iff using assms by (intro exI [of _ k]) simp

lemma get_ip_prot_name:
  assumes "k < 144" shows "get_ip_prot (ip_protocols ! k) = of_nat k"
proof -
  have "\<not> strn_eq (ip_protocols ! j) (ip_protocols ! k) 8" if "j < k" for j
  proof
    assume "strn_eq (ip_protocols ! j) (ip_protocols ! k) 8"
    then have "map name_code ip_protocols ! j = map name_code ip_protocols ! k"
      using that assms name_codes(1) by (simp add: strn_eq_def name_code_def)
    with nth_eq_iff_index_eq [OF name_codes(2), of j k] that assms show False by (simp add: name_codes(1))
  qed
  with assms have "find (\<lambda>i. strn_eq (ip_protocols ! i) (ip_protocols ! k) 8) [0..<Suc last_ip_prot] = Some k"
    by (intro find_first) (simp_all add: last_ip_prot_def strn_eq_def)
  then show ?thesis by (simp add: get_ip_prot_def)
qed

text \<open>The number that the filter parser takes for a text: that of the first protocol whose name begins it.\<close>

definition proto_of :: "string \<Rightarrow> nat option" where
  "proto_of v = find (\<lambda>k. is_prefix_of (ip_protocols ! k) v) [0..<144]"

text \<open>What the fields must keep.\<close>

definition keeps :: "rule_types \<Rightarrow> bool" where
  "keeps ty \<longleftrightarrow> (\<forall>v. 0 \<le> v \<and> v < 256 \<longrightarrow> as_proto ty v = v)
     \<and> (\<forall>v. 0 \<le> v \<and> v < 65536 \<longrightarrow> as_port ty v = v \<and> as_vlan ty v = v \<and> as_id ty v = v)"

lemma set_proto_done:
  "r_proto r \<noteq> 0 \<Longrightarrow> foldl (\<lambda>r k. if P k \<and> r_proto r = 0 then r\<lparr>r_proto := f k\<rparr> else r) r ks = r"
  by (induction ks) simp_all

lemma set_proto_first:
  "r_proto r = 0 \<Longrightarrow> \<forall>k \<in> set ks. f k \<noteq> 0 \<Longrightarrow>
    foldl (\<lambda>r k. if P k \<and> r_proto r = 0 then r\<lparr>r_proto := f k\<rparr> else r) r ks
      = (case find P ks of None \<Rightarrow> r | Some k \<Rightarrow> r\<lparr>r_proto := f k\<rparr>)"
  by (induction ks) (simp_all add: set_proto_done)

lemma set_proto_text:
  assumes "keeps ty" "r_proto r = 0" "\<not> is_prefix_of ''hopopt'' v"
  shows "set_proto ty v r = (case proto_of v of None \<Rightarrow> r | Some k \<Rightarrow> r\<lparr>r_proto := int k\<rparr>)"
proof -
  have upt: "[0..<144] = 0 # [1..<144 :: nat]" by (simp add: upt_conv_Cons)
  have p0: "\<not> is_prefix_of (ip_protocols ! 0) v" using assms(3) by (simp add: ip_protocols_def)
  have f: "as_proto ty (int k) = int k" if "k < 144" for k using that assms(1) by (simp add: keeps_def)
  have "set_proto ty v r = foldl (\<lambda>r k. if is_prefix_of (ip_protocols ! k) v \<and> r_proto r = 0
      then r\<lparr>r_proto := as_proto ty (int k)\<rparr> else r) r [1..<144]"
    using p0 by (simp add: set_proto_def last_ip_prot_def upt del: upt_Suc)
  also have "\<dots> = (case find (\<lambda>k. is_prefix_of (ip_protocols ! k) v) [1..<144] of None \<Rightarrow> r | Some k \<Rightarrow> r\<lparr>r_proto := as_proto ty (int k)\<rparr>)"
    by (rule set_proto_first) (use assms(2) f in auto)
  also have "find (\<lambda>k. is_prefix_of (ip_protocols ! k) v) [1..<144] = proto_of v"
    using p0 by (simp add: proto_of_def upt)
  finally have eq: "set_proto ty v r = (case proto_of v of None \<Rightarrow> r | Some k \<Rightarrow> r\<lparr>r_proto := as_proto ty (int k)\<rparr>)" .
  show ?thesis
  proof (cases "proto_of v")
    case (Some k)
    then have "k < 144" by (auto simp: proto_of_def find_Some_iff)
    with Some eq f show ?thesis by simp
  qed (simp add: eq)
qed

text \<open>The search over the list itself.\<close>

fun first_name :: "string list \<Rightarrow> string \<Rightarrow> nat \<Rightarrow> nat option" where
  "first_name [] v k = None"
| "first_name (p # ps) v k = (if is_prefix_of p v then Some k else first_name ps v (Suc k))"

lemma find_first_name: "find (\<lambda>k. is_prefix_of (ps ! (k - a)) v) [a..<a + length ps] = first_name ps v a"
proof (induction ps arbitrary: a)
  case (Cons p ps)
  have "find (\<lambda>k. is_prefix_of ((p # ps) ! (k - a)) v) [Suc a..<Suc a + length ps]
      = find (\<lambda>k. is_prefix_of (ps ! (k - Suc a)) v) [Suc a..<Suc a + length ps]"
    by (rule find_cong) (auto simp: nth_Cons' Suc_diff_Suc)
  with Cons.IH [of "Suc a"] show ?case by (simp add: upt_conv_Cons del: upt_Suc)
qed simp

lemma proto_of_first: "proto_of v = first_name ip_protocols v 0"
  using find_first_name [of ip_protocols 0 v] by (simp add: proto_of_def name_codes(1))

lemma is_prefix_code: "is_prefix_of (c # cs) (d # ds) = (if c_tolower c = c_tolower d then is_prefix_of cs ds else False)"
  "is_prefix_of (c # cs) [] = False" "is_prefix_of [] ds = True"
  by (simp_all add: is_prefix_of_def strncase_eq_def)

lemma misread_names:
  "proto_of ''idpr-cmtp'' = Some 35" "proto_of ''ipv6-route'' = Some 41" "proto_of ''ipv6-frag'' = Some 41"
  "proto_of ''ipv6-icmp'' = Some 41" "proto_of ''ipv6-nonxt'' = Some 41" "proto_of ''ipv6-opts'' = Some 41"
  "proto_of ''stp'' = Some 5" "proto_of ''rsvp-e2e-ignore'' = Some 46" "proto_of ''udplite'' = Some 17"
  by (simp_all add: proto_of_first ip_protocols_def is_prefix_code c_tolower_def)

text \<open>The protocols whose names an earlier name begins; every other name is read as its own number.\<close>

definition misread_protocols :: "nat list" where
  "misread_protocols = [38, 43, 44, 58, 59, 60, 118, 133, 135]"

fun begins :: "string \<Rightarrow> string \<Rightarrow> bool" where
  "begins [] v = True"
| "begins (c # cs) [] = False"
| "begins (c # cs) (d # ds) = (if c = d then begins cs ds else False)"

fun unclear :: "nat list \<Rightarrow> string list \<Rightarrow> nat \<Rightarrow> string list \<Rightarrow> bool" where
  "unclear ks seen k [] = False"
| "unclear ks seen k (v # vs) = (if k \<notin> set ks \<and> list_ex (\<lambda>p. begins p v) seen then True else unclear ks (v # seen) (Suc k) vs)"

lemma names_clear: "\<not> unclear misread_protocols [] 0 ip_protocols"
  by (simp add: ip_protocols_def misread_protocols_def)

lemma clear_nth:
  "\<not> unclear ks seen k vs \<Longrightarrow> i < length vs \<Longrightarrow> k + i \<notin> set ks \<Longrightarrow> p \<in> set seen \<or> p \<in> set (take i vs) \<Longrightarrow> \<not> begins p (vs ! i)"
proof (induction vs arbitrary: seen k i)
  case (Cons v vs)
  then show ?case
    by (cases i) (auto simp: list_ex_iff split: if_splits)
qed simp

lemma lower_names: "list_all (list_all (\<lambda>c. c_tolower c = c)) ip_protocols"
  by (simp add: ip_protocols_def c_tolower_def)

lemma begins_lower:
  "list_all (\<lambda>c. c_tolower c = c) p \<Longrightarrow> list_all (\<lambda>c. c_tolower c = c) v \<Longrightarrow> is_prefix_of p v = begins p v"
  by (induction p v rule: begins.induct) (simp_all add: is_prefix_code)

lemma read_name:
  assumes "k < 144" "k \<notin> set misread_protocols" shows "proto_of (ip_protocols ! k) = Some k"
proof -
  have low: "list_all (\<lambda>c. c_tolower c = c) (ip_protocols ! j)" if "j < 144" for j
    using lower_names that name_codes(1) by (simp add: list_all_length)
  have "\<not> is_prefix_of (ip_protocols ! j) (ip_protocols ! k)" if "j < k" for j
  proof -
    have "ip_protocols ! j \<in> set (take k ip_protocols)" using that assms(1) name_codes(1) by (auto simp: in_set_conv_nth)
    with clear_nth [OF names_clear, of k] assms begins_lower [OF low low, of j k] that name_codes(1) show ?thesis by simp
  qed
  moreover have "is_prefix_of v v" for v by (simp add: is_prefix_of_def strncase_eq_def)
  ultimately show ?thesis unfolding proto_of_def using assms(1) by (intro find_first) simp_all
qed

section \<open>Filters as lists of items\<close>

datatype filter_item =
    Prot nat | Ipl u32 | Iph u32 | Ip u32 | Portl nat | Porth nat | Port nat | Vlan nat | Prio nat

fun item_text :: "filter_item \<Rightarrow> string" where
  "item_text (Prot k) = ''prot'' @ '':'' @ ip_protocols ! k"
| "item_text (Ipl a) = ''ipl'' @ '':'' @ htoa a"
| "item_text (Iph a) = ''iph'' @ '':'' @ htoa a"
| "item_text (Ip a) = ''ip'' @ '':'' @ htoa a"
| "item_text (Portl p) = ''portl'' @ '':'' @ dec_string p"
| "item_text (Porth p) = ''porth'' @ '':'' @ dec_string p"
| "item_text (Port p) = ''port'' @ '':'' @ dec_string p"
| "item_text (Vlan v) = ''vlan'' @ '':'' @ dec_string v"
| "item_text (Prio v) = ''prio'' @ '':'' @ dec_string v"

fun item_set :: "filter_item \<Rightarrow> filtering_rule \<Rightarrow> filtering_rule" where
  "item_set (Prot k) r = r\<lparr>r_proto := int k\<rparr>"
| "item_set (Ipl a) r = r\<lparr>r_host_low := a\<rparr>"
| "item_set (Iph a) r = r\<lparr>r_host_high := a\<rparr>"
| "item_set (Ip a) r = r\<lparr>r_host_low := a, r_host_high := a\<rparr>"
| "item_set (Portl p) r = r\<lparr>r_port_low := int p\<rparr>"
| "item_set (Porth p) r = r\<lparr>r_port_high := int p\<rparr>"
| "item_set (Port p) r = r\<lparr>r_port_low := int p, r_port_high := int p\<rparr>"
| "item_set (Vlan v) r = r\<lparr>r_vlan_id := int v\<rparr>"
| "item_set (Prio v) r = r\<lparr>r_rule_id := int v\<rparr>"

text \<open>The fields of an item, and whether a rule has a field still free.\<close>

datatype rule_field = Proto_field | Low_field | High_field | Portl_field | Porth_field | Vlan_field | Prio_field

fun item_fields :: "filter_item \<Rightarrow> rule_field list" where
  "item_fields (Prot k) = [Proto_field]"
| "item_fields (Ipl a) = [Low_field]"
| "item_fields (Iph a) = [High_field]"
| "item_fields (Ip a) = [Low_field, High_field]"
| "item_fields (Portl p) = [Portl_field]"
| "item_fields (Porth p) = [Porth_field]"
| "item_fields (Port p) = [Portl_field, Porth_field]"
| "item_fields (Vlan v) = [Vlan_field]"
| "item_fields (Prio v) = [Prio_field]"

fun free :: "filtering_rule \<Rightarrow> rule_field \<Rightarrow> bool" where
  "free r Proto_field \<longleftrightarrow> r_proto r = 0"
| "free r Low_field \<longleftrightarrow> r_host_low r = 0"
| "free r High_field \<longleftrightarrow> r_host_high r = 0"
| "free r Portl_field \<longleftrightarrow> r_port_low r = 0"
| "free r Porth_field \<longleftrightarrow> r_port_high r = 0"
| "free r Vlan_field \<longleftrightarrow> r_vlan_id r = 0"
| "free r Prio_field \<longleftrightarrow> r_rule_id r = 0"

text \<open>The values that can be written; nine protocols have no name that is read as theirs.\<close>

fun item_ok :: "filter_item \<Rightarrow> bool" where
  "item_ok (Prot k) \<longleftrightarrow> 0 < k \<and> k < 144 \<and> k \<notin> set misread_protocols"
| "item_ok (Portl p) \<longleftrightarrow> p < 65536"
| "item_ok (Porth p) \<longleftrightarrow> p < 65536"
| "item_ok (Port p) \<longleftrightarrow> p < 65536"
| "item_ok (Vlan p) \<longleftrightarrow> p < 65536"
| "item_ok (Prio p) \<longleftrightarrow> p < 65536"
| "item_ok _ \<longleftrightarrow> True"

definition join :: "string list \<Rightarrow> string" where
  "join ts = (case ts of [] \<Rightarrow> [] | t # ts \<Rightarrow> t @ concat (map (\<lambda>t. CHR '' '' # t) ts))"

text \<open>Texts without separators.\<close>

definition plain_text :: "string \<Rightarrow> bool" where
  "plain_text v \<longleftrightarrow> v \<noteq> [] \<and> CHR '':'' \<notin> set v \<and> CHR '' '' \<notin> set v"

lemma plain_names: "list_all plain_text ip_protocols"
  by (simp add: ip_protocols_def plain_text_def)

lemma plain_number: "plain_text (dec_string n)"
  using dec_string_digits [of "CHR '':''" n] dec_string_digits [of "CHR '' ''" n] by (auto simp: plain_text_def c_isdigit_def)

lemma plain_address: "plain_text (htoa a)"
  using plain_number by (simp add: plain_text_def htoa_def dotted_def)

lemma separated:
  "d \<notin> set cs \<Longrightarrow> takeWhile (\<lambda>c. c \<noteq> d) (cs @ d # r) = cs \<and> dropWhile (\<lambda>c. c \<noteq> d) (cs @ d # r) = d # r"
  by (induction cs) auto

lemma find_keyword_first: "find_keyword s = first_name pfring_filter_keywords s 0"
proof -
  have "length pfring_filter_keywords = Suc last_pfring_filter_keyword" by (simp add: pfring_filter_keywords_def last_pfring_filter_keyword_def)
  then show ?thesis using find_first_name [of pfring_filter_keywords 0 s] by (simp add: find_keyword_def del: upt_Suc)
qed

lemma find_keyword_names:
  "find_keyword ''prot'' = Some 0" "find_keyword ''ipl'' = Some 1" "find_keyword ''iph'' = Some 2" "find_keyword ''ip'' = Some 3"
  "find_keyword ''portl'' = Some 4" "find_keyword ''porth'' = Some 5" "find_keyword ''port'' = Some 6"
  "find_keyword ''vlan'' = Some 10" "find_keyword ''prio'' = Some 11"
  by (simp_all add: find_keyword_first pfring_filter_keywords_def is_prefix_code c_tolower_def)

lemma next_token_value: "plain_text v \<Longrightarrow> fst (next_token v) = Some v"
  by (cases v) (auto simp: next_token_def plain_text_def Let_def takeWhile_eq_all_conv)

lemma next_token_pair:
  assumes "plain_text k" shows "next_token (k @ CHR '':'' # v) = (Some k, v)"
proof -
  obtain c cs where k: "k = c # cs" "c \<noteq> CHR '':''" using assms by (cases k) (auto simp: plain_text_def)
  have "takeWhile (\<lambda>c. c \<noteq> CHR '':'') (k @ CHR '':'' # v) = k" "dropWhile (\<lambda>c. c \<noteq> CHR '':'') (k @ CHR '':'' # v) = CHR '':'' # v"
    using separated [of "CHR '':''" k v] assms by (simp_all add: plain_text_def)
  with k show ?thesis by (simp add: next_token_def Let_def)
qed

lemma parse_arg_pair:
  assumes "plain_text k" "plain_text v" "find_keyword k = Some i"
  shows "parse_pfring_filter_arg ty (k @ CHR '':'' # v) r = set_field ty i (Some v) r"
proof -
  have "takeWhile (\<lambda>c. c = CHR '':'') (k @ CHR '':'' # v) = []" using assms(1) by (cases k) (auto simp: plain_text_def)
  with assms show ?thesis by (simp add: parse_pfring_filter_arg_def next_token_pair next_token_value)
qed

lemma name_not_hopopt:
  assumes "0 < k" "k < 144" "proto_of (ip_protocols ! k) = Some k" shows "\<not> is_prefix_of ''hopopt'' (ip_protocols ! k)"
proof -
  have "ip_protocols ! 0 = ''hopopt''" by (simp add: ip_protocols_def)
  moreover have "\<not> is_prefix_of (ip_protocols ! 0) (ip_protocols ! k)"
    using assms(1,3) by (auto simp: proto_of_def find_Some_iff)
  ultimately show ?thesis by simp
qed

lemma ntohl_zero [simp]: "ntohl 0 = 0"
  by (simp add: ntohl_def)

lemma parse_item:
  assumes "keeps ty" "item_ok it" "\<forall>f \<in> set (item_fields it). free r f"
  shows "parse_pfring_filter_arg ty (item_text it) r = Some (item_set it r)"
proof -
  have k: "plain_text ''prot''" "plain_text ''ipl''" "plain_text ''iph''" "plain_text ''ip''" "plain_text ''portl''" "plain_text ''porth''"
    "plain_text ''port''" "plain_text ''vlan''" "plain_text ''prio''" by (simp_all add: plain_text_def)
  have name: "plain_text (ip_protocols ! k)" if "k < 144" for k
    using plain_names that name_codes(1) by (simp add: list_all_length)
  have addr: "ntohl (inet_addr (htoa a)) = a" for a by (simp add: htoa_def)
  have num: "atoi (dec_string p) = int p" if "p < 65536" for p using that atoi_dec_string [of p "[]"] by simp
  note parse = k(2-4) [THEN parse_arg_pair [OF _ plain_address]] k(5-9) [THEN parse_arg_pair [OF _ plain_number]]
  note texts = parse(1) [OF find_keyword_names(2)] parse(2) [OF find_keyword_names(3)] parse(3) [OF find_keyword_names(4)]
    parse(4) [OF find_keyword_names(5)] parse(5) [OF find_keyword_names(6)] parse(6) [OF find_keyword_names(7)]
    parse(7) [OF find_keyword_names(8)] parse(8) [OF find_keyword_names(9)]
  show ?thesis
  proof (cases it)
    case (Prot i)
    then have i: "0 < i" "i < 144" "proto_of (ip_protocols ! i) = Some i" using assms(2) read_name by simp_all
    have "set_proto ty (ip_protocols ! i) r = r\<lparr>r_proto := int i\<rparr>"
      using set_proto_text [OF assms(1) _ name_not_hopopt [OF i], of r] assms(3) i(3) Prot by simp
    then show ?thesis using parse_arg_pair [OF k(1) name [OF i(2)] find_keyword_names(1)] Prot by (simp add: set_field_def)
  qed (use assms texts [simplified] in \<open>simp_all add: set_field_def addr num keeps_def\<close>)
qed

lemma free_frame: "f \<notin> set (item_fields it) \<Longrightarrow> free (item_set it r) f = free r f"
  by (cases it; cases f) simp_all

lemma parse_items:
  "keeps ty \<Longrightarrow> list_all item_ok items \<Longrightarrow> distinct (concat (map item_fields items)) \<Longrightarrow>
    \<forall>f \<in> set (concat (map item_fields items)). free r f \<Longrightarrow>
    parse_filter_args ty (map item_text items) r = Some (fold item_set items r)"
proof (induction items arbitrary: r)
  case (Cons it items)
  have "\<forall>f \<in> set (concat (map item_fields items)). free (item_set it r) f"
    using Cons.prems(3,4) free_frame [of _ it r] by fastforce
  with Cons parse_item [of ty it r] show ?case by simp
qed simp

lemma item_text_plain: "item_ok it \<Longrightarrow> item_text it \<noteq> [] \<and> CHR '' '' \<notin> set (item_text it)"
  using plain_names name_codes(1) plain_number plain_address by (cases it) (auto simp: plain_text_def list_all_length)

lemma strtok_all_join:
  "ts \<noteq> [] \<Longrightarrow> \<forall>t \<in> set ts. t \<noteq> [] \<and> CHR '' '' \<notin> set t \<Longrightarrow> strtok_all CHR '' '' (join ts) = ts"
proof (induction ts)
  case (Cons t ts)
  obtain c cs where t: "t = c # cs" "c \<noteq> CHR '' ''" "CHR '' '' \<notin> set cs" using Cons.prems(2) by (cases t) auto
  have tw: "takeWhile (\<lambda>c. c \<noteq> CHR '' '') cs = cs" "dropWhile (\<lambda>c. c \<noteq> CHR '' '') cs = []"
    using t(3) by (simp_all add: takeWhile_eq_all_conv dropWhile_eq_Nil_conv) (metis, metis)
  show ?case
  proof (cases ts)
    case Nil
    with t tw show ?thesis by (simp add: join_def strtok_all_step strtok_all_end del: dropWhile_eq_Nil_conv takeWhile_eq_all_conv)
  next
    case (Cons u us)
    have sep: "strtok_all CHR '' '' (CHR '' '' # s) = strtok_all CHR '' '' s" for s
      by (subst (1 2) strtok_all.simps) simp
    have "join (t # ts) = c # (cs @ CHR '' '' # join ts)" using t Cons by (simp add: join_def)
    moreover have "takeWhile (\<lambda>c. c \<noteq> CHR '' '') (cs @ CHR '' '' # join ts) = cs"
      "dropWhile (\<lambda>c. c \<noteq> CHR '' '') (cs @ CHR '' '' # join ts) = CHR '' '' # join ts"
      using separated [OF t(3), of "join ts"] by simp_all
    ultimately show ?thesis using t Cons sep Cons.IH Cons.prems by (simp add: strtok_all_step)
  qed
qed simp


text \<open>What a filter must satisfy to be stored, and the storing.\<close>

definition filter_ok :: "filter_item list \<Rightarrow> bool" where
  "filter_ok items \<longleftrightarrow> items \<noteq> [] \<and> list_all item_ok items \<and> distinct (concat (map item_fields items))
     \<and> any_field (fold item_set items zero_rule)"

definition add_rule :: "filtering_rule \<Rightarrow> pf_options \<Rightarrow> pf_options" where
  "add_rule rule x = (if unat (rules_in_list x) < 256
     then x\<lparr>pf_rules := (pf_rules x)[unat (rules_in_list x) := rule], rules_in_list := rules_in_list x + 1\<rparr> else x)"

lemma opt_a_items:
  assumes "keeps ty" "filter_ok items" "length (pf_rules x) = 256"
  shows "opt_a ty (join (map item_text items)) x = Some (0, add_rule (fold item_set items zero_rule) x)"
proof -
  have ok: "items \<noteq> []" "list_all item_ok items" "distinct (concat (map item_fields items))" "any_field (fold item_set items zero_rule)"
    using assms(2) by (simp_all add: filter_ok_def)
  have "\<forall>t \<in> set (map item_text items). t \<noteq> [] \<and> CHR '' '' \<notin> set t"
    using ok(2) item_text_plain by (auto simp: list_all_iff)
  with strtok_all_join ok(1) have "strtok_all CHR '' '' (join (map item_text items)) = map item_text items" by simp
  moreover have "free zero_rule f" for f by (cases f) (simp_all add: zero_rule_def)
  then have "parse_filter_args ty (map item_text items) zero_rule = Some (fold item_set items zero_rule)"
    using parse_items [OF assms(1) ok(2,3), of zero_rule] by simp
  ultimately show ?thesis
    using ok(1,4) assms(3)
    by (cases "map item_text items") (simp_all add: opt_a_def parse_pfring_filter_def add_rule_def del: parse_filter_args.simps)
qed

section \<open>Properties\<close>

text \<open>The protocol table is read back: the number that is found for a name of the table is its index,
  although only eight characters are compared.\<close>

theorem protocol_lookup:
  assumes "k < 144" shows "get_ip_prot (ip_protocols ! k) = of_nat k"
  using assms by (rule get_ip_prot_name)

theorem protocol_lookup_witness: "get_ip_prot (ip_protocols ! 133) = 133"
  using protocol_lookup [of 133] by simp

text \<open>C25: A filter is stored as it is written: items for protocol, addresses, ports, VLAN and priority that
  set different fields, joined by blanks in any order, are appended to the rules as the one rule
  with exactly these fields. Every protocol of the table can be written by its name but the one
  with number 0 and nine that an earlier name begins (\<open>idpr-cmtp\<close>, \<open>ipv6-route\<close>, \<open>ipv6-frag\<close>, \<open>ipv6-icmp\<close>,
  \<open>ipv6-nonxt\<close>, \<open>ipv6-opts\<close>, \<open>stp\<close>, \<open>rsvp-e2e-ignore\<close>, \<open>udplite\<close>). Ports, VLAN and priority are below 65536 and
  fit the types of PF_RING's fields, one field besides the priority is not 0, and there is a place
  for the rule.\<close>

theorem filter_stored:
  assumes "keeps ty" "filter_ok items" "unat (rules_in_list x) < 256" "length (pf_rules x) = 256"
  shows "opt_a ty (join (map item_text items)) x
    = Some (0, x\<lparr>pf_rules := (pf_rules x)[unat (rules_in_list x) := fold item_set items zero_rule], rules_in_list := rules_in_list x + 1\<rparr>)"
  using opt_a_items [OF assms(1,2,4)] assms(3) by (simp add: add_rule_def)

definition demo_types :: rule_types where
  "demo_types = \<lparr>as_id = (\<lambda>v. v mod 65536), as_proto = (\<lambda>v. v mod 256), as_port = (\<lambda>v. v mod 65536), as_vlan = (\<lambda>v. v mod 65536)\<rparr>"

definition no_rules :: pf_options where
  "no_rules = \<lparr>pf_rules = replicate 256 zero_rule, rules_in_list = 0, filter_policy = - 1\<rparr>"

lemma demo_keeps: "keeps demo_types"
  by (simp add: keeps_def demo_types_def)

theorem filter_stored_witness:
  "map_option (\<lambda>(code, x). (code, pf_rules x ! 0, rules_in_list x)) (opt_a demo_types (join [''port:53'', ''prot:udp'']) no_rules)
     = Some (0, zero_rule\<lparr>r_proto := 17, r_port_low := 53, r_port_high := 53\<rparr>, 1)"
proof -
  have "item_ok (Prot 17)" "item_text (Prot 17) = ''prot:udp''"
    by (simp_all add: ip_protocols_def misread_protocols_def)
  moreover have "dec_string 53 = ''53''" by code_simp
  ultimately show ?thesis
    using filter_stored [OF demo_keeps, of "[Port 53, Prot 17]" no_rules]
    by (simp add: filter_ok_def any_field_def zero_rule_def no_rules_def del: replicate.simps)
qed

text \<open>Some protocols cannot be written: where an earlier name of the table begins the name of a
  protocol, the rule gets the number of the earlier one, so that \<open>prot:ipv6-icmp\<close> filters IPv6 in
  IPv4, \<open>prot:udplite\<close> UDP and \<open>prot:stp\<close> the protocol \<open>st\<close>.\<close>

theorem protocol_prefix_misread:
  assumes "keeps ty" "r_proto r = 0"
    and "(name, k) \<in> {(''idpr-cmtp'', 35), (''ipv6-route'', 41), (''ipv6-frag'', 41), (''ipv6-icmp'', 41), (''ipv6-nonxt'', 41),
      (''ipv6-opts'', 41), (''stp'', 5), (''rsvp-e2e-ignore'', 46), (''udplite'', 17)}"
  shows "parse_pfring_filter_arg ty (''prot:'' @ name) r = Some (r\<lparr>r_proto := int k\<rparr>)
    \<and> (\<exists>i < 144. ip_protocols ! i = name \<and> i \<noteq> k)"
proof
  have read: "proto_of name = Some k" using assms(3) misread_names by auto
  have plain: "plain_text name" "\<not> is_prefix_of ''hopopt'' name"
    using assms(3) by (auto simp: plain_text_def is_prefix_code c_tolower_def)
  have "plain_text ''prot''" by (simp add: plain_text_def)
  from parse_arg_pair [OF this plain(1) find_keyword_names(1)] set_proto_text [OF assms(1,2) plain(2)] read
  show "parse_pfring_filter_arg ty (''prot:'' @ name) r = Some (r\<lparr>r_proto := int k\<rparr>)" by (simp add: set_field_def)
  have "map (\<lambda>i. ip_protocols ! i) [38, 43, 44, 58, 59, 60, 118, 133, 135] = [''idpr-cmtp'', ''ipv6-route'', ''ipv6-frag'', ''ipv6-icmp'',
      ''ipv6-nonxt'', ''ipv6-opts'', ''stp'', ''rsvp-e2e-ignore'', ''udplite'']" by (simp add: ip_protocols_def)
  then have "\<exists>i \<in> {38, 43, 44, 58, 59, 60, 118, 133, 135}. ip_protocols ! i = name" using assms(3) by auto
  moreover have "k < 47 \<and> k \<notin> {38, 43, 44}" using assms(3) by auto
  ultimately show "\<exists>i < 144. ip_protocols ! i = name \<and> i \<noteq> k" by fastforce
qed

theorem protocol_prefix_misread_witness:
  "parse_pfring_filter_arg demo_types ''prot:ipv6-icmp'' zero_rule = Some (zero_rule\<lparr>r_proto := 41\<rparr>)"
  using protocol_prefix_misread [OF demo_keeps, of zero_rule "''ipv6-icmp''" 41] by (simp add: zero_rule_def)

end
