(* ===== verification/Pfring_Install.thy ===== *)
theory Pfring_Install
  imports Pfring_Filter Options
begin

text \<open>
  The installation of the PF_RING rules (\<^verbatim>\<open>src/helper.c\<close>) and the opening of a PF_RING device
  (\<^verbatim>\<open>src/main.c\<close>). What PF_RING answers is an argument; the rules it was given are the trace.
\<close>

section \<open>The rules\<close>

definition plugin_rule :: "impd_data \<Rightarrow> filtering_rule \<Rightarrow> filtering_rule" where
  "plugin_rule d r = r\<lparr>r_plugin_id := 23, r_filter_plugin_id := 23, r_plugin_data := Some d\<rparr>"

text \<open>Without a rule, one that matches every packet is made, and the default is to accept.\<close>

definition default_rules :: "pf_options \<Rightarrow> pf_options" where
  "default_rules x =
     (if rules_in_list x = 0 then
        x\<lparr>pf_rules := (pf_rules x)[0 := plugin_rule \<lparr>pd_range_min = 0, pd_range_max = 65535, pd_hash_function = Plugin_BOB,
              pd_pktid_function = Plugin_Net, pd_selection_function = Plugin_Rec\<rparr> zero_rule],
          rules_in_list := rules_in_list x + 1, filter_policy := 1\<rparr>
      else x\<lparr>filter_policy := 0\<rparr>)"

definition selection_rule :: "options \<Rightarrow> filtering_rule \<Rightarrow> filtering_rule" where
  "selection_rule opts = plugin_rule \<lparr>pd_range_min = sel_range_min opts, pd_range_max = sel_range_max opts, pd_hash_function = Plugin_BOB,
     pd_pktid_function = Plugin_BOB, pd_selection_function = Plugin_U_TCP_and_Net\<rparr>"

text \<open>
  The counter has 8 bits. \<open>add\<close> is \<^verbatim>\<open>pfring_add_filtering_rule\<close>, which may depend on the rules that were
  added before; \<open>None\<close> is a loop that does not end.
\<close>

datatype installed = Installed int pf_options "filtering_rule list"

partial_function (option) rules_loop ::
    "(filtering_rule list \<Rightarrow> filtering_rule \<Rightarrow> int) \<Rightarrow> options \<Rightarrow> byte \<Rightarrow> pf_options \<Rightarrow> filtering_rule list \<Rightarrow>
     installed option" where
  "rules_loop add opts i po added =
     (if unat i < unat (rules_in_list po) then
        (let r = selection_rule opts (pf_rules po ! unat i); po = po\<lparr>pf_rules := (pf_rules po)[unat i := r]\<rparr>
         in if add added r < 0 then Some (Installed (- 1) po added)
            else rules_loop add opts (i + 1) po (added @ [r]))
      else Some (Installed 0 po added))"

definition setPFRingFilter :: "(filtering_rule list \<Rightarrow> filtering_rule \<Rightarrow> int) \<Rightarrow> options \<Rightarrow> pf_options \<Rightarrow>
    installed option" where
  "setPFRingFilter add opts x = rules_loop add opts 0 (default_rules x) []"

definition setPFRingFilterPolicy :: "(int \<Rightarrow> int) \<Rightarrow> pf_options \<Rightarrow> int \<times> pf_options" where
  "setPFRingFilterPolicy toggle x =
     (let x = (if filter_policy x = - 1 then x\<lparr>filter_policy := 1\<rparr> else x)
      in if toggle (filter_policy x) < 0 then (- 1, x) else (0, x))"

section \<open>Opening\<close>

datatype pfring_result = Pfring_exit int | Pfring_open device pf_options "filtering_rule list" int

text \<open>
  \<open>handle\<close> says whether \<^verbatim>\<open>pfring_open\<close> succeeded, \<open>addr\<close> is the address of the device. The results of both
  filter functions are dropped. The result ends with the policy that PF_RING was given.
\<close>

definition open_pfring :: "bool \<Rightarrow> u32 \<Rightarrow> (filtering_rule list \<Rightarrow> filtering_rule \<Rightarrow> int) \<Rightarrow> (int \<Rightarrow> int) \<Rightarrow> options \<Rightarrow>
    device \<Rightarrow> pf_options \<Rightarrow> pfring_result option" where
  "open_pfring handle addr add toggle opts dev x =
     (if \<not> handle then Some (Pfring_exit 1)
      else do {
        let dev = dev\<lparr>IPv4address := addr, link_type := DLT_EN10MB, pkt_offset := 14\<rparr>;
        res \<leftarrow> setPFRingFilter add opts x;
        (case res of Installed _ x added \<Rightarrow>
           (let (_, x) = setPFRingFilterPolicy toggle x in Some (Pfring_open dev x added (filter_policy x)))) })"

text \<open>
  One packet per call: \<open>recv_ret\<close> is the result of \<^verbatim>\<open>pfring_recv\<close>, \<open>packet\<close> what it stored. The snap
  length is computed into a variable that nothing reads.
\<close>

definition pfring_dispatch :: "int \<Rightarrow> 'p \<Rightarrow> int \<times> 'p list" where
  "pfring_dispatch recv_ret packet =
     (if recv_ret = 0 then (1, []) else if recv_ret = - 1 then (- 1, []) else (1, [packet]))"

section \<open>Lemmas\<close>

text \<open>Fewer than 256 rules: each is given to PF_RING once, in order.\<close>

lemma rules_loop_adds:
  assumes "unat (rules_in_list x) < 256" "length (pf_rules x) = 256" "\<And>rs r. add rs r \<ge> 0"
  shows "unat i \<le> unat (rules_in_list x) \<Longrightarrow>
    \<exists>x'. rules_loop add opts i x added
        = Some (Installed 0 x' (added @ map (\<lambda>j. selection_rule opts (pf_rules x ! j)) [unat i..<unat (rules_in_list x)]))
      \<and> filter_policy x' = filter_policy x"
  using assms(1,2)
proof (induction "unat (rules_in_list x) - unat i" arbitrary: i x added)
  case 0
  then show ?case by (simp add: rules_loop.simps [of add opts i])
next
  case (Suc d)
  let ?r = "selection_rule opts (pf_rules x ! unat i)"
  let ?x = "x\<lparr>pf_rules := (pf_rules x)[unat i := ?r]\<rparr>"
  have lt: "unat i < unat (rules_in_list x)" using Suc.hyps(2) by simp
  have i1: "unat (i + 1) = unat i + 1" using lt Suc.prems(2) by (intro unat_add_lem [THEN iffD1, THEN trans]) (simp_all)
  have d: "d = unat (rules_in_list ?x) - unat (i + 1)" "unat (i + 1) \<le> unat (rules_in_list ?x)" using Suc.hyps(2) lt i1 by simp_all
  obtain x' where x': "rules_loop add opts (i + 1) ?x (added @ [?r])
        = Some (Installed 0 x' ((added @ [?r]) @ map (\<lambda>j. selection_rule opts (pf_rules ?x ! j)) [unat (i + 1)..<unat (rules_in_list ?x)]))"
      "filter_policy x' = filter_policy ?x"
    using Suc.hyps(1) [OF d, of "added @ [?r]"] Suc.prems by auto
  have "map (\<lambda>j. selection_rule opts (pf_rules ?x ! j)) [unat (i + 1)..<unat (rules_in_list ?x)]
      = map (\<lambda>j. selection_rule opts (pf_rules x ! j)) [Suc (unat i)..<unat (rules_in_list x)]"
    using i1 by auto
  then show ?case using x' lt not_less [THEN iffD2, OF assms(3)]
    by (simp add: rules_loop.simps [of add opts i x] upt_conv_Cons Let_def)
qed

text \<open>
  The loop in steps, for a library that may refuse a rule: the rule that call \<open>n\<close> gives to PF_RING when
  256 rules are set, whether it is refused, and the state of the loop before the call. The counter
  starts again at 0 after 256 calls.
\<close>

definition asked :: "options \<Rightarrow> pf_options \<Rightarrow> nat \<Rightarrow> filtering_rule" where
  "asked opts x n = selection_rule opts (pf_rules x ! (n mod 256))"

definition refused :: "(filtering_rule list \<Rightarrow> filtering_rule \<Rightarrow> int) \<Rightarrow> options \<Rightarrow> pf_options \<Rightarrow> nat \<Rightarrow> bool" where
  "refused add opts x n \<longleftrightarrow> add (map (asked opts x) [0..<n]) (asked opts x n) < 0"

definition before_call :: "options \<Rightarrow> pf_options \<Rightarrow> nat \<Rightarrow> byte \<Rightarrow> pf_options \<Rightarrow> filtering_rule list \<Rightarrow> bool" where
  "before_call opts x n i po added \<longleftrightarrow> unat i = n mod 256 \<and> unat (rules_in_list po) = 256 \<and> length (pf_rules po) = 256
     \<and> (\<forall>k < 256. selection_rule opts (pf_rules po ! k) = selection_rule opts (pf_rules x ! k))
     \<and> added = map (asked opts x) [0..<n]"

lemma selection_again: "selection_rule opts (selection_rule opts r) = selection_rule opts r"
  by (simp add: selection_rule_def plugin_rule_def)

lemma next_byte: "unat (i :: byte) = n mod 256 \<Longrightarrow> unat (i + 1) = Suc n mod 256"
  using mod_less_divisor [of 256 n] by (auto simp: unat_plus_if' mod_Suc)

lemma before_next:
  assumes "before_call opts x n i po added"
  shows "before_call opts x (Suc n) (i + 1) (po\<lparr>pf_rules := (pf_rules po)[unat i := selection_rule opts (pf_rules po ! unat i)]\<rparr>)
    (added @ [asked opts x n])" and "selection_rule opts (pf_rules po ! unat i) = asked opts x n" "unat i < 256"
  using assms next_byte [of i n] by (auto simp: before_call_def asked_def nth_list_update selection_again)

lemma rules_loop_step:
  assumes "before_call opts x n i po added"
  shows "rules_loop add opts i po added =
    (let po = po\<lparr>pf_rules := (pf_rules po)[unat i := selection_rule opts (pf_rules po ! unat i)]\<rparr>
     in if refused add opts x n then Some (Installed (- 1) po added)
        else rules_loop add opts (i + 1) po (added @ [asked opts x n]))"
proof -
  have "added = map (asked opts x) [0..<n]" "unat (rules_in_list po) = 256" using assms by (simp_all add: before_call_def)
  with before_next(2,3) [OF assms] show ?thesis
    by (simp add: rules_loop.simps [of add opts i] refused_def Let_def)
qed

lemma rules_loop_refused:
  "before_call opts x n i po added \<Longrightarrow> refused add opts x (n + d) \<Longrightarrow> \<exists>res. rules_loop add opts i po added = Some res"
proof (induction d arbitrary: n i po added)
  case 0
  then show ?case by (simp add: rules_loop_step [OF 0(1)] Let_def)
next
  case (Suc d)
  from Suc.IH [OF before_next(1) [OF Suc.prems(1)]] Suc.prems(2) show ?case
    by (simp add: rules_loop_step [OF Suc.prems(1)] Let_def)
qed

lemma rules_loop_endless:
  assumes "before_call opts x n i po added" "\<And>n. \<not> refused add opts x n"
  shows "rules_loop add opts i po added = None"
proof (rule ccontr)
  assume "rules_loop add opts i po added \<noteq> None"
  then obtain res where ret: "rules_loop add opts i po added = Some res" by auto
  have "add = add \<and> opts = opts \<longrightarrow> (\<nexists>n. before_call opts x n i po added)"
  proof (rule rules_loop.raw_induct [where
        P = "\<lambda>add' opts' i po added res. add' = add \<and> opts' = opts \<longrightarrow> (\<nexists>n. before_call opts x n i po added)", OF _ ret])
    fix f :: "(filtering_rule list \<Rightarrow> filtering_rule \<Rightarrow> int) \<Rightarrow> options \<Rightarrow> byte \<Rightarrow> pf_options \<Rightarrow> filtering_rule list \<Rightarrow> installed option"
      and add' opts' i po added res
    assume IH: "\<And>add' opts' i po added y. f add' opts' i po added = Some y \<Longrightarrow>
        add' = add \<and> opts' = opts \<longrightarrow> (\<nexists>n. before_call opts x n i po added)"
      and eq: "(if unat i < unat (rules_in_list po) then
         (let r = selection_rule opts' (pf_rules po ! unat i); po = po\<lparr>pf_rules := (pf_rules po)[unat i := r]\<rparr>
          in if add' added r < 0 then Some (Installed (- 1) po added) else f add' opts' (i + 1) po (added @ [r]))
         else Some (Installed 0 po added)) = Some res"
    show "add' = add \<and> opts' = opts \<longrightarrow> (\<nexists>n. before_call opts x n i po added)"
    proof (intro impI notI, elim conjE exE)
      fix n assume eqs: "add' = add" "opts' = opts" and b: "before_call opts x n i po added"
      have "added = map (asked opts x) [0..<n]" "unat (rules_in_list po) = 256" using b by (simp_all add: before_call_def)
      then have "f add' opts' (i + 1) (po\<lparr>pf_rules := (pf_rules po)[unat i := selection_rule opts (pf_rules po ! unat i)]\<rparr>)
          (added @ [asked opts x n]) = Some res"
        using eq eqs before_next(2,3) [OF b] assms(2) [of n] by (simp add: refused_def Let_def)
      from IH [OF this] before_next(1) [OF b] eqs show False by blast
    qed
  qed
  with assms(1) show False by blast
qed

lemma rules_loop_full:
  assumes "unat (rules_in_list x) = 256" "length (pf_rules x) = 256"
  shows "(\<exists>res. rules_loop add opts 0 x [] = Some res) \<longleftrightarrow> (\<exists>n. refused add opts x n)"
proof -
  have start: "before_call opts x 0 0 x []" using assms by (simp add: before_call_def)
  show ?thesis
  proof (cases "\<exists>n. refused add opts x n")
    case True
    with rules_loop_refused [OF start] show ?thesis by fastforce
  next
    case False
    with rules_loop_endless [OF start] show ?thesis by simp
  qed
qed

text \<open>With fewer rules the loop returns, whether PF_RING refuses a rule or not.\<close>

lemma rules_loop_short:
  assumes "unat (rules_in_list po) < 256"
  shows "unat i \<le> unat (rules_in_list po) \<Longrightarrow> \<exists>res. rules_loop add opts i po added = Some res"
  using assms
proof (induction "unat (rules_in_list po) - unat i" arbitrary: i po added)
  case 0
  then show ?case by (simp add: rules_loop.simps [of add opts i])
next
  case (Suc d)
  let ?r = "selection_rule opts (pf_rules po ! unat i)"
  let ?x = "po\<lparr>pf_rules := (pf_rules po)[unat i := ?r]\<rparr>"
  have lt: "unat i < unat (rules_in_list po)" using Suc.hyps(2) by simp
  have i1: "unat (i + 1) = unat i + 1" using lt Suc.prems(2) by (intro unat_add_lem [THEN iffD1, THEN trans]) (simp_all)
  have d: "d = unat (rules_in_list ?x) - unat (i + 1)" "unat (i + 1) \<le> unat (rules_in_list ?x)" using Suc.hyps(2) lt i1 by simp_all
  from Suc.hyps(1) [OF d, of "added @ [?r]"] Suc.prems lt show ?case
    by (auto simp: rules_loop.simps [of add opts i po] Let_def)
qed

text \<open>The rules that PF_RING is to get.\<close>

definition wanted_rules :: "options \<Rightarrow> pf_options \<Rightarrow> filtering_rule list" where
  "wanted_rules opts x = (if rules_in_list x = 0 then [selection_rule opts zero_rule]
     else map (selection_rule opts) (take (unat (rules_in_list x)) (pf_rules x)))"

lemma selection_plugin [simp]: "selection_rule opts (plugin_rule d r) = selection_rule opts r"
  by (simp add: selection_rule_def plugin_rule_def)

lemma setPFRingFilter_adds:
  assumes "unat (rules_in_list x) < 256" "length (pf_rules x) = 256" "\<And>rs r. add rs r \<ge> 0"
  shows "\<exists>x'. setPFRingFilter add opts x = Some (Installed 0 x' (wanted_rules opts x))
    \<and> filter_policy x' = (if rules_in_list x = 0 then 1 else 0)"
proof (cases "rules_in_list x = 0")
  case True
  then show ?thesis
    using rules_loop_adds [of "default_rules x" add 0 opts "[]"] assms
    by (simp add: setPFRingFilter_def default_rules_def wanted_rules_def)
next
  case False
  have "map (\<lambda>j. selection_rule opts (pf_rules x ! j)) [0..<unat (rules_in_list x)] = map (selection_rule opts) (take (unat (rules_in_list x)) (pf_rules x))"
    using assms(1,2) by (intro nth_equalityI) simp_all
  with False show ?thesis
    using rules_loop_adds [of "default_rules x" add 0 opts "[]"] assms
    by (simp add: setPFRingFilter_def default_rules_def wanted_rules_def)
qed

lemma setPFRingFilter_hangs:
  assumes "unat (rules_in_list x) = 256" "length (pf_rules x) = 256" "\<And>rs r. add rs r \<ge> 0"
  shows "setPFRingFilter add opts x = None"
proof -
  have "rules_in_list x \<noteq> 0" using assms(1) by auto
  then show ?thesis
    using rules_loop_full [of "x\<lparr>filter_policy := 0\<rparr>" add opts] assms(1,2) not_less [THEN iffD2, OF assms(3)]
    by (simp add: setPFRingFilter_def default_rules_def refused_def)
qed

text \<open>The options \<^verbatim>\<open>-a\<close> of a command line.\<close>

fun run_filters :: "rule_types \<Rightarrow> string list \<Rightarrow> pf_options \<Rightarrow> pf_options option" where
  "run_filters ty [] x = Some x"
| "run_filters ty (a # as) x = do { (_, x) \<leftarrow> opt_a ty a x; run_filters ty as x }"

lemma run_filters_items:
  "keeps ty \<Longrightarrow> list_all filter_ok fs \<Longrightarrow> length (pf_rules x) = 256 \<Longrightarrow> unat (rules_in_list x) \<le> 256 \<Longrightarrow>
    \<exists>x'. run_filters ty (map (\<lambda>f. join (map item_text f)) fs) x = Some x' \<and> length (pf_rules x') = 256
      \<and> unat (rules_in_list x') = min 256 (unat (rules_in_list x) + length fs)"
proof (induction fs arbitrary: x)
  case (Cons f fs)
  let ?x = "add_rule (fold item_set f zero_rule) x"
  have one: "opt_a ty (join (map item_text f)) x = Some (0, ?x)" using Cons.prems by (intro opt_a_items) simp_all
  have n: "unat (rules_in_list ?x) = min 256 (unat (rules_in_list x) + 1)"
  proof (cases "unat (rules_in_list x) < 256")
    case True
    then have "unat (rules_in_list x + 1) = unat (rules_in_list x) + 1"
      by (intro unat_add_lem [THEN iffD1, THEN trans]) simp_all
    with True show ?thesis by (simp add: add_rule_def)
  qed (use Cons.prems(4) in \<open>simp add: add_rule_def\<close>)
  have "length (pf_rules ?x) = 256" using Cons.prems(3) by (simp add: add_rule_def)
  from Cons.IH [OF Cons.prems(1) _ this] n Cons.prems(2) one show ?case by auto
qed simp

section \<open>Properties\<close>

text \<open>With fewer than 256 rules, opening a PF_RING device gives PF_RING each rule of the user once and
  in order, with the selection plugin and the selection window, and the default to drop other
  packets; without a rule it gets the one that matches all, and the default to accept. The device
  is an Ethernet device.\<close>

theorem pfring_rules_installed:
  assumes "unat (rules_in_list x) < 256" "length (pf_rules x) = 256" "\<And>rs r. add rs r \<ge> 0"
  shows "\<exists>x'. open_pfring True addr add toggle opts dev x
      = Some (Pfring_open (dev\<lparr>IPv4address := addr, link_type := DLT_EN10MB, pkt_offset := 14\<rparr>) x' (wanted_rules opts x)
          (if rules_in_list x = 0 then 1 else 0))"
  using setPFRingFilter_adds [where opts = opts and add = add, OF assms] by (auto simp: open_pfring_def setPFRingFilterPolicy_def Let_def)

theorem pfring_rules_installed_witness:
  "\<exists>dev x'. open_pfring True 0 (\<lambda>rs r. 0) (\<lambda>p. 0) zero_options zero_device (no_rules\<lparr>pf_rules := (zero_rule\<lparr>r_proto := 17\<rparr>) # replicate 255 zero_rule,
      rules_in_list := 1\<rparr>) = Some (Pfring_open dev x' [selection_rule zero_options (zero_rule\<lparr>r_proto := 17\<rparr>)] 0)"
  using pfring_rules_installed [of "no_rules\<lparr>pf_rules := (zero_rule\<lparr>r_proto := 17\<rparr>) # replicate 255 zero_rule, rules_in_list := 1\<rparr>" "\<lambda>rs r. 0"
      0 "\<lambda>p. 0" zero_options zero_device]
  by (auto simp: wanted_rules_def simp del: replicate.simps)

text \<open>C38: When the installation of the rules returns: always with fewer than 256 rules, whether PF_RING takes
  or refuses them; with 256 rules, the most that the array takes, exactly when PF_RING refuses one of the calls.
  For the counter of the loop has 8 bits and starts again at 0, so that rule \<open>n\<close> modulo 256 is given to
  PF_RING in call \<open>n\<close>, again and again. What PF_RING answers is arbitrary and may depend on the calls before.\<close>

theorem setPFRingFilter_returns_iff:
  assumes "unat (rules_in_list x) \<le> 256" "length (pf_rules x) = 256"
  shows "(\<exists>res. setPFRingFilter add opts x = Some res) \<longleftrightarrow> unat (rules_in_list x) < 256
    \<or> (\<exists>n. let call = (\<lambda>n. selection_rule opts (pf_rules x ! (n mod 256))) in add (map call [0..<n]) (call n) < 0)"
proof (cases "unat (rules_in_list x) < 256")
  case True
  then have "unat (rules_in_list (default_rules x)) < 256" by (simp add: default_rules_def)
  from rules_loop_short [OF this, of 0] True show ?thesis by (simp add: setPFRingFilter_def)
next
  case False
  with assms(1) have n: "unat (rules_in_list x) = 256" "rules_in_list x \<noteq> 0" by auto
  have "refused add opts (x\<lparr>filter_policy := 0\<rparr>) = refused add opts x" by (simp add: refused_def [abs_def] asked_def [abs_def])
  with rules_loop_full [of "x\<lparr>filter_policy := 0\<rparr>" add opts] n assms(2) show ?thesis
    by (simp add: setPFRingFilter_def default_rules_def refused_def asked_def [abs_def])
qed

text \<open>256 rules: taken without end by one library, and refused in the second round by another.\<close>

theorem setPFRingFilter_returns_iff_witness:
  "(\<nexists>res. setPFRingFilter (\<lambda>rs r. 0) zero_options (no_rules\<lparr>rules_in_list := 256\<rparr>) = Some res)
   \<and> (\<exists>res. setPFRingFilter (\<lambda>rs r. if length rs = 300 then - 1 else 0) zero_options (no_rules\<lparr>rules_in_list := 256\<rparr>) = Some res)"
proof -
  have x: "unat (rules_in_list (no_rules\<lparr>rules_in_list := 256\<rparr>)) = 256" "length (pf_rules (no_rules\<lparr>rules_in_list := 256\<rparr>)) = 256"
    by (simp_all add: no_rules_def del: replicate.simps)
  note iff = setPFRingFilter_returns_iff [where x = "no_rules\<lparr>rules_in_list := 256\<rparr>" and opts = zero_options, OF eq_refl [OF x(1)] x(2)]
  show ?thesis unfolding iff x(1) by (auto simp: Let_def intro!: exI [of _ 300])
qed

text \<open>A command line with 256 or more filters hangs the probe: the parser accepts them, and the
  installation never ends.\<close>

theorem too_many_filters_hang:
  assumes "keeps ty" "list_all filter_ok fs" "256 \<le> length fs" "\<And>rs r. add rs r \<ge> 0"
  shows "\<exists>x. run_filters ty (map (\<lambda>f. join (map item_text f)) fs) no_rules = Some x \<and> setPFRingFilter add opts x = None"
proof -
  obtain x where x: "run_filters ty (map (\<lambda>f. join (map item_text f)) fs) no_rules = Some x"
    "unat (rules_in_list x) = min 256 (length fs)" "length (pf_rules x) = 256"
    using run_filters_items [OF assms(1,2), of no_rules] by (auto simp: no_rules_def simp del: replicate.simps)
  with setPFRingFilter_hangs [where opts = opts and add = add and x = x, OF _ x(3) assms(4)] assms(3) show ?thesis by auto
qed

theorem too_many_filters_hang_witness:
  "\<exists>x. run_filters demo_types (map (\<lambda>f. join (map item_text f)) (map (\<lambda>p. [Port (Suc p)]) [0..<300])) no_rules = Some x
     \<and> setPFRingFilter (\<lambda>rs r. 0) zero_options x = None"
  by (rule too_many_filters_hang [OF demo_keeps])
    (auto simp: list_all_iff filter_ok_def any_field_def zero_rule_def simp del: upt_Suc)

end
