(* ===== verification/Pfring_Callback.thy ===== *)
theory Pfring_Callback
  imports Packet_Props
begin

text \<open>
  The packet callback of a PF_RING build (\<^verbatim>\<open>packet_pfring_cb\<close> in \<^verbatim>\<open>src/packet_handler.c\<close>). The
  kernel plugin has computed the hash and dropped what lies outside the window; the callback
  counts the packet and exports its record. It is written against an older device structure, with
  members for the layer offsets and the output buffer, and calls \<^verbatim>\<open>getTTL\<close>, the selection and the
  packet-id function with signatures that the program no longer has: these functions are not under
  \<^verbatim>\<open>src\<close> and are arguments here.
\<close>

section \<open>The callback\<close>

text \<open>The members of \<^verbatim>\<open>struct pfring_pkthdr\<close> that the callback reads; the layer offsets are \<^verbatim>\<open>int16_t\<close>.\<close>

record pfring_pkthdr =
  hdr_ts :: timeval
  hdr_caplen :: u32
  hdr_ip_version :: byte
  hdr_l3_proto :: byte
  hdr_num_pkts :: u32
  hdr_l4_offset :: "16 word"
  hdr_payload_offset :: "16 word"

record pfring_device =
  pd_device :: device
  pd_offset :: offsets
  pd_outbuffer :: "byte list"

record old_functions =
  getTTL :: "byte list \<Rightarrow> u32 \<Rightarrow> u32 \<Rightarrow> byte \<Rightarrow> byte option"
  old_selection :: "byte list \<Rightarrow> u32 \<Rightarrow> byte list \<Rightarrow> offsets \<Rightarrow> layers \<Rightarrow> (u32 \<times> byte list) option"
  old_pktid :: "byte list \<Rightarrow> u32 \<Rightarrow> u32 option"

text \<open>A failed export ends the process.\<close>

datatype pfring_outcome = Pf_returned pfring_device "ipfix_event list" | Pf_exited int

text \<open>The record of the template; the inner \<open>None\<close> is the \<^verbatim>\<open>default\<close> case.\<close>

definition pfring_length :: "byte list \<Rightarrow> u32 \<Rightarrow> byte \<Rightarrow> u16 option" where
  "pfring_length packet net lnet =
     (if lnet = N_IP then map_option ntohs (load16 packet (unat (net + 2)))
      else if lnet = N_IP6 then map_option ntohs (load16 packet (unat (net + 4)))
      else Some 0)"

definition pfring_fields :: "u32 \<Rightarrow> byte list \<Rightarrow> u32 \<Rightarrow> layers \<Rightarrow> u64 \<Rightarrow> u32 \<Rightarrow> byte \<Rightarrow> fields option option" where
  "pfring_fields t_id packet net lays timestamp hash_result ttl =
     (if t_id = MINT_ID then Some (Some [(F64 timestamp, 8), (F32 hash_result, 4), (F8 ttl, 1)])
      else if t_id = TS_ID then Some (Some [(F64 timestamp, 8), (F32 hash_result, 4)])
      else if t_id = TS_TTL_PROTO_ID then do {
        len \<leftarrow> pfring_length packet net (lay_net lays);
        Some (Some [(F64 timestamp, 8), (F32 hash_result, 4), (F8 ttl, 1), (F16 len, 2),
          (F8 (lay_trans lays), 1), (F8 (lay_net lays), 1)]) }
      else Some None)"

definition pfring_flush :: "options \<Rightarrow> pfring_device \<Rightarrow> pfring_device \<times> ipfix_event list" where
  "pfring_flush opts pd =
     (if dev_export_packet_count (pd_device pd) \<ge> export_packet_count opts
      then (pd\<lparr>pd_device := (pd_device pd)\<lparr>dev_export_packet_count := 0\<rparr>\<rparr>, [Flush]) else (pd, []))"

text \<open>\<open>sent\<close> tells whether \<^verbatim>\<open>ipfix_export_array\<close> succeeds.\<close>

definition packet_pfring_cb :: "old_functions \<Rightarrow> options \<Rightarrow> bool \<Rightarrow> pfring_pkthdr \<Rightarrow> byte list \<Rightarrow> pfring_device \<Rightarrow>
    pfring_outcome option" where
  "packet_pfring_cb old opts sent header packet pd =
     (let dev = (pd_device pd)\<lparr>sampling_delta_count := sampling_delta_count (pd_device pd) + 1,
                               totalpacketcount := totalpacketcount (pd_device pd) + 1\<rparr>;
          lays = no_layers\<lparr>lay_net := hdr_ip_version header, lay_trans := hdr_l3_proto header\<rparr>;
          hash_result = hdr_num_pkts header;
          offs = (pd_offset pd)\<lparr>L_TRANS := scast (hdr_l4_offset header) + L_NET (pd_offset pd),
                                L_PAYLOAD := scast (hdr_payload_offset header) + L_NET (pd_offset pd)\<rparr> in do {
       ttl \<leftarrow> getTTL old packet (hdr_caplen header) (L_NET offs) (lay_net lays);
       let dev = dev\<lparr>dev_export_packet_count := dev_export_packet_count dev + 1, sampling_size := sampling_size dev + 1\<rparr>;
       let pd = pd\<lparr>pd_device := dev, pd_offset := offs\<rparr>;
       if export_pktid_interval opts \<le> 0 then Some (Pf_returned pd [])
       else do {
         (pktid, out) \<leftarrow> (if hashAsPacketID opts = 1 then Some (hash_result, pd_outbuffer pd)
           else do {
             (copiedbytes, out) \<leftarrow> old_selection old packet (hdr_caplen header) (pd_outbuffer pd) offs lays;
             pktid \<leftarrow> old_pktid old out copiedbytes;
             Some (pktid, out) });
         let pd = pd\<lparr>pd_outbuffer := out\<rparr>;
         let timestamp = get_timestamp (hdr_ts header);
         fs \<leftarrow> pfring_fields (templateID opts) packet (L_NET offs) lays timestamp hash_result ttl;
         case fs of
           None \<Rightarrow> (let (pd, evs) = pfring_flush opts pd in Some (Pf_returned pd evs))
         | Some fs \<Rightarrow>
             if \<not> sent then Some (Pf_exited 1)
             else let (pd, evs) = pfring_flush opts pd in Some (Pf_returned pd (Export (templateID opts) fs # evs)) } })"

section \<open>Properties\<close>

text \<open>The account of the callback: every call that returns counts the packet as seen and as sampled, sends at
  most one record, and a record starts with the packet's time and the hash that the kernel stored.\<close>

theorem pfring_callback_counts:
  assumes "packet_pfring_cb old opts sent header packet pd = Some (Pf_returned pd' evs)"
  shows "totalpacketcount (pd_device pd') = totalpacketcount (pd_device pd) + 1
    \<and> sampling_delta_count (pd_device pd') = sampling_delta_count (pd_device pd) + 1
    \<and> sampling_size (pd_device pd') = sampling_size (pd_device pd) + 1 \<and> exports evs \<le> 1
    \<and> (\<forall>t_id fs. Export t_id fs \<in> set evs \<longrightarrow>
        t_id = templateID opts \<and> take 2 fs = [(F64 (get_timestamp (hdr_ts header)), 8), (F32 (hdr_num_pkts header), 4)])"
  using assms by (auto simp: packet_pfring_cb_def Let_def bind_Some_conv pfring_fields_def pfring_flush_def exports_def split: if_splits)

text \<open>Functions in the place of the older ones, and the demo device, for a concrete run.\<close>

definition demo_old :: old_functions where
  "demo_old = \<lparr>getTTL = (\<lambda>packet len net lnet. rd8 packet (unat net + 8)),
     old_selection = (\<lambda>packet len out offs lays. Some (0, out)), old_pktid = (\<lambda>out n. Some 0)\<rparr>"

definition demo_pfring :: pfring_device where
  "demo_pfring = \<lparr>pd_device = demo_device, pd_offset = no_offsets\<lparr>L_NET := 14\<rparr>, pd_outbuffer = []\<rparr>"

text \<open>The callback has no case for the template with addresses and ports: it counts such packets, and
  no record of them is sent.\<close>

theorem pfring_callback_omits_addresses:
  assumes "templateID opts = TS_TTL_PROTO_IP_ID" "packet_pfring_cb old opts sent header packet pd = Some (Pf_returned pd' evs)"
  shows "exports evs = 0 \<and> sampling_size (pd_device pd') = sampling_size (pd_device pd) + 1"
  using assms by (auto simp: packet_pfring_cb_def Let_def bind_Some_conv pfring_fields_def pfring_flush_def exports_def split: if_splits)

theorem pfring_callback_omits_addresses_witness:
  "\<exists>pd' evs. packet_pfring_cb demo_old (demo_options\<lparr>templateID := TS_TTL_PROTO_IP_ID\<rparr>) True \<lparr>hdr_ts = \<lparr>tv_sec = 0, tv_usec = 0\<rparr>, hdr_caplen = 44,
       hdr_ip_version = N_IP, hdr_l3_proto = T_UDP, hdr_num_pkts = 7, hdr_l4_offset = 20, hdr_payload_offset = 28\<rparr> (c_data demo_capture) demo_pfring
       = Some (Pf_returned pd' evs) \<and> exports evs = 0"
proof -
  let ?h = "\<lparr>hdr_ts = \<lparr>tv_sec = 0, tv_usec = 0\<rparr>, hdr_caplen = 44, hdr_ip_version = N_IP, hdr_l3_proto = T_UDP, hdr_num_pkts = 7,
       hdr_l4_offset = 20, hdr_payload_offset = 28\<rparr>"
  have "\<exists>pd' evs. packet_pfring_cb demo_old (demo_options\<lparr>templateID := TS_TTL_PROTO_IP_ID\<rparr>) True ?h (c_data demo_capture) demo_pfring
      = Some (Pf_returned pd' evs)"
    by (simp add: packet_pfring_cb_def Let_def demo_old_def demo_pfring_def rd8_def demo_capture_def demo_options_def pfring_fields_def
        pfring_flush_def split: prod.split)
  then obtain pd' evs where run: "packet_pfring_cb demo_old (demo_options\<lparr>templateID := TS_TTL_PROTO_IP_ID\<rparr>) True ?h (c_data demo_capture) demo_pfring
      = Some (Pf_returned pd' evs)" by blast
  from pfring_callback_omits_addresses [OF _ run] run show ?thesis by simp
qed

end
