(* ===== verification/Pfring_Printers.thy ===== *)
theory Pfring_Printers
  imports Inet_Addresses
begin

text \<open>
  The printers and time functions that a PF_RING build of \<^verbatim>\<open>src/helper.c\<close> uses for its traces:
  addresses, protocol names, the offset of local time, and time differences.
\<close>

section \<open>Addresses\<close>

definition hex_upper :: "nat \<Rightarrow> char" where
  "hex_upper n = ''0123456789ABCDEF'' ! n"

definition hex_lower :: "nat \<Rightarrow> char" where
  "hex_lower n = ''0123456789abcdef'' ! n"

text \<open>The two digits of a byte; the test for a zero digit changes nothing.\<close>

definition ether_byte :: "byte \<Rightarrow> string" where
  "ether_byte b = (let j = drop_bit 4 b in [if j \<noteq> 0 then hex_upper (unat j) else CHR ''0'', hex_upper (unat (b AND 0xf))])"

fun etheraddr_loop :: "byte list \<Rightarrow> nat \<Rightarrow> nat \<Rightarrow> string option" where
  "etheraddr_loop ep i 0 = Some []"
| "etheraddr_loop ep i (Suc k) = do { b \<leftarrow> rd8 ep i; s \<leftarrow> etheraddr_loop ep (Suc i) k; Some (CHR '':'' # ether_byte b @ s) }"

definition etheraddr_string :: "byte list \<Rightarrow> string option" where
  "etheraddr_string ep = do { b \<leftarrow> rd8 ep 0; s \<leftarrow> etheraddr_loop ep 1 5; Some (ether_byte b @ s) }"

text \<open>
  The faster \<^verbatim>\<open>inet_ntoa\<close> writes from the end of the buffer to the front: \<open>s\<close> is what stands behind the
  pointer, and a write is a fault when the buffer is full.
\<close>

definition put :: "nat \<Rightarrow> char \<Rightarrow> string \<Rightarrow> string option" where
  "put size_of_buf c s = (if length s < size_of_buf then Some (c # s) else None)"

definition put_digit :: "nat \<Rightarrow> u32 \<Rightarrow> string \<Rightarrow> string option" where
  "put_digit n d s = put n (char_of (unat d + 48)) s"

definition put_byte :: "nat \<Rightarrow> u32 \<Rightarrow> string \<Rightarrow> string option" where
  "put_byte n b s = do {
     s \<leftarrow> put_digit n (b mod 10) s;
     let b = b div 10;
     if b > 0 then do {
       s \<leftarrow> put_digit n (b mod 10) s;
       let b = b div 10;
       if b > 0 then put_digit n b s else Some s }
     else Some s }"

fun intoa_loop :: "nat \<Rightarrow> nat \<Rightarrow> u32 \<Rightarrow> string \<Rightarrow> string option" where
  "intoa_loop n 0 addr s = Some s"
| "intoa_loop n (Suc k) addr s = do {
     s \<leftarrow> put_byte n (addr AND 0xff) s;
     s \<leftarrow> put n CHR ''.'' s;
     intoa_loop n k (drop_bit 8 addr) s }"

text \<open>\<^verbatim>\<open>_intoa\<close> with a buffer of \<open>bufLen\<close> bytes, one of which takes the NUL.\<close>

definition intoa_buf :: "u32 \<Rightarrow> nat \<Rightarrow> string option" where
  "intoa_buf addr bufLen = do { s \<leftarrow> intoa_loop (bufLen - 1) 4 addr []; Some (tl s) }"

definition intoa :: "u32 \<Rightarrow> string option" where
  "intoa addr = intoa_buf addr (length ''ff:ff:ff:ff:ff:ff:255.255.255.255'' + 1)"

definition hex2 :: "byte \<Rightarrow> string" where
  "hex2 b = [hex_lower (unat b div 16), hex_lower (unat b mod 16)]"

text \<open>\<^verbatim>\<open>snprintf\<close> stores what fits the buffer before its NUL.\<close>

definition in6toa :: "byte list \<Rightarrow> string" where
  "in6toa a = take (length ''ffff:ffff:ffff:ffff:ffff:ffff:ffff:ffff'')
     (concat (map (\<lambda>i. (if i = 0 then [] else [CHR '':'']) @ hex2 (a ! (2 * i)) @ hex2 (a ! (2 * i + 1))) [0..<8]))"

definition proto2str :: "u16 \<Rightarrow> string" where
  "proto2str proto = (if proto = 6 then ''TCP'' else if proto = 17 then ''UDP'' else if proto = 1 then ''ICMP''
     else take 7 (dec_string (unat proto)))"

section \<open>Times\<close>

record tm =
  tm_year :: int
  tm_yday :: int
  tm_hour :: int
  tm_min :: int

text \<open>The offset of local time; \<^verbatim>\<open>gmtime\<close> and \<^verbatim>\<open>localtime\<close> are arguments.\<close>

definition gmt2local :: "tm \<Rightarrow> tm \<Rightarrow> int" where
  "gmt2local gmt loc =
     (let dt = (tm_hour loc - tm_hour gmt) * 60 * 60 + (tm_min loc - tm_min gmt) * 60;
          dir = tm_year loc - tm_year gmt;
          dir = (if dir = 0 then tm_yday loc - tm_yday gmt else dir)
      in dt + dir * 24 * 60 * 60)"

record timestamp =
  tv_sec :: int
  tv_usec :: int

definition delta_time :: "timestamp \<Rightarrow> timestamp \<Rightarrow> rat" where
  "delta_time now before =
     (let delta_seconds = tv_sec now - tv_sec before; delta_microseconds = tv_usec now - tv_usec before;
          (delta_seconds, delta_microseconds) =
            (if delta_microseconds < 0 then (delta_seconds - 1, delta_microseconds + 1000000) else (delta_seconds, delta_microseconds))
      in of_int (delta_seconds * 1000) + of_int delta_microseconds / 1000)"

section \<open>Lemmas\<close>

lemma put_room: "length s < n \<Longrightarrow> put n c s = Some (c # s)"
  by (simp add: put_def)

text \<open>The digits of a byte are those of its decimal number.\<close>

lemma put_byte_digits:
  assumes "unat b < 256" "length s + 3 \<le> n"
  shows "put_byte n b s = Some (dec_string (unat b) @ s)"
proof -
  have m: "unat (b mod 10) = unat b mod 10" "unat (b div 10) = unat b div 10" "b div 10 > 0 \<longleftrightarrow> 10 \<le> unat b" for b :: u32
    by (simp_all add: unat_mod unat_div word_less_nat_alt div_greater_zero_iff)
  have d: "dec_string k = (if k < 10 then [char_of (48 + k)] else dec_string (k div 10) @ [char_of (48 + k mod 10)])" for k
    by (rule dec_string.simps)
  consider "unat b < 10" | "10 \<le> unat b" "unat b < 100" | "100 \<le> unat b" by linarith
  then show ?thesis
  proof cases
    case 1
    then show ?thesis using assms(2) by (simp add: put_byte_def put_digit_def put_room m d [of "unat b"] add.commute)
  next
    case 2
    then have "\<not> 10 \<le> unat b div 10" "unat b div 10 < 10" by linarith+
    with 2 assms(2) show ?thesis
      by (simp add: put_byte_def put_digit_def put_room m d [of "unat b"] d [of "unat b div 10"] add.commute)
  next
    case 3
    then have "10 \<le> unat b div 10" "unat b div 10 div 10 < 10" using assms(1) by linarith+
    with 3 assms(2) show ?thesis
      by (simp add: put_byte_def put_digit_def put_room m d [of "unat b"] d [of "unat b div 10"] d [of "unat b div 10 div 10"] add.commute)
  qed
qed

lemma low_byte: "unat (w AND 0xff :: u32) = unat (byte_of w 0)"
proof -
  have "w AND 0xff = take_bit 8 w" by (simp add: take_bit_eq_mask mask_eq_exp_minus_1)
  then show ?thesis by (simp add: byte_of_def unsigned_ucast_eq unsigned_take_bit_eq)
qed

lemma byte_of_shift: "byte_of (drop_bit 8 w) i = byte_of w (Suc i)"
  by (simp add: byte_of_def add.commute)

lemma byte_of_swap: "i < 4 \<Longrightarrow> byte_of (ntohl w) i = byte_of w (3 - i)"
proof -
  assume i: "i < 4"
  have "bit (byte_of (ntohl w) i) n = bit (byte_of w (3 - i)) n" if "n < 8" for n
  proof -
    have "i = 0 \<or> i = 1 \<or> i = 2 \<or> i = 3" using i by auto
    then show ?thesis using bit_ntohl_bytes [OF that, of w] that
      by (elim disjE) (simp_all add: byte_of_def bit_simps add.commute)
  qed
  then show ?thesis by (intro bit_word_eqI) simp
qed

lemma short_byte: "length (dec_string (unat (byte_of w i))) \<le> 3"
proof -
  have d: "length (dec_string k) = (if k < 10 then 1 else length (dec_string (k div 10)) + 1)" for k
    by (subst dec_string.simps) simp
  let ?k = "unat (byte_of w i)"
  have "?k < 256" by (rule unat_byte)
  then have "?k div 10 div 10 < 10" by linarith
  with d [of ?k] d [of "?k div 10"] d [of "?k div 10 div 10"] show ?thesis by simp
qed

lemma intoa_step:
  assumes "length s + 4 \<le> n"
  shows "intoa_loop n (Suc k) addr s = intoa_loop n k (drop_bit 8 addr) (CHR ''.'' # dec_string (unat (byte_of addr 0)) @ s)"
proof -
  have "put_byte n (addr AND 0xff) s = Some (dec_string (unat (byte_of addr 0)) @ s)"
    using put_byte_digits [of "addr AND 0xff" s n] assms by (simp add: low_byte unat_byte)
  with short_byte [of addr 0] assms show ?thesis by (simp add: put_room)
qed

lemma intoa_buf_htoa:
  assumes "17 \<le> bufLen" shows "intoa_buf addr bufLen = Some (htoa addr)"
proof -
  let ?n = "bufLen - 1"
  let ?d = "\<lambda>i. dec_string (unat (byte_of addr i))"
  have l: "length (?d i) \<le> 3" for i by (rule short_byte)
  have four: "(4 :: nat) = Suc (Suc (Suc (Suc 0)))" by simp
  have b: "byte_of (drop_bit 24 addr) 0 = byte_of addr 3" "byte_of (drop_bit 16 addr) 0 = byte_of addr 2"
    "byte_of (drop_bit 8 addr) 0 = byte_of addr 1"
    by (simp_all add: byte_of_def)
  have "intoa_loop ?n 4 addr [] = Some (CHR ''.'' # ?d 3 @ CHR ''.'' # ?d 2 @ CHR ''.'' # ?d 1 @ CHR ''.'' # ?d 0)"
    unfolding four using assms l [of 0] l [of 1] l [of 2] l [of 3]
    by (simp add: intoa_step b del: intoa_loop.simps(2))
  then show ?thesis by (simp add: intoa_buf_def htoa_def dotted_def byte_of_swap)
qed

lemma intoa_htoa: "intoa addr = Some (htoa addr)"
proof -
  have "length ''ff:ff:ff:ff:ff:ff:255.255.255.255'' + 1 = 34" by simp
  then show ?thesis unfolding intoa_def by (simp only: intoa_buf_htoa)
qed

lemma etheraddr_loop_bytes:
  "i + k \<le> length ep \<Longrightarrow> etheraddr_loop ep i k = Some (concat (map (\<lambda>b. CHR '':'' # ether_byte b) (take k (drop i ep))))"
proof (induction k arbitrary: i)
  case (Suc k)
  then have "drop i ep = ep ! i # drop (Suc i) ep" by (simp add: Cons_nth_drop_Suc)
  with Suc show ?case by (simp add: rd8_Some)
qed simp

lemma ether_byte_digits: "ether_byte b = [hex_upper (unat b div 16), hex_upper (unat b mod 16)]"
proof -
  have "unat (drop_bit 4 b) = unat b div 16" by (simp add: drop_bit_eq_div unat_div)
  moreover have "b AND 0xf = take_bit 4 b" by (simp add: take_bit_eq_mask mask_eq_exp_minus_1)
  then have "unat (b AND 0xf) = unat b mod 16" by (simp add: take_bit_eq_mod unat_mod)
  moreover have "hex_upper 0 = CHR ''0''" by (simp add: hex_upper_def)
  ultimately show ?thesis by (auto simp: ether_byte_def Let_def)
qed

lemma delta_time_usec: "delta_time now before = of_int ((tv_sec now - tv_sec before) * 1000000 + (tv_usec now - tv_usec before)) / 1000"
  by (simp add: delta_time_def Let_def) (auto simp: field_simps)

text \<open>Days are counted by a calendar in which every year has at least 365 of them.\<close>

lemma gmt2local_offset:
  assumes "\<And>y. start y + 365 \<le> (start (y + 1) :: int)" "\<And>y. start (y + 1) \<le> start y + 366"
    and "0 \<le> tm_yday gmt" "tm_yday gmt < start (tm_year gmt + 1) - start (tm_year gmt)"
    and "0 \<le> tm_yday loc" "tm_yday loc < start (tm_year loc + 1) - start (tm_year loc)"
    and "d = start (tm_year loc) + tm_yday loc - (start (tm_year gmt) + tm_yday gmt)" "\<bar>d\<bar> \<le> 1"
  shows "gmt2local gmt loc = 60 * ((d * 24 + tm_hour loc - tm_hour gmt) * 60 + tm_min loc - tm_min gmt)"
proof -
  have up: "start y + 365 * int n \<le> start (y + int n)" for y n
  proof (induction n)
    case (Suc n)
    from assms(1) [of "y + int n"] have "start (y + int n) + 365 \<le> start (y + (1 + int n))" by (simp add: ac_simps)
    with Suc show ?case by (simp add: algebra_simps)
  qed simp
  have later: "start a + 365 * (b - a) \<le> start b" if "a \<le> b" for a b using up [of a "nat (b - a)"] that by simp
  have d: "d = (if tm_year loc = tm_year gmt then tm_yday loc - tm_yday gmt else tm_year loc - tm_year gmt)"
  proof (cases "tm_year loc" "tm_year gmt" rule: linorder_cases)
    case less
    with later [of "tm_year loc + 1" "tm_year gmt"] assms(3-8) show ?thesis by auto
  next
    case greater
    with later [of "tm_year gmt + 1" "tm_year loc"] assms(3-8) show ?thesis by auto
  qed (use assms(7) in simp)
  show ?thesis unfolding gmt2local_def Let_def using d by (auto simp: algebra_simps)
qed

section \<open>Properties\<close>

text \<open>C33: The faster address printer is the standard one: filling a buffer of at least 17 bytes from its
  end with the digits of the four bytes gives the dotted notation, without a write outside, and
  the static buffer is large enough.\<close>

theorem intoa_is_htoa:
  assumes "17 \<le> bufLen" shows "intoa_buf addr bufLen = Some (htoa addr) \<and> intoa addr = Some (htoa addr)"
  using intoa_buf_htoa [OF assms] intoa_htoa by simp

theorem intoa_is_htoa_witness: "intoa 0x7F000001 = Some (htoa 0x7F000001)"
  using intoa_is_htoa [of 17 "0x7F000001"] by simp

end
