(* ===== verification/Pfring_Trace.thy ===== *)
theory Pfring_Trace
  imports Pfring_Printers
begin

unbundle bit_operations_syntax

text \<open>
  What a PF_RING build of \<^verbatim>\<open>src/helper.c\<close> prints: the line for a packet when it is compiled with
  \<^verbatim>\<open>verbose\<close>, and the statistics of a device when it is compiled with \<^verbatim>\<open>PFRING_STATS\<close>.
\<close>

section \<open>Formats\<close>

text \<open>\<^verbatim>\<open>%0nd\<close>: zeros between the sign and the digits up to the width.\<close>

definition dec_pad :: "nat \<Rightarrow> int \<Rightarrow> string" where
  "dec_pad w i = (if i < 0 then CHR ''-'' # replicate (w - 1 - length (dec_string (nat (- i)))) CHR ''0'' @ dec_string (nat (- i))
     else replicate (w - length (dec_string (nat i))) CHR ''0'' @ dec_string (nat i))"

text \<open>\<^verbatim>\<open>%04X\<close> of 16 bits, \<^verbatim>\<open>%u\<close>, and \<^verbatim>\<open>%d\<close> of a value that is promoted to \<^verbatim>\<open>int\<close> or read as one.\<close>

definition hex4 :: "u16 \<Rightarrow> string" where
  "hex4 w = map (\<lambda>i. hex_upper (unat w div 16 ^ i mod 16)) [3, 2, 1, 0]"

definition fmt_u :: "u32 \<Rightarrow> string" where "fmt_u w = dec_string (unat w)"

definition fmt_d :: "u32 \<Rightarrow> string" where "fmt_d w = int_string (sint w)"

section \<open>The line of a packet\<close>

text \<open>The members of the PF_RING header that are printed.\<close>

record trace_hdr =
  th_ts :: timestamp
  th_caplen :: u32
  th_len :: u32
  th_parsed_header_len :: u16
  th_eth_type :: u16
  th_l3_proto :: byte
  th_ipv4_src :: u32
  th_ipv4_dst :: u32
  th_ipv6_src :: "byte list"
  th_ipv6_dst :: "byte list"
  th_l4_src_port :: u16
  th_l4_dst_port :: u16
  th_smac :: "byte list"
  th_dmac :: "byte list"
  th_ipv4_tos :: byte
  th_seq_num :: u32
  th_eth_offset :: "16 word"
  th_l3_offset :: "16 word"
  th_l4_offset :: "16 word"
  th_payload_offset :: "16 word"

text \<open>\<open>gmt\<close> is the value of \<^verbatim>\<open>gmt2local(0)\<close>; \<^verbatim>\<open>/\<close> and \<^verbatim>\<open>%\<close> of C truncate toward zero.\<close>

definition trace_time :: "int \<Rightarrow> timestamp \<Rightarrow> string" where
  "trace_time gmt t =
     (let s = sgn (tv_sec t + gmt) * (\<bar>tv_sec t + gmt\<bar> mod 86400);
          q = (\<lambda>a b. sgn a * (\<bar>a\<bar> div b)); r = (\<lambda>a b. sgn a * (\<bar>a\<bar> mod b))
      in dec_pad 2 (q s 3600) @ '':'' @ dec_pad 2 (q (r s 3600) 60) @ '':'' @ dec_pad 2 (r s 60) @ ''.''
         @ dec_pad 6 (tv_usec t mod 4294967296) @ '' '')"

definition trace_addr :: "trace_hdr \<Rightarrow> byte list \<Rightarrow> u32 \<Rightarrow> string option" where
  "trace_addr h ip6 ip4 = (if th_eth_type h = 0x86DD then Some (in6toa ip6) else intoa ip4)"

definition trace_parsed :: "trace_hdr \<Rightarrow> string option" where
  "trace_parsed h =
     (if unat (th_parsed_header_len h) > 0 then do {
        src \<leftarrow> trace_addr h (th_ipv6_src h) (th_ipv4_src h);
        dst \<leftarrow> trace_addr h (th_ipv6_dst h) (th_ipv4_dst h);
        smac \<leftarrow> etheraddr_string (th_smac h);
        dmac \<leftarrow> etheraddr_string (th_dmac h);
        Some (''[eth_type=0x'' @ hex4 (th_eth_type h) @ '']'' @ ''[l3_proto='' @ fmt_u (ucast (th_l3_proto h)) @ '']''
          @ ''['' @ src @ '':'' @ fmt_d (ucast (th_l4_src_port h)) @ '' -> ''
          @ dst @ '':'' @ fmt_d (ucast (th_l4_dst_port h)) @ ''] ''
          @ ''['' @ smac @ '' -> '' @ dmac @ ''] '') }
      else Some '''')"

text \<open>The end of the line, which both branches print.\<close>

definition trace_lengths :: "trace_hdr \<Rightarrow> string" where
  "trace_lengths h = ''[caplen='' @ fmt_d (th_caplen h) @ ''][len='' @ fmt_d (th_len h)
     @ ''][parsed_header_len='' @ fmt_d (ucast (th_parsed_header_len h)) @ '']''
     @ ''[eth_offset='' @ int_string (sint (th_eth_offset h)) @ ''][l3_offset='' @ int_string (sint (th_l3_offset h))
     @ ''][l4_offset='' @ int_string (sint (th_l4_offset h)) @ ''][payload_offset='' @ int_string (sint (th_payload_offset h)) @ '']'' @ [CHR 0x0A]"

text \<open>A VLAN tag moves the pointer to the packet; it is read at fixed places of the \<open>buffer\<close>.\<close>

definition trace_vlan :: "byte list \<Rightarrow> u16 \<Rightarrow> (u16 \<times> string \<times> nat) option" where
  "trace_vlan buffer eth_type =
     (if eth_type = 0x8100 then do {
        b14 \<leftarrow> rd8 buffer 14; b15 \<leftarrow> rd8 buffer 15; b16 \<leftarrow> rd8 buffer 16; b17 \<leftarrow> rd8 buffer 17;
        Some (ucast b16 * 256 + ucast b17, ''[vlan '' @ dec_string (unat (b14 AND 15) * 256 + unat b15) @ ''] '', 4) }
      else Some (eth_type, '''', 0))"

definition trace_network :: "byte list \<Rightarrow> trace_hdr \<Rightarrow> u16 \<Rightarrow> nat \<Rightarrow> string option" where
  "trace_network buffer h eth_type ptr =
     (if eth_type = 0x0800 then do {
        ip \<leftarrow> rd_slice buffer (ptr + unat (th_parsed_header_len h) + 14) 20;
        src \<leftarrow> do { w \<leftarrow> load32 ip 12; intoa (ntohl w) };
        dst \<leftarrow> do { w \<leftarrow> load32 ip 16; intoa (ntohl w) };
        Some (''['' @ src @ '':'' @ fmt_d (ucast (th_l4_src_port h)) @ '' '' @ ''-> '' @ dst @ '':''
          @ fmt_d (ucast (th_l4_dst_port h)) @ ''] '' @ ''[tos='' @ fmt_d (ucast (th_ipv4_tos h)) @ ''][tcp_seq_num=''
          @ fmt_u (th_seq_num h) @ '']'' @ trace_lengths h) }
      else Some ((if eth_type = 0x0806 then ''[ARP]'' else ''[eth_type=0x'' @ hex4 eth_type @ '']'') @ trace_lengths h))"

text \<open>
  The line. The \<open>buffer\<close> is the array that the packet was received into; the 14 bytes of the Ethernet
  header are copied from behind the parsed header.
\<close>

definition pfring_trace :: "int \<Rightarrow> byte list \<Rightarrow> trace_hdr \<Rightarrow> string option" where
  "pfring_trace gmt buffer h = do {
     parsed \<leftarrow> trace_parsed h;
     ehdr \<leftarrow> rd_slice buffer (unat (th_parsed_header_len h)) 14;
     eth_type \<leftarrow> map_option ntohs (load16 ehdr 12);
     shost \<leftarrow> etheraddr_string (take 6 (drop 6 ehdr));
     dhost \<leftarrow> etheraddr_string (take 6 ehdr);
     let eth = ''['' @ shost @ '' -> '' @ dhost @ ''][eth_type=0x'' @ hex4 eth_type @ ''] '';
     (eth_type, vlan, ptr) \<leftarrow> trace_vlan buffer eth_type;
     rest \<leftarrow> trace_network buffer h eth_type ptr;
     Some (trace_time gmt (th_ts h) @ parsed @ eth @ vlan @ rest) }"

section \<open>Device statistics\<close>

text \<open>
  \<^verbatim>\<open>print_stats\<close> prints what PF_RING counted. Its static variables are the state; \<open>now\<close> is the time of the
  call and \<open>counted\<close> the answer of \<^verbatim>\<open>pfring_stats\<close>. A printed line is the list of its numbers; a
  quotient of doubles is \<open>None\<close> for a zero divisor.
\<close>

record pfring_stats =
  ps_start :: timestamp
  ps_last_pkts :: u64
  ps_last_time :: timestamp
  ps_num_pkts :: u64
  ps_num_bytes :: u64

datatype stats_line =
    Absolute u32 u32 u32 "rat option"
  | Totals u64 u64
  | Throughput "rat option" "rat option"
  | Actual u64 rat "rat option"

definition fdiv :: "rat \<Rightarrow> rat \<Rightarrow> rat option" where
  "fdiv x y = (if y = 0 then None else Some (x / y))"

definition print_stats :: "timestamp \<Rightarrow> (u64 \<times> u64) option \<Rightarrow> pfring_stats \<Rightarrow> pfring_stats \<times> stats_line list" where
  "print_stats now counted st =
     (let print_all = tv_sec (ps_start st) \<noteq> 0;
          st = (if print_all then st else st\<lparr>ps_start := now\<rparr>);
          deltaMillisec = delta_time now (ps_start st);
          (st, out) = (case counted of
              None \<Rightarrow> (st, [])
            | Some (recv, dropped) \<Rightarrow>
                (let nBytes = ps_num_bytes st; nPkts = ps_num_pkts st;
                     thpt = fdiv (of_nat (8 * unat nBytes)) (deltaMillisec * 1000);
                     lost = (if recv = 0 then Some 0 else fdiv (of_nat (unat (dropped * 100))) (of_nat (unat (recv + dropped))));
                     out = [Absolute (ucast recv) (ucast dropped) (ucast (recv + dropped)) lost, Totals nPkts nBytes]
                       @ (if print_all then [Throughput (fdiv (of_nat (unat (nPkts * 1000))) deltaMillisec) thpt] else []);
                     out = out @ (if print_all \<and> tv_sec (ps_last_time st) > 0 then
                       (let deltaMillisec = delta_time now (ps_last_time st); diff = recv - ps_last_pkts st
                        in [Actual diff deltaMillisec (fdiv (of_nat (unat diff)) (deltaMillisec / 1000))]) else [])
                 in (st\<lparr>ps_last_pkts := recv\<rparr>, out)))
      in (st\<lparr>ps_last_time := now\<rparr>, out))"

section \<open>Lemmas\<close>

lemma etheraddr_total: "length ep = 6 \<Longrightarrow> \<exists>s. etheraddr_string ep = Some s"
  by (simp add: etheraddr_string_def rd8_def eval_nat_numeral)

lemma trace_vlan_total: "18 \<le> length buffer \<Longrightarrow> \<exists>t v ptr. trace_vlan buffer eth_type = Some (t, v, ptr) \<and> ptr \<le> 4"
  by (simp add: trace_vlan_def rd8_def)

text \<open>The addresses of an IPv4 header are printed in dotted notation.\<close>

lemma trace_network_total:
  assumes "ptr + unat (th_parsed_header_len h) + 34 \<le> length buffer"
  shows "\<exists>s. trace_network buffer h eth_type ptr = Some s"
proof -
  let ?ip = "take 20 (drop (ptr + unat (th_parsed_header_len h) + 14) buffer)"
  have "rd_slice buffer (ptr + unat (th_parsed_header_len h) + 14) 20 = Some ?ip" using assms by (simp add: rd_slice_def)
  moreover have "\<exists>w w'. load32 i 12 = Some w \<and> load32 i 16 = Some w'" if "length i = 20" for i
    using that by (simp add: load32_def rd8_def)
  then obtain w w' where "load32 ?ip 12 = Some w" "load32 ?ip 16 = Some w'" using assms by fastforce
  ultimately show ?thesis by (simp add: trace_network_def intoa_htoa)
qed

lemma trace_parsed_total:
  "length (th_smac h) = 6 \<Longrightarrow> length (th_dmac h) = 6 \<Longrightarrow> \<exists>s. trace_parsed h = Some s"
  using etheraddr_total [of "th_smac h"] etheraddr_total [of "th_dmac h"]
  by (auto simp: trace_parsed_def trace_addr_def intoa_htoa)

text \<open>The counters of \<^verbatim>\<open>print_stats\<close>: between two calls, the difference is what PF_RING received.\<close>

lemma print_stats_state:
  "print_stats now counted st = (st', out) \<Longrightarrow>
     ps_last_time st' = now \<and> ps_num_pkts st' = ps_num_pkts st \<and> ps_num_bytes st' = ps_num_bytes st
     \<and> ps_last_pkts st' = (case counted of None \<Rightarrow> ps_last_pkts st | Some (recv, _) \<Rightarrow> recv)
     \<and> ps_start st' = (if tv_sec (ps_start st) \<noteq> 0 then ps_start st else now)"
  by (auto simp: print_stats_def Let_def split: option.splits if_splits)

text \<open>The line is printed without a memory fault when the receive buffer has room for an Ethernet, a VLAN
  and an IP header behind the parsed header; a longer parsed header is a fault.\<close>

theorem pfring_trace_bounds:
  assumes "length (th_smac h) = 6" "length (th_dmac h) = 6"
  shows "(unat (th_parsed_header_len h) + 38 \<le> length buffer \<longrightarrow> (\<exists>s. pfring_trace gmt buffer h = Some s))
    \<and> (length buffer < unat (th_parsed_header_len h) + 14 \<longrightarrow> pfring_trace gmt buffer h = None)"
proof -
  obtain parsed where parsed: "trace_parsed h = Some parsed" using trace_parsed_total [OF assms] by blast
  show ?thesis
  proof (intro conjI impI)
    assume room: "unat (th_parsed_header_len h) + 38 \<le> length buffer"
    let ?e = "take 14 (drop (unat (th_parsed_header_len h)) buffer)"
    have e: "rd_slice buffer (unat (th_parsed_header_len h)) 14 = Some ?e" using room by (simp add: rd_slice_def)
    have len: "length ?e = 14" using room by simp
    obtain a b where mac: "etheraddr_string (take 6 (drop 6 ?e)) = Some a" "etheraddr_string (take 6 ?e) = Some b"
      using etheraddr_total [of "take 6 (drop 6 ?e)"] etheraddr_total [of "take 6 ?e"] len by auto
    obtain w where w: "load16 ?e 12 = Some w" using len by (simp add: load16_Some)
    obtain t v ptr where vlan: "trace_vlan buffer (ntohs w) = Some (t, v, ptr)" "ptr \<le> 4"
      using trace_vlan_total [of buffer "ntohs w"] room by auto
    then obtain s where "trace_network buffer h t ptr = Some s" using trace_network_total [of ptr h buffer t] room by auto
    with vlan show "\<exists>s. pfring_trace gmt buffer h = Some s"
      by (simp add: pfring_trace_def parsed e w mac Let_def del: take_take)
  next
    assume "length buffer < unat (th_parsed_header_len h) + 14"
    then show "pfring_trace gmt buffer h = None" by (simp add: pfring_trace_def parsed rd_slice_def)
  qed
qed

definition demo_hdr :: trace_hdr where
  "demo_hdr = \<lparr>th_ts = \<lparr>tv_sec = 3661, tv_usec = 7\<rparr>, th_caplen = 60, th_len = 60, th_parsed_header_len = 0, th_eth_type = 0x0800,
     th_l3_proto = 17, th_ipv4_src = 0, th_ipv4_dst = 0, th_ipv6_src = [], th_ipv6_dst = [], th_l4_src_port = 53, th_l4_dst_port = 53,
     th_smac = replicate 6 0, th_dmac = replicate 6 0, th_ipv4_tos = 0, th_seq_num = 0, th_eth_offset = 0, th_l3_offset = 14,
     th_l4_offset = 34, th_payload_offset = 42\<rparr>"

theorem pfring_trace_bounds_witness:
  "(\<exists>s. pfring_trace 0 (replicate 1024 0) demo_hdr = Some s)
    \<and> pfring_trace 0 (replicate 1024 0) (demo_hdr\<lparr>th_parsed_header_len := 1011\<rparr>) = None"
  using pfring_trace_bounds [of demo_hdr "replicate 1024 0" 0]
    pfring_trace_bounds [of "demo_hdr\<lparr>th_parsed_header_len := 1011\<rparr>" "replicate 1024 0" 0]
  by (simp add: demo_hdr_def del: replicate.simps)

end
