(* ===== verification/Netcon_Server.thy ===== *)
theory Netcon_Server
  imports Netcon Devices "HOL-Library.Multiset"
begin

unbundle bit_operations_syntax

text \<open>
  The part of \<^verbatim>\<open>src/netcon.c\<close> that would serve clients of its own: the code behind the first \<^verbatim>\<open>return\<close>
  of \<^verbatim>\<open>netcon_init\<close>, which the source marks as unused, and the callbacks that it registers. The model
  is of this code as it stands, should it be enabled again; it accounts for the descriptors of
  the clients.
\<close>

section \<open>Descriptors\<close>

text \<open>\<open>getfl\<close> and \<open>setfl\<close>: whether the two calls of \<^verbatim>\<open>fcntl\<close> succeed. The flags of the descriptor are returned.\<close>

definition setnonblock :: "bool \<Rightarrow> bool \<Rightarrow> u32 \<Rightarrow> int \<times> u32" where
  "setnonblock getfl setfl flags =
     (if \<not> getfl then (- 1, flags)
      else if \<not> setfl then (- 1, flags)
      else (0, fcntl_setfl flags (flags OR O_NONBLOCK)))"

section \<open>Clients\<close>

text \<open>
  The open descriptors of clients, the connections that a watcher refers to, and the descriptors
  that nothing refers to any more.
\<close>

record server =
  sv_open :: "int list"
  sv_conns :: "connection list"
  sv_lost :: "int list"

text \<open>
  What the system answers to an \<^verbatim>\<open>accept\<close>: the descriptor, whether there is memory, and the numeric host
  and port, \<open>None\<close> when \<^verbatim>\<open>getnameinfo\<close> fails.
\<close>

record accept_answers =
  ac_fd :: int
  ac_alloc :: bool
  ac_name :: "(string \<times> string) option"

text \<open>
  \<^verbatim>\<open>getnameinfo\<close> is told that \<^verbatim>\<open>remote_host\<close> has 1025 bytes, where it has 64: a longer name is a fault.
  A failure of the non-blocking mode is only logged. The connection is not entered into the list
  of the console; only its read watcher refers to it.
\<close>

definition accept_cb :: "accept_answers \<Rightarrow> server \<Rightarrow> server option" where
  "accept_cb a sv =
     (let client_fd = ac_fd a in
      if client_fd = - 1 then Some sv
      else let sv = sv\<lparr>sv_open := client_fd # sv_open sv\<rparr> in
        if \<not> ac_alloc a then Some (sv\<lparr>sv_open := remove1 client_fd (sv_open sv)\<rparr>)
        else case ac_name a of
            None \<Rightarrow> Some (sv\<lparr>sv_lost := client_fd # sv_lost sv\<rparr>)
          | Some (host, port) \<Rightarrow>
              if 64 \<le> length host then None
              else Some (sv\<lparr>sv_conns := sv_conns sv @ [calloc_connection\<lparr>c_fd := client_fd, c_reading := True\<rparr>]\<rparr>))"

text \<open>\<^verbatim>\<open>write_cb\<close> sends the message of the day and frees the connection; no code starts its watcher.\<close>

definition motd :: string where "motd = ''imp4e'' @ [CHR 0x0A]"

definition free_conn :: "nat \<Rightarrow> server \<Rightarrow> server" where
  "free_conn i sv = sv\<lparr>sv_open := remove1 (c_fd (sv_conns sv ! i)) (sv_open sv),
     sv_conns := take i (sv_conns sv) @ drop (Suc i) (sv_conns sv)\<rparr>"

definition write_cb :: "bool \<Rightarrow> nat \<Rightarrow> server \<Rightarrow> server \<times> string" where
  "write_cb writable i sv = (free_conn i sv, if writable then motd else '''')"

text \<open>A client sends something or closes: the read callback of its connection.\<close>

definition client_input :: "('c \<Rightarrow> string \<Rightarrow> 's \<Rightarrow> (int \<times> 's) option) \<Rightarrow> 'c list \<Rightarrow> nat \<Rightarrow> bool \<Rightarrow> bool \<Rightarrow> string \<Rightarrow>
    server \<Rightarrow> 's \<Rightarrow> (server \<times> 's) option" where
  "client_input call rs i error readable inp sv s = do {
     (c, s) \<leftarrow> read_cb call rs error readable inp (sv_conns sv ! i) s;
     (case c of
        None \<Rightarrow> Some (free_conn i sv, s)
      | Some c \<Rightarrow> Some (sv\<lparr>sv_conns := (sv_conns sv)[i := c]\<rparr>, s)) }"

section \<open>The listening socket\<close>

text \<open>
  The answers for one address of the list: the family, the name, \<^verbatim>\<open>socket\<close>, \<^verbatim>\<open>setsockopt\<close> and \<^verbatim>\<open>bind\<close>; then
  those to \<^verbatim>\<open>listen\<close> and to the two calls of \<^verbatim>\<open>fcntl\<close>.
\<close>

record addr_answers =
  ad_inet :: bool
  ad_name :: "string option"
  ad_socket :: int
  ad_setsockopt :: int
  ad_bind :: int

record listen_answers =
  ls_listen :: int
  ls_getfl :: bool
  ls_setfl :: bool

text \<open>
  The loop over the addresses: the descriptor that was bound (or the last value of \<^verbatim>\<open>listen_fd\<close> when the
  list is exhausted), or the return value with the descriptors that stay open. The end of the
  loop body, which would close the socket, is never reached. \<open>None\<close>: \<^verbatim>\<open>hoststr\<close> overflows.
\<close>

fun bind_loop :: "int \<Rightarrow> addr_answers list \<Rightarrow> ((int \<times> int list) + int) option" where
  "bind_loop listen_fd [] = Some (Inr listen_fd)"
| "bind_loop listen_fd (rp # rest) =
     (if ad_inet rp \<and> ad_name rp = None then Some (Inl (- 1, []))
      else if ad_inet rp \<and> 64 \<le> length (the (ad_name rp)) then None
      else let listen_fd = ad_socket rp in
        if listen_fd = - 1 then bind_loop listen_fd rest
        else if ad_setsockopt rp = - 1 then Some (Inl (- 1, []))
        else if ad_bind rp = 0 then Some (Inr listen_fd)
        else Some (Inl (- 1, [listen_fd])))"

text \<open>
  The result: return value, the descriptors that stay open, and the one the accept watcher reads.
  \<open>gai\<close> is the answer of \<^verbatim>\<open>getaddrinfo\<close>; \<open>fd0\<close> is \<^verbatim>\<open>listen_fd\<close> before, 0 in static storage.
\<close>

definition netcon_listen :: "int \<Rightarrow> addr_answers list \<Rightarrow> listen_answers \<Rightarrow> int \<Rightarrow> (int \<times> int list \<times> int option) option" where
  "netcon_listen gai serverAddrList ls fd0 =
     (if gai \<noteq> 0 then Some (- 1, [], None)
      else do {
        res \<leftarrow> bind_loop fd0 serverAddrList;
        (case res of
           Inl (r, left_open) \<Rightarrow> Some (r, left_open, None)
         | Inr fd \<Rightarrow>
             if ls_listen ls < 0 then Some (- 1, [], None)
             else if fst (setnonblock (ls_getfl ls) (ls_setfl ls) 2) < 0 then Some (- 1, [fd], None)
             else Some (0, [fd], Some fd)) })"

section \<open>Accounting for descriptors\<close>

datatype client_event =
    Accepted accept_answers
  | Input nat bool bool string
  | Output nat bool

fun client_step :: "('c \<Rightarrow> string \<Rightarrow> 's \<Rightarrow> (int \<times> 's) option) \<Rightarrow> 'c list \<Rightarrow> client_event \<Rightarrow> server \<Rightarrow> 's \<Rightarrow> (server \<times> 's) option" where
  "client_step call rs (Accepted a) sv s = map_option (\<lambda>sv. (sv, s)) (accept_cb a sv)"
| "client_step call rs (Input i error readable inp) sv s =
     (if i < length (sv_conns sv) then client_input call rs i error readable inp sv s else Some (sv, s))"
| "client_step call rs (Output i writable) sv s =
     (if i < length (sv_conns sv) then Some (fst (write_cb writable i sv), s) else Some (sv, s))"

fun client_run :: "('c \<Rightarrow> string \<Rightarrow> 's \<Rightarrow> (int \<times> 's) option) \<Rightarrow> 'c list \<Rightarrow> client_event list \<Rightarrow> server \<Rightarrow> 's \<Rightarrow> (server \<times> 's) option" where
  "client_run call rs [] sv s = Some (sv, s)"
| "client_run call rs (e # es) sv s = do { (sv, s) \<leftarrow> client_step call rs e sv s; client_run call rs es sv s }"

text \<open>The kernel hands out descriptors that are not in use.\<close>

fun fresh_event :: "server \<Rightarrow> client_event \<Rightarrow> bool" where
  "fresh_event sv (Accepted a) = (ac_fd a \<notin> set (sv_open sv))"
| "fresh_event sv e = True"

fun fresh_run :: "('c \<Rightarrow> string \<Rightarrow> 's \<Rightarrow> (int \<times> 's) option) \<Rightarrow> 'c list \<Rightarrow> client_event list \<Rightarrow> server \<Rightarrow> 's \<Rightarrow> bool" where
  "fresh_run call rs [] sv s = True"
| "fresh_run call rs (e # es) sv s =
     (fresh_event sv e \<and> (case client_step call rs e sv s of None \<Rightarrow> True | Some (sv, s) \<Rightarrow> fresh_run call rs es sv s))"

text \<open>Each open descriptor belongs to one connection or is lost; connections are not the exporter's.\<close>

definition server_ok :: "server \<Rightarrow> bool" where
  "server_ok sv \<longleftrightarrow> distinct (sv_open sv) \<and> mset (sv_open sv) = mset (map c_fd (sv_conns sv)) + mset (sv_lost sv)
     \<and> list_all (\<lambda>c. \<not> c_sync c) (sv_conns sv)"

lemma read_cb_client:
  assumes "read_cb call rs error readable inp c s = Some (r, s')" "\<not> c_sync c"
  shows "(case r of None \<Rightarrow> True | Some c' \<Rightarrow> \<not> c_sync c' \<and> c_fd c' = c_fd c)"
  using assms by (auto simp: read_cb_def connection_close_def Let_def dest!: connection_read_frame split: if_splits)

lemma mset_free:
  "i < length cs \<Longrightarrow> mset (map c_fd cs) = add_mset (c_fd (cs ! i)) (mset (map c_fd (take i cs @ drop (Suc i) cs)))"
  by (subst id_take_nth_drop [of i cs]) simp_all

lemma free_conn_ok:
  assumes "server_ok sv" "i < length (sv_conns sv)"
  shows "server_ok (free_conn i sv)"
proof -
  have "mset (sv_open sv) = add_mset (c_fd (sv_conns sv ! i)) (mset (map c_fd (take i (sv_conns sv) @ drop (Suc i) (sv_conns sv))) + mset (sv_lost sv))"
    using assms mset_free [OF assms(2)] by (simp add: server_ok_def del: map_append)
  then have "mset (remove1 (c_fd (sv_conns sv ! i)) (sv_open sv)) = mset (map c_fd (take i (sv_conns sv) @ drop (Suc i) (sv_conns sv))) + mset (sv_lost sv)"
    by (simp del: map_append)
  with assms(1) show ?thesis
    by (auto simp: server_ok_def free_conn_def list_all_iff dest: in_set_takeD in_set_dropD)
qed

lemma accept_cb_ok:
  assumes "accept_cb a sv = Some sv'" "server_ok sv" "ac_fd a \<notin> set (sv_open sv)"
  shows "server_ok sv'"
  using assms by (auto simp: accept_cb_def server_ok_def Let_def calloc_connection_def split: if_splits option.splits)

lemma client_input_ok:
  assumes "client_input call rs i error readable inp sv s = Some (sv', s')" "server_ok sv" "i < length (sv_conns sv)"
  shows "server_ok sv' \<and> sv_lost sv' = sv_lost sv"
proof -
  let ?c = "sv_conns sv ! i"
  have "\<not> c_sync ?c" using assms(2,3) by (simp add: server_ok_def list_all_length)
  from assms(1) obtain r where r: "read_cb call rs error readable inp ?c s = Some (r, s')"
    and sv': "sv' = (case r of None \<Rightarrow> free_conn i sv | Some c \<Rightarrow> sv\<lparr>sv_conns := (sv_conns sv)[i := c]\<rparr>)"
    by (auto simp: client_input_def bind_Some_conv split: option.splits)
  show ?thesis
  proof (cases r)
    case None
    with sv' free_conn_ok [OF assms(2,3)] show ?thesis by (simp add: free_conn_def)
  next
    case (Some c)
    with read_cb_client [OF r \<open>\<not> c_sync ?c\<close>] have c: "\<not> c_sync c" "c_fd c = c_fd ?c" by auto
    have "map c_fd ((sv_conns sv)[i := c]) = map c_fd (sv_conns sv)"
      using c(2) by (simp add: map_update list_update_same_conv assms(3))
    moreover have "list_all (\<lambda>c. \<not> c_sync c) ((sv_conns sv)[i := c])"
      using assms(2) c(1) by (auto simp: server_ok_def list_all_iff dest!: set_update_subset_insert [THEN subsetD])
    ultimately show ?thesis using assms(2) sv' Some by (simp add: server_ok_def)
  qed
qed

fun lost_by :: "client_event \<Rightarrow> int list" where
  "lost_by (Accepted a) = (if ac_fd a \<noteq> - 1 \<and> ac_alloc a \<and> ac_name a = None then [ac_fd a] else [])"
| "lost_by e = []"

lemma client_step_ok:
  assumes "client_step call rs e sv s = Some (sv', s')" "server_ok sv" "fresh_event sv e"
  shows "server_ok sv' \<and> sv_lost sv' = lost_by e @ sv_lost sv"
proof (cases e)
  case (Accepted a)
  with assms have acc: "accept_cb a sv = Some sv'" "ac_fd a \<notin> set (sv_open sv)" by auto
  have "sv_lost sv' = lost_by e @ sv_lost sv"
    using acc(1) Accepted by (auto simp: accept_cb_def Let_def split: if_splits option.splits)
  with accept_cb_ok [OF acc(1) assms(2) acc(2)] show ?thesis by simp
next
  case (Input i error readable inp)
  with assms client_input_ok show ?thesis by (fastforce split: if_splits)
next
  case (Output i writable)
  with assms free_conn_ok show ?thesis by (auto simp: write_cb_def free_conn_def split: if_splits)
qed

text \<open>C30: Clients leave no descriptor behind except those whose name could not be looked up: over every
  sequence of clients that connect, send and close, each open descriptor belongs to exactly one
  connection or is one of them.\<close>

theorem client_descriptors:
  assumes "client_run call rs es sv s = Some (sv', s')" "fresh_run call rs es sv s" "server_ok sv"
  shows "server_ok sv' \<and> mset (sv_lost sv') = mset (sv_lost sv) + mset (concat (map lost_by es))"
  using assms
proof (induction es arbitrary: sv s)
  case (Cons e es)
  from Cons.prems(1) obtain sv1 s1 where one: "client_step call rs e sv s = Some (sv1, s1)"
    and rest: "client_run call rs es sv1 s1 = Some (sv', s')" by (auto simp: bind_Some_conv)
  from Cons.prems(2) one have fresh: "fresh_event sv e" "fresh_run call rs es sv1 s1" by simp_all
  note ok = client_step_ok [OF one Cons.prems(3) fresh(1)]
  from Cons.IH [OF rest fresh(2)] ok show ?case by (simp add: ac_simps)
qed simp

theorem client_descriptors_witness:
  "\<exists>sv. client_run (\<lambda>(c :: unit) msg s. Some (1, s)) [] [Accepted \<lparr>ac_fd = 5, ac_alloc = True, ac_name = None\<rparr>,
      Accepted \<lparr>ac_fd = 6, ac_alloc = True, ac_name = Some (''10.0.0.1'', ''4000'')\<rparr>, Input 0 False True []]
      \<lparr>sv_open = [], sv_conns = [], sv_lost = []\<rparr> () = Some (sv, ()) \<and> server_ok sv \<and> mset (sv_lost sv) = {#5#}"
proof -
  let ?call = "\<lambda>(c :: unit) (msg :: string) s. Some (1 :: int, s)" and ?sv = "\<lparr>sv_open = [], sv_conns = [], sv_lost = []\<rparr>"
  let ?es = "[Accepted \<lparr>ac_fd = 5, ac_alloc = True, ac_name = None\<rparr>,
      Accepted \<lparr>ac_fd = 6, ac_alloc = True, ac_name = Some (''10.0.0.1'', ''4000'')\<rparr>, Input 0 False True []]"
  have run: "client_run ?call [] ?es ?sv () = Some (\<lparr>sv_open = [5], sv_conns = [], sv_lost = [5]\<rparr>, ())"
    by (simp add: accept_cb_def client_input_def read_cb_def connection_close_def calloc_connection_def free_conn_def)
  have "fresh_run ?call [] ?es ?sv ()"
    by (simp add: accept_cb_def client_input_def read_cb_def connection_close_def calloc_connection_def free_conn_def)
  from client_descriptors [OF run this] run show ?thesis by (intro exI [of _ "\<lparr>sv_open = [5], sv_conns = [], sv_lost = [5]\<rparr>"])
      (simp add: server_ok_def)
qed

text \<open>The loop tries the next address only when no socket can be made: a failed \<^verbatim>\<open>bind\<close> ends it, and the
  socket stays open.\<close>

theorem failed_bind_leaks:
  assumes "ad_name rp = Some host" "length host < 64" "ad_socket rp \<noteq> - 1" "ad_setsockopt rp \<noteq> - 1" "ad_bind rp \<noteq> 0"
  shows "netcon_listen 0 (rp # rest) ls fd0 = Some (- 1, [ad_socket rp], None)"
  using assms by (simp add: netcon_listen_def)

theorem failed_bind_leaks_witness:
  "netcon_listen 0 [\<lparr>ad_inet = True, ad_name = Some ''0.0.0.0'', ad_socket = 4, ad_setsockopt = 0, ad_bind = - 1\<rparr>,
      \<lparr>ad_inet = True, ad_name = Some ''127.0.0.1'', ad_socket = 5, ad_setsockopt = 0, ad_bind = 0\<rparr>]
      \<lparr>ls_listen = 0, ls_getfl = True, ls_setfl = True\<rparr> 0 = Some (- 1, [4], None)"
  using failed_bind_leaks [of "\<lparr>ad_inet = True, ad_name = Some ''0.0.0.0'', ad_socket = 4, ad_setsockopt = 0, ad_bind = - 1\<rparr>" "''0.0.0.0''"]
  by simp

end
