(* ===== verification/Usage_Text.thy ===== *)
theory Usage_Text
  imports Pfring_Filter Options_Props
begin

text \<open>
  The usage text (\<^verbatim>\<open>print_help\<close> in \<^verbatim>\<open>src/settings.c\<close>), line by line, for builds with and without PF_RING,
  and what it promises: the defaults it names and an example are compared with the option handlers.
\<close>

section \<open>The text\<close>

definition tabs :: "nat \<Rightarrow> string" where "tabs n = replicate n (CHR 0x09)"

definition help_head :: "string list" where
  "help_head = [
     ''impd4e - a libpcap based measuring probe which uses hash-based packet'',
     ''         selection and exports packetIDs via IPFIX to a collector.'',
     '''',
     ''USAGE: impd4e -i interface [options] '',
     '''',
     ''   -c  <configfile>               read parameters from config file'',
     ''                                  (parameters have precedence by order of the same parameters '',
     ''                                  (last comes last serves), or are supplemental, e.g. for -i)'',
     ''                                  (config file at last will overwrite cmd line (vice versa))'',
     '''']"

definition help_pcap_interfaces :: "string list" where
  "help_pcap_interfaces = [
     ''   -i  <i,f,p,s,u>:<interface>    interface(s) to listen on. It can be used multiple times.'',
     tabs 1 @ '' i - ethernet adapter;             -i i:eth0'',
     tabs 1 @ '' p - pcap file;                    -i p:traffic.pcap'',
     tabs 1 @ '' f - plain text file;              -i f:data.txt'',
     tabs 1 @ '' s - inet udp socket (AF_INET);    -i s:192.168.0.42:4711'',
     tabs 1 @ '' u - unix domain socket (AF_UNIX); -i u:/tmp/socket.AF_UNIX'']"

definition help_pfring_interfaces :: "string list" where
  "help_pfring_interfaces = [
     ''   -i  <r>:<interface>    interface(s) to listen on. It can be used multiple times.'',
     tabs 1 @ '' r - ethernet adapter using pfring;-i r:eth0'']"

definition help_network :: "string list" where
  "help_network = [
     '''',
     ''   -4                             use IPv4 socket interfaces'',
     ''   -6                             use IPv6 socket interfaces (default)'',
     '''',
     ''options: '']"

definition help_pfring_filter :: "string list" where
  "help_pfring_filter = [
     ''   -a <filter keyword>:<value>    Filtering if using PF_RING'',
     tabs 4 @ ''  Specify an packet filter and/or the default'',
     tabs 4 @ ''  filtering policy (valid for all filters).'',
     tabs 4 @ ''  It can be used multiple times.'']"

definition help_names :: "string list" where
  "help_names = [
     ''   -C  <Collector IP>             an IPFIX collector address'',
     ''                                  Default: localhost'',
     ''   -d <probe name>                a probe name'',
     ''                                  Default: <hostname>'',
     ''   -D <location name>             a location name'',
     ''   -e  <export packet count>      size of export buffer after which packets'',
     ''                                  are flushed (per device)'']"

definition help_bpf :: "string list" where
  "help_bpf = [
     ''   -f  <bpf>                      Berkeley Packet Filter expression (e.g. tcp udp icmp)'',
     '''']"

definition help_rest :: "string list" where
  "help_rest = [
     ''   -F  <hash_function>            hash function to use:'',
     ''                                  \"BOB\", \"OAAT\", \"TWMX\", \"HSIEH\"'',
     '''',
     ''   -G  <interval>                 location export interval in seconds. '',
     ''                                  Use -G 0 for exporting once at startup.'',
     ''                                  Default: 60.0 '',
     '''',
     ''   -I  <interval>                 pktid export interval in sec. (Default: 3.0)'',
     ''                                  Use -I 0 for disabling this export.'',
     '''',
     ''   -J  <interval>                 probe stats export interval in sec (Default: 30.0).'',
     ''                                  Use -J 0 for disabling this export.'',
     '''',
     ''   -K  <interval>                 interface stats export interval in sec (Default: 10.0). '',
     ''                                  Use -K 0 for disabling this export.'',
     '''',
     ''   -l <latitude>                  geo location (double): latitude'',
     ''   -l <lat>:<long>:<interval>     short form'',
     ''   -L <longitude>                 geo location (double): longitude'',
     ''   -L <long>:<lat>:<interval>     short form'',
     '''',
     ''   -m  <minimum selection range>  integer - do not use in conjunction with -r '',
     ''   -M  <maximum selection range>  integer - do not use in conjunction with -r '',
     '''',
     ''   -N  <snaplength>               max capturing size in bytes (Default: 80) '',
     '''',
     ''   -o  <observation domain id>    unique identifier for probe '',
     ''                                  Default: IP address of the interface'',
     '''',
     ''   -O <offset>                    offset in bytes pointing to the start of the packet '',
     ''                                  used for tunneled or crooked packets'',
     ''                                  !!! the offset is applied after the link layer (e.g. ethernet header)'',
     ''   -p  <hash function>            use different hash_function for packetID generation:'',
     ''                                  \"BOB\", \"OAAT\", \"TWMX\", \"HSIEH\" '',
     '''',
     ''   -P  <Collector Port>           an IPFIX Collector Port'',
     ''                                  Default: 4739'',
     ''   -r  <sampling ratio>           in % (double)'',
     '''',
     ''   -s  <selection function>       which parts of the packet used for hashing (presets)'',
     ''                                  either: \"IP+TP\", \"IP\", \"REC8\", \"PACKET\"'',
     ''                                  Default: \"IP+TP\"'',
     ''   -S  <selection function>       which parts of the packet used for hashing (byte selection)'',
     ''                                  <keyword><offset list>'',
     ''                                  keywords: \"RAW\", \"LAST\", \"LINK\", \"NET\", \"TRANS\", \"PAYLOAD\"'',
     ''                                  offset list: comma seperated list with byte offsets and offset ranges'',
     ''                                      , add another offset/offset range'',
     ''                                      - range modifier (include borders)'',
     ''                                      ^ range modifier (exclude borders)'',
     ''                                      < range modifier (exclude right border)'',
     ''                                      > range modifier (exclude left border)'',
     ''                                      + range modifier (offset length)'',
     ''                                      : range modifier (offset length)'',
     ''                                    < and > have to be escaped '',
     ''                                  Example: RAW20,34-45,14+4,4'',
     '''',
     ''   -t  <template>                 either \"min\" or \"lp\" or \"ts\" or \"ls\"'',
     ''                                  Default: \"min\"'',
     ''   -u                             use only one oid from the first interface '',
     '''',
     ''   -v[expression]                 verbose-level; use multiple times to increase output '',
     ''                                  filter by function names in comma-separated list at a certain '',
     ''                                  log level'',
     ''                                  * matches anything; can be combined at start/end of expressions'',
     ''                                  - exclude expression'',
     ''                                  Example: '-vv*,-main' matches anything but main-function (level 2)'',
     ''                                  Example: '-vvv*export*,-*flush, '',
     ''                                           matches all functions containing export, but not ending of flush'',
     ''                                  (PS: for all verbosity output this parameter must be the first)'',
     '''',
     ''   -h                             print this help '',
     ''   -V                             print version information '',
     '''',
     ''EXAMPLES for usage: '',
     ''sudo impd4e -i i:eth0 -C 172.20.0.1 -r 1 -t min '',
     ''sudo impd4e -i i:lo   -C 172.20.0.1 -o <id> -S 20,34-45'']"

definition newline :: string where "newline = [CHR 0x0A]"

text \<open>The keywords are printed in one line, the last one without a comma.\<close>

definition help_pfring_keywords :: "string list" where
  "help_pfring_keywords = [
     ''Possible PF_RING filter keywords include: ''
       @ concat (map (\<lambda>i. pfring_filter_keywords ! i @ '', '') [0..<last_pfring_filter_keyword])
       @ pfring_filter_keywords ! last_pfring_filter_keyword,
     '''',
     ''Possible PF_RING ip protocols include: '' @ print_all_ip_prot_str,
     '''']"

definition help_lines :: "bool \<Rightarrow> string list" where
  "help_lines pfring =
     (if pfring
      then help_head @ help_pfring_interfaces @ help_network @ help_pfring_filter @ help_names @ help_rest @ help_pfring_keywords
      else help_head @ help_pcap_interfaces @ help_network @ help_names @ help_bpf @ help_rest)"

definition print_help :: "bool \<Rightarrow> string" where
  "print_help pfring = concat (map (\<lambda>l. l @ newline) (help_lines pfring))"

section \<open>What the text documents\<close>

text \<open>An entry starts with three blanks and the letter of the option.\<close>

definition entry_letter :: "string \<Rightarrow> char list" where
  "entry_letter l = (if take 4 l = ''   -'' then [l ! 4] else [])"

text \<open>The lines of the entry of an option.\<close>

fun entry_from :: "char \<Rightarrow> string list \<Rightarrow> string list" where
  "entry_from c [] = []"
| "entry_from c (l # ls) = (if entry_letter l = [c] then l # takeWhile (\<lambda>l. entry_letter l = []) ls else entry_from c ls)"

definition help_entry :: "char \<Rightarrow> string" where
  "help_entry c = concat (map (\<lambda>l. l @ newline) (entry_from c (help_lines False)))"

text \<open>The word behind \<open>Default:\<close> in an entry.\<close>

definition default_mark :: string where "default_mark = ''Default: ''"

fun default_word :: "string \<Rightarrow> string" where
  "default_word [] = []"
| "default_word (c # cs) = (if take 9 (c # cs) = default_mark
     then takeWhile (\<lambda>c. \<not> c_isspace c \<and> c \<noteq> CHR '')'' \<and> c \<noteq> CHR 0x22) (dropWhile (\<lambda>c. c = CHR 0x22) (drop 9 (c # cs)))
     else default_word cs)"

section \<open>The text and the option table\<close>

lemma default_words:
  "default_word (help_entry (CHR ''C'')) = ''localhost''" "default_word (help_entry (CHR ''G'')) = ''60.0''"
  "default_word (help_entry (CHR ''I'')) = ''3.0''" "default_word (help_entry (CHR ''J'')) = ''30.0''"
  "default_word (help_entry (CHR ''K'')) = ''10.0''" "default_word (help_entry (CHR ''N'')) = ''80''"
  "default_word (help_entry (CHR ''P'')) = ''4739''" "default_word (help_entry (CHR ''s'')) = ''IP+TP''"
  by code_simp+

lemma default_numbers:
  "decimal ''60.0'' = 60" "decimal ''3.0'' = 3" "decimal ''30.0'' = 30" "decimal ''10.0'' = 10" "atoi ''80'' = 80" "atoi ''4739'' = 4739"
  by code_simp+

lemma default_selection: "opt_s ''IP+TP'' initial_settings = Returned 0 initial_settings"
  by code_simp

lemma s_opts_initial: "s_opts initial_settings = set_defaults_options zero_options"
  by (simp add: initial_settings_def)

lemma no_selection: "list_all (\<lambda>(name, f). \<not> strncase_eq arg name (length name)) fs \<Longrightarrow> sel_loop fs arg s = s"
  by (induction fs) auto

lemma upd_same: "f (s_opts s) = s_opts s \<Longrightarrow> upd f s = s"
  by (simp add: upd_def)

section \<open>Properties\<close>

text \<open>The documented defaults are the defaults: giving an option the value that the usage text names as its
  default leaves the settings as they are without the option.\<close>

theorem documented_defaults:
  assumes "c \<in> set ''CGIJKNPs''" "\<And>n. n \<le> 100 \<Longrightarrow> rounding lc (of_nat n) = of_nat n"
  shows "call_opt lc rc (find_opt_function_char c) (Some (default_word (help_entry c))) initial_settings = Returned 0 initial_settings"
proof -
  have r: "rounding lc 60 = 60" "rounding lc 3 = 3" "rounding lc 30 = 30" "rounding lc 10 = 10"
    using assms(2) [of 60] assms(2) [of 3] assms(2) [of 30] assms(2) [of 10] by simp_all
  have "c = CHR ''C'' \<or> c = CHR ''G'' \<or> c = CHR ''I'' \<or> c = CHR ''J'' \<or> c = CHR ''K'' \<or> c = CHR ''N'' \<or> c = CHR ''P'' \<or> c = CHR ''s''"
    using assms(1) by simp
  then show ?thesis
    by (elim disjE; simp add: default_words find_opt_function_char_def cfg_opt_list_def call_opt_simps with_arg_def
        opt_C_def opt_G_def opt_I_def opt_J_def opt_K_def opt_N_def opt_P_def strtod_def default_numbers r default_selection
        upd_same s_opts_initial set_defaults_options_def wrap16_def)
qed

theorem documented_defaults_witness:
  "call_opt (demo_libc []) (\<lambda>_ s. Fault) (find_opt_function_char (CHR ''K'')) (Some ''10.0'') initial_settings = Returned 0 initial_settings"
  using documented_defaults [of "CHR ''K''" "demo_libc []" "\<lambda>_ s. Fault"] by (simp add: demo_libc_def default_words)

text \<open>The last example of the usage text gives \<^verbatim>\<open>-S\<close> a list without a keyword: it is ignored.\<close>

theorem usage_example_ignored: "opt_S ''20,34-45'' s = Returned 0 s"
proof -
  have "list_all (\<lambda>(name, f). \<not> strncase_eq ''20,34-45'' name (length name)) selfunctions" by code_simp
  from no_selection [OF this] show ?thesis by (simp add: opt_S_def parseSelFunction_def)
qed

end
