(* ===== verification/Text_Output.thy ===== *)
theory Text_Output
  imports Pfring_Filter Pfring_Printers Hash_Digests Options
begin

unbundle bit_operations_syntax

text \<open>
  The small printers and debugging functions: the dumps of \<^verbatim>\<open>src/packet_handler.c\<close> and \<^verbatim>\<open>src/helper.c\<close>,
  the protocol list of \<^verbatim>\<open>src/pfring_filter.c\<close>, the ranges of \<^verbatim>\<open>src/hash.c\<close>, the version of
  \<^verbatim>\<open>src/settings.c\<close>, the file reader of \<^verbatim>\<open>src/stats.c\<close>; and the variant of a hash function for
  big-endian machines (\<^verbatim>\<open>src/twmx.c\<close>). A printer is the text it prints.
\<close>

section \<open>Dumps\<close>

definition eol :: string where "eol = [CHR 0x0A]"

text \<open>What \<^verbatim>\<open>print_array\<close> prints before the byte at index \<open>i\<close>.\<close>

definition separator :: "nat \<Rightarrow> string" where
  "separator i = (if i \<noteq> 0 \<and> i mod 4 = 0 then (if i mod 20 = 0 then eol else ''| '') else '''')"

text \<open>The loops read the bytes \<open>i..<l\<close>.\<close>

fun dump_from :: "(nat \<Rightarrow> byte \<Rightarrow> string) \<Rightarrow> byte list \<Rightarrow> nat \<Rightarrow> nat \<Rightarrow> string option" where
  "dump_from f p i 0 = Some ''''"
| "dump_from f p i (Suc k) = do { b \<leftarrow> rd8 p i; s \<leftarrow> dump_from f p (Suc i) k; Some (f i b @ s) }"

definition print_array_dump :: "byte list \<Rightarrow> int \<Rightarrow> string option" where
  "print_array_dump p l = do { s \<leftarrow> dump_from (\<lambda>i b. separator i @ hex2 b @ '' '') p 0 (nat l); Some (s @ eol) }"

text \<open>\<^verbatim>\<open>%3d.\<close> of a byte, and the backspace that takes back the last character.\<close>

definition dec3 :: "byte \<Rightarrow> string" where
  "dec3 b = (let d = dec_string (unat b) in replicate (3 - length d) (CHR '' '') @ d @ ''.'')"

definition backspace :: char where "backspace = CHR 0x08"

text \<open>
  An IPv4 header: the bytes before the addresses, the two addresses, the rest. The version is read
  before the length is looked at.
\<close>

definition print_ip4 :: "byte list \<Rightarrow> int \<Rightarrow> string option" where
  "print_ip4 p l = do {
     b \<leftarrow> rd8 p 0;
     if 0x40 \<noteq> (b AND 0xf0) then print_array_dump p l
     else do {
       let n = nat l; let i1 = min n 12; let i2 = max i1 (min n 16); let i3 = max i2 (min n 20);
       s1 \<leftarrow> dump_from (\<lambda>i b. hex2 b @ '' '') p 0 i1;
       s2 \<leftarrow> dump_from (\<lambda>i b. dec3 b) p i1 (i2 - i1);
       s3 \<leftarrow> dump_from (\<lambda>i b. dec3 b) p i2 (i3 - i2);
       s4 \<leftarrow> dump_from (\<lambda>i b. hex2 b @ '' '') p i3 (n - i3);
       Some (s1 @ [backspace] @ '' ['' @ s2 @ [backspace] @ ''] ['' @ s3 @ [backspace] @ ''] '' @ s4 @ eol) } }"

definition print_byte_array_hex :: "byte list \<Rightarrow> int \<Rightarrow> string option" where
  "print_byte_array_hex p n = do {
     s \<leftarrow> dump_from (\<lambda>i b. hex2 b @ '' '') p 0 (nat n);
     Some (''bytes(length='' @ int_string n @ ''): '' @ s @ eol) }"

section \<open>Lists\<close>

definition prot_line :: "nat \<Rightarrow> string" where
  "prot_line i = ''prot(0x'' @ [hex_lower (i div 16), hex_lower (i mod 16)] @ ''): '' @ ip_protocols ! i @ eol"

text \<open>As in \<^verbatim>\<open>get_ip_prot\<close>, 8 characters are compared; the loop goes on after a match.\<close>

definition print_ip_prot :: "string \<Rightarrow> string" where
  "print_ip_prot prot = concat (map (\<lambda>i. if strn_eq (ip_protocols ! i) prot 8 then prot_line i else '''') [0..<Suc last_ip_prot])"

definition print_all_ip_prot :: string where
  "print_all_ip_prot = concat (map prot_line [0..<Suc last_ip_prot])"

text \<open>The messages to the logger; the list is followed before it is tested.\<close>

fun print_selection_offsets :: "range_select list \<Rightarrow> string list option" where
  "print_selection_offsets [] = None"
| "print_selection_offsets (p # ps) = do {
     rest \<leftarrow> (if ps = [] then Some [] else print_selection_offsets ps);
     Some ((''offset: '' @ int_string (rs_offset p)) # (''length: '' @ int_string (rs_length p)) # rest) }"

text \<open>The build information is put in by the build system.\<close>

record build_info =
  package_version :: string
  build_version :: string
  build_date :: string
  git_branch :: string
  git_hash :: string

definition print_version_information :: "build_info option \<Rightarrow> string" where
  "print_version_information config = (case config of
       None \<Rightarrow> ''''
     | Some c \<Rightarrow> ''version:       '' @ package_version c @ eol @ ''build version: '' @ build_version c @ eol
         @ ''build date:    '' @ build_date c @ eol
         @ (if 0 < length (git_branch c) then ''git branch:    '' @ git_branch c @ eol else '''')
         @ (if 0 < length (git_hash c) then ''git version:   '' @ git_hash c @ eol else ''''))"

section \<open>Reading a file\<close>

text \<open>
  The first line of the open file is read into the buffer; \<^verbatim>\<open>fgets\<close> fails at the end of the file, or
  when there is no room. The result is the return value, what the buffer holds, and whether the
  stream is left open.
\<close>

definition get_file_contents :: "string option \<Rightarrow> nat \<Rightarrow> string \<Rightarrow> int \<times> string \<times> bool" where
  "get_file_contents fp n buf = (case fp of
       None \<Rightarrow> (- 1, buf, False)
     | Some s \<Rightarrow> if s = '''' \<or> n = 0 then (- 1, buf, True) else (0, fst (fgets (n - 1) s), False))"

section \<open>The mix hash for big-endian machines\<close>

definition TWMXHash_big_endian :: "byte list option \<Rightarrow> u32 \<Rightarrow> u32 \<Rightarrow> u32 option" where
  "TWMXHash_big_endian data len0 iv = (case data of
       None \<Rightarrow> Some 0
     | Some k \<Rightarrow> do {
         (k, len, key) \<leftarrow> twmx_loop_unaligned k (unat len0) iv;
         key \<leftarrow> twmx_tail k len key;
         Some (twmx_mix key) })"

section \<open>Facts\<close>

text \<open>A reader of the dumps: everything but hexadecimal digits is skipped, two digits are a byte.\<close>

definition hex_digits :: string where "hex_digits = ''0123456789abcdef''"

definition hex_value :: "char \<Rightarrow> nat" where
  "hex_value c = (case find (\<lambda>n. hex_lower n = c) [0..<16] of None \<Rightarrow> 0 | Some n \<Rightarrow> n)"

fun pairs :: "string \<Rightarrow> byte list" where
  "pairs (c # d # s) = word_of_nat (16 * hex_value c + hex_value d) # pairs s"
| "pairs _ = []"

definition undump :: "string \<Rightarrow> byte list" where
  "undump s = pairs (filter (\<lambda>c. c \<in> set hex_digits) s)"

lemma hex_lower_value: "n < 16 \<Longrightarrow> hex_value (hex_lower n) = n \<and> hex_lower n \<in> set hex_digits"
proof -
  assume "n < 16"
  then have "n \<in> set [0..<16]" by simp
  moreover have "\<forall>n \<in> set [0..<16]. hex_value (hex_lower n) = n \<and> hex_lower n \<in> set hex_digits"
    by code_simp
  ultimately show ?thesis by blast
qed

lemma nibbles: "unat (b :: byte) div 16 < 16" "unat b mod 16 < 16"
  using unsigned_less [of b, where 'a = nat] by (simp_all add: less_mult_imp_div_less)

lemma hex2_digits: "filter (\<lambda>c. c \<in> set hex_digits) (hex2 b) = hex2 b"
  by (simp add: hex2_def hex_lower_value nibbles)

lemma pairs_hex2: "pairs (hex2 b @ s) = b # pairs s"
  by (simp add: hex2_def hex_lower_value nibbles)

lemma undump_hex2: "filter (\<lambda>c. c \<in> set hex_digits) pre = [] \<Longrightarrow> undump (pre @ hex2 b @ '' '' @ s) = b # undump s"
  by (simp add: undump_def hex2_digits pairs_hex2) (simp add: hex_digits_def)

lemma undump_dump_from:
  assumes "\<And>i b. \<exists>pre. filter (\<lambda>c. c \<in> set hex_digits) pre = [] \<and> f i b = pre @ hex2 b @ '' ''"
  shows "dump_from f p i k = Some s \<Longrightarrow> undump (s @ eol) = take k (drop i p)"
proof (induction k arbitrary: i s)
  case 0
  then show ?case by (simp add: undump_def eol_def hex_digits_def)
next
  case (Suc k)
  then obtain b s' where r: "rd8 p i = Some b" "dump_from f p (Suc i) k = Some s'" "s = f i b @ s'"
    by (auto split: bind_splits)
  obtain pre where "filter (\<lambda>c. c \<in> set hex_digits) pre = []" "f i b = pre @ hex2 b @ '' ''"
    using assms by blast
  then have "undump (s @ eol) = b # undump (s' @ eol)"
    using undump_hex2 [of pre b "s' @ eol"] r(3) by simp
  moreover have "drop i p = b # drop (Suc i) p"
    using r(1) by (auto simp: rd8_def Cons_nth_drop_Suc split: if_splits)
  ultimately show ?case using Suc.IH [OF r(2)] by simp
qed

lemma dump_from_total: "i + k \<le> length p \<Longrightarrow> dump_from f p i k \<noteq> None"
  by (induction f p i k rule: dump_from.induct) (auto simp: rd8_def split: bind_splits)

lemma separator_blank: "filter (\<lambda>c. c \<in> set hex_digits) (separator i) = []"
  by (simp add: separator_def eol_def hex_digits_def)

text \<open>The dump of \<^verbatim>\<open>l\<close> bytes of a packet reads no byte behind them, and loses nothing: reading the
  hexadecimal digits back, over all column separators and line breaks, gives the bytes.\<close>

theorem print_array_roundtrip:
  assumes "nat l \<le> length p"
  shows "\<exists>s. print_array_dump p l = Some s \<and> undump s = take (nat l) p"
proof -
  obtain s where s: "dump_from (\<lambda>i b. separator i @ hex2 b @ '' '') p 0 (nat l) = Some s"
    using dump_from_total [of 0 "nat l" p] assms by fastforce
  then have "undump (s @ eol) = take (nat l) p"
    by (subst undump_dump_from [OF _ s]) (use separator_blank in auto)
  with s show ?thesis by (simp add: print_array_dump_def)
qed

theorem print_array_roundtrip_witness:
  "\<exists>s. print_array_dump [0xFF, 0x20, 3, 4, 5, 6] 5 = Some s \<and> undump s = [0xFF, 0x20, 3, 4, 5]"
  using print_array_roundtrip [of 5 "[0xFF, 0x20, 3, 4, 5, 6]"] by simp

text \<open>The variant of the hash for big-endian machines computes the same value as the one for
  little-endian machines, which loads aligned words, at every address.\<close>

theorem big_endian_agrees: "TWMXHash_big_endian (Some data) len iv = TWMXHash addr data len iv"
  by (simp add: TWMXHash_big_endian_def TWMXHash_def twmx_loop_same)

text \<open>Every buffer that is read successfully is bounded by the size given, and the stream is left open
  exactly when it could be opened but not read.\<close>

theorem get_file_contents_result:
  "get_file_contents fp n buf = (r, buf', leaked) \<Longrightarrow>
     (r = 0 \<longrightarrow> length buf' < n \<and> \<not> leaked) \<and> (leaked \<longleftrightarrow> r = - 1 \<and> fp \<noteq> None)"
proof -
  have "length (fst (fgets k s)) \<le> k" for k s
    by (induction k s rule: fgets.induct) (auto split: prod.splits)
  then have "0 < n \<Longrightarrow> length (fst (fgets (n - 1) s)) < n" for s
    by (metis Suc_pred' le_imp_less_Suc)
  then show "get_file_contents fp n buf = (r, buf', leaked) \<Longrightarrow> ?thesis"
    by (auto simp: get_file_contents_def split: option.splits if_splits)
qed

theorem get_file_contents_result_witness:
  "(0 = (0 :: int) \<longrightarrow> length ''cpu '' < (5 :: nat) \<and> \<not> False) \<and> (False \<longleftrightarrow> (0 :: int) = - 1 \<and> Some ''cpu 1 2'' \<noteq> None)"
  by (rule get_file_contents_result [of "Some ''cpu 1 2''" 5 "''''"])
    (simp add: get_file_contents_def eval_nat_numeral)

end
