(* ===== verification/Spec2Isabelle.thy ===== *)
theory Spec2Isabelle
  imports Path_Runs Event_Loop Pfring_Install Pfring_Callback Pfring_Trace Netcon_Server Usage_Text Text_Output
begin

text \<open>
  impd4e is a network probe: it captures packets on interfaces, capture files and sockets, hashes
  a part of each packet that does not change on its way through the network, and exports a
  record over IPFIX for every packet whose hash lies in a window, so that a collector can follow
  the same packet from probe to probe. This library models the C sources under \<^verbatim>\<open>src/src\<close> and
  \<^verbatim>\<open>src/include\<close> and proves what they do.

  \<^bold>\<open>How the program works, and where it is modelled.\<close>
  \<^item> \<^verbatim>\<open>main\<close> (\<^verbatim>\<open>main.c\<close>; theory \<open>Startup\<close>) reads the options, opens the devices, starts the IPFIX
    exporter (\<^verbatim>\<open>ipfix_handler.c\<close>) and the handlers, and enters the event loop.
  \<^item> Options come from the command line and from configuration files (\<^verbatim>\<open>settings.c\<close>; theories
    \<open>Number_Parsing\<close>, \<open>Options\<close>, \<open>Command_Line\<close>, lemmas in \<open>Options_Props\<close>); they are in the
    global \<^verbatim>\<open>g_options\<close> and \<^verbatim>\<open>if_devices\<close>, here the record \<open>settings\<close> (types in \<open>Data_Model\<close>).
  \<^item> Devices are opened by \<^verbatim>\<open>pcap_handler.c\<close>, \<^verbatim>\<open>socket_handler.c\<close> and \<^verbatim>\<open>helper.c\<close> (theory \<open>Devices\<close>);
    sockets are read by the dispatch loops of theory \<open>Sockets\<close>.
  \<^item> A captured packet goes through \<^verbatim>\<open>packet_handler.c\<close> (theory \<open>Packet_Handler\<close>, lemmas in
    \<open>Packet_Props\<close>, two devices on a path in \<open>Path_Props\<close>, two running probes in \<open>Path_Runs\<close>): the
    header search of \<^verbatim>\<open>hash.c\<close> (\<open>Headers\<close>), the selection of hash input of \<^verbatim>\<open>hash.c\<close>
    (\<open>Selection\<close>, \<open>Selection_Props\<close>), a hash function (\<^verbatim>\<open>bobhash.c\<close>, \<^verbatim>\<open>hsieh.c\<close>,
    \<^verbatim>\<open>twmx.c\<close>, \<^verbatim>\<open>hash.c\<close>; \<open>Hash_Functions\<close>, reference digests in \<open>Hash_Digests\<close>), and the data record
    of a template (\<^verbatim>\<open>ipfix_templates.h\<close>; \<open>Ipfix_Templates\<close>).
  \<^item> Timers export statistics (\<^verbatim>\<open>export_handler.c\<close>; theory \<open>Export\<close>, lemmas in \<open>Export_Props\<close>). \<open>loop_run\<close>
    there is the event loop as a list of packets and timer ticks. Those of the probe come from the
    files of \<^verbatim>\<open>/proc\<close> (\<^verbatim>\<open>stats.c\<close>; theory \<open>Stats\<close> for the records and the shares, theory \<open>Proc_Files\<close> for the
    readers, with \<^verbatim>\<open>fscanf\<close> for the directives of their formats, and \<open>get_probe_stats\<close>): the export
    takes the files as they are, so that a name that overruns its array is a fault there too.
  \<^item> The probe as it runs (theory \<open>Probe\<close>) is a step relation over all callbacks: packets of an
    interface, the timers, the resynchronisation, console input and errors, the late events of
    connections that were dropped, and user input. Its initial states are
    what \<^verbatim>\<open>main\<close> hands to the event loop. The process around it (theory \<open>Event_Loop\<close>; \<^verbatim>\<open>ev_handler.c\<close>,
    the end of \<^verbatim>\<open>main.c\<close>) has the signals, the shutdown and the exit code.
  \<^item> A PF_RING build has filters of its own (\<^verbatim>\<open>pfring_filter.h\<close>, \<^verbatim>\<open>settings.c\<close>, \<^verbatim>\<open>helper.c\<close>; theories
    \<open>Pfring_Filter\<close>, \<open>Pfring_Install\<close>), printers (\<open>Pfring_Printers\<close>), traces and statistics
    (\<open>Pfring_Trace\<close>) and a packet callback of its own (\<^verbatim>\<open>packet_handler.c\<close>; \<open>Pfring_Callback\<close>).
    \<open>Number_Text\<close> and \<open>Inet_Addresses\<close> hold what the C library does with printed numbers and
    addresses.
  \<^item> The collector may send commands on the connection it receives records from (\<^verbatim>\<open>netcon.c\<close>;
    theory \<open>Netcon\<close>), the user may type them; \<^verbatim>\<open>config_handler.c\<close> executes them (theory
    \<open>Runtime_Config\<close>). The part of \<^verbatim>\<open>netcon.c\<close> that serves other clients stands behind a
    \<^verbatim>\<open>return\<close>; it is in theory \<open>Netcon_Server\<close>.
  \<^item> The usage text (\<^verbatim>\<open>settings.c\<close>) is in theory \<open>Usage_Text\<close>; version, dumps and the other small
    printers are in \<open>Text_Output\<close>, with the hash variant for big-endian machines.
  \<^item> \<^verbatim>\<open>logger.c\<close> decides what is printed (theory \<open>Logger\<close>). C strings are in \<open>C_Strings\<close>, machine
    integers, byte memory and shared lemmas in \<open>Prelude\<close>.

  \<^bold>\<open>Conventions.\<close> A C object is a list of bytes; every access goes through \<open>rd8\<close>, \<open>rd_slice\<close> or
  \<open>wr_slice\<close> of \<open>Prelude\<close>, which are \<open>None\<close> outside the object, so \<open>Some\<close> means that the code had no
  memory fault. Unsigned integers are words of their width; an \<^verbatim>\<open>int\<close> is an \<open>int\<close> with \<open>wrap_int\<close>
  where it may leave its range. A \<^verbatim>\<open>double\<close> is a rational number and its rounding an argument.
  The end of the process is a value (\<open>Exited\<close>, \<open>Stopped\<close>, \<open>Quit\<close>). Calls into libipfix are the
  events of a trace. What libpcap, libipfix, the operating system and \<^verbatim>\<open>/proc\<close> answer is an
  argument of the definitions.

  \<^bold>\<open>Interfaces.\<close> \<open>settings_invariant\<close> (\<open>Options_Props\<close>): what every option handler keeps, and then
  every way to read options keeps. \<open>packet_source\<close> (\<open>Sockets\<close>): what the packet watcher
  relies on in a dispatch function. \<open>command_callbacks\<close> (\<open>Netcon\<close>): what the console asks of a
  registered command. The locales of \<open>Hash_Digests\<close>: what a hash over a buffer has to satisfy.
  Each is interpreted on the definitions of the code.

  \<^bold>\<open>What is proved.\<close>
  \<^item> Sampling: two probes that \<^verbatim>\<open>main\<close> started send the same hashes in the same order for the complete
    packets that pass both, however their callbacks interleave; packets that differ only in what
    routers change have the same hash; the header search finds the layers of well-formed packets;
    selections copy the bytes they name; the hash does not depend on stale bytes; the unrolled
    hashes are their reference digests.
  \<^item> Safety: a probe that \<^verbatim>\<open>main\<close> started processes every complete Ethernet IP packet with a payload
    without a memory fault, if the command line leaves \<open>-O\<close> at 0, the buffer at 59 bytes or more and
    the ranges not negative, selects neither \<open>REC8\<close> nor \<open>PACKET\<close> and does not switch on debug
    output. Outside these conditions there are theorems that show faults.
  \<^item> The running probe: every sequence of callbacks after every command line keeps the invariant,
    exports only records that fit their templates and accounts for the packets of each interface,
    and the periodic callbacks return, that of the probe statistics if the name of the process fits.
  \<^item> Accounts: over every stream of packets, timer ticks and failed exports, the counters of a
    device, the data records and the reports add up.
  \<^item> Types: data records and periodic records have the fields and lengths of their templates, and
    the templates that are registered are those that are looked up.
  \<^item> Options: whatever the command line, the files and the runtime commands say, the settings keep
    their invariant; a configuration key and a flag do the same; setters, the selection names and
    the ratio do what they say; reading nested configuration files ends when no file names itself.
  \<^item> The end: an interrupt flushes, closes and exits with 0 at any time.
  \<^item> Statistics: files as the kernel prints them are read back, and give the shares, the memory and
    the sizes; the idle share lies between 0 and 1.
  \<^item> PF_RING: a filter is stored as it is written, for every protocol but nine that are misread; the
    rules are installed in order; the installation returns for fewer than 256 of them, and with
    256 exactly when PF_RING refuses a call; the faster address printer is the standard one.
  \<^item> Console: the slots implement a set of registered and a set of watched descriptors, and it is said
    which resynchronisations cannot go on; lines reach the commands; the command
    protocol is answered; each open descriptor of a client is accounted for.
  \<^item> Texts: the defaults that the usage text names are those of the options; a dump is read back; a
    function logs exactly when the filters let it.
  \<^item> What goes wrong is stated as a theorem too: the registry that is emptied after the
    registration, the watcher that is initialised while active, the connection that is not read
    again after an error, the empty line, the template that
    cannot be typed, the empty datagram, the interval 0 that does not switch statistics off, the
    configuration file that names itself, the read one byte past a TCP header, the overflows of
    the packet selection and of the debug dump.

  \<^bold>\<open>Bounds.\<close> The only fuel is the nesting depth of configuration files in \<open>opt_c\<close>: \<open>Too_deep\<close> is a
  value of its own, and files without a cycle end within the depth that they are ordered by. All
  other loops are structural or have a measure. A datagram has at most 65535 bytes, \<^verbatim>\<open>getopt\<close> is
  that of glibc, \<^verbatim>\<open>strtod\<close> reads decimal numbers, conversions are those of x86-64.

  \<^bold>\<open>Not modelled.\<close> Log messages, except for the memory their preparation touches; \<^verbatim>\<open>usecpu\<close> of
  \<^verbatim>\<open>stats.c\<close>, which burns time for a test; code that is commented out; declarations without a
  body. The PF_RING callback uses members that \<^verbatim>\<open>device_dev_t\<close> no longer has and functions that are
  not under \<^verbatim>\<open>src\<close>: they are a record beside the device and arguments of its model, and what the kernel
  plugin computes is not described. libev is modelled as far as the callbacks see it: which watchers are
  active, and that an error stops one.
\<close>

end
